(* ===== verification/Prelude.thy ===== *)
theory Prelude
  imports Complex_Main "HOL-Library.Multiset"
begin

text \<open>
  Shared vocabulary of the development: the lemma collections the component theories
  feed, the object-store address type, the JavaScript array primitives the scanner
  calls (\<open>Array.prototype.find\<close>, \<open>String.prototype.startsWith\<close>, the stable
  \<open>Array.prototype.sort\<close>), and generic list lemmas the component proofs share.
  Nothing here models code of the repository; it models the JavaScript runtime the
  code runs on.
\<close>

named_theorems js_simps "evaluation rules of the modelled JavaScript primitives"
named_theorems store_simps "frame rules of the audiobook object store"

type_synonym addr = nat

subsection \<open>\<open>Array.prototype.find\<close> and \<open>findIndex\<close>\<close>

text \<open>The position of the first element satisfying the predicate, if any.\<close>

fun find_pos :: "('a \<Rightarrow> bool) \<Rightarrow> 'a list \<Rightarrow> nat option" where
  "find_pos P [] = None"
| "find_pos P (x # xs) = (if P x then Some 0 else map_option Suc (find_pos P xs))"

lemma find_pos_None_iff [simp]: "find_pos P xs = None \<longleftrightarrow> \<not> list_ex P xs"
  by (induction xs) auto

lemma find_pos_SomeD:
  "find_pos P xs = Some i \<Longrightarrow> i < length xs \<and> P (xs ! i) \<and> (\<forall>j < i. \<not> P (xs ! j))"
proof (induction xs arbitrary: i)
  case Nil
  then show ?case by simp
next
  case (Cons x xs)
  show ?case
  proof (cases "P x")
    case True
    with Cons.prems show ?thesis by simp
  next
    case False
    with Cons.prems obtain i' where i': "find_pos P xs = Some i'" and "i = Suc i'"
      by auto
    with Cons.IH [OF i'] False show ?thesis
      by (auto simp: less_Suc_eq_0_disj)
  qed
qed

lemma find_pos_first:
  "i < length xs \<Longrightarrow> P (xs ! i) \<Longrightarrow> \<forall>j < i. \<not> P (xs ! j) \<Longrightarrow> find_pos P xs = Some i"
proof (induction xs arbitrary: i)
  case Nil
  then show ?case by simp
next
  case (Cons x xs)
  show ?case
  proof (cases i)
    case 0
    with Cons.prems show ?thesis by simp
  next
    case (Suc i')
    with Cons.prems have "\<not> P x" by auto
    moreover from Cons.prems Suc have "find_pos P xs = Some i'"
      by (intro Cons.IH) auto
    ultimately show ?thesis using Suc by simp
  qed
qed

lemma find_by_find_pos: "find P xs = map_option (nth xs) (find_pos P xs)"
  by (induction xs) (auto simp: option.map_comp comp_def)

subsection \<open>\<open>String.prototype.startsWith\<close>\<close>

fun starts_with :: "'a list \<Rightarrow> 'a list \<Rightarrow> bool" where
  "starts_with [] s = True"
| "starts_with (p # ps) [] = False"
| "starts_with (p # ps) (c # cs) = (p = c \<and> starts_with ps cs)"

lemma starts_with_iff [js_simps]: "starts_with p s \<longleftrightarrow> take (length p) s = p"
  by (induction p s rule: starts_with.induct) auto

lemma starts_with_append [simp]: "starts_with p (p @ s)"
  by (simp add: starts_with_iff)

subsection \<open>The stable \<open>Array.prototype.sort\<close>\<close>

text \<open>
  Since ECMAScript 2019 \<open>Array.prototype.sort\<close> is stable. With a comparator that is a
  consistent total preorder (as \<open>(a, b) => key a - key b\<close> is for keys from a linear
  order), its result is a permutation of the input, sorted by the key, in which elements
  with equal keys keep their input order. These three requirements determine the result:
  it is the library's insertion sort \<open>sort_key\<close>. The lemma below is that uniqueness,
  and it is why the component theories model every \<open>sort\<close> call by \<open>sort_key\<close>.
\<close>

definition stable_sorted_by :: "('a \<Rightarrow> 'k::linorder) \<Rightarrow> 'a list \<Rightarrow> 'a list \<Rightarrow> bool" where
  "stable_sorted_by f xs ys \<longleftrightarrow>
     mset ys = mset xs \<and> sorted (map f ys) \<and>
     (\<forall>k. filter (\<lambda>x. f x = k) ys = filter (\<lambda>x. f x = k) xs)"

lemma stable_sorted_by_sort_key: "stable_sorted_by f xs (sort_key f xs)"
  by (simp add: stable_sorted_by_def sort_key_stable)

lemma stable_sorted_by_unique:
  assumes "stable_sorted_by f xs ys"
  shows "ys = sort_key f xs"
proof -
  from assms have m: "mset ys = mset xs" and s: "sorted (map f ys)"
    and st: "\<And>k. filter (\<lambda>x. f x = k) ys = filter (\<lambda>x. f x = k) xs"
    by (auto simp: stable_sorted_by_def)
  have "filter (\<lambda>x. f k = f x) ys = filter (\<lambda>x. f k = f x) xs" for k
    using st [of "f k"] by (simp add: eq_commute)
  with m s show ?thesis
    by (intro properties_for_sort_key [symmetric]) auto
qed

subsection \<open>Generic list facts\<close>

lemma map_nth_upd_other [store_simps]:
  "i \<noteq> j \<Longrightarrow> xs[i := v] ! j = xs ! j"
  by simp

lemma sorted_map_append_le:
  "sorted (map f xs) \<Longrightarrow> sorted (map f ys) \<Longrightarrow> (\<forall>x\<in>set xs. \<forall>y\<in>set ys. f x \<le> f y) \<Longrightarrow>
   sorted (map f (xs @ ys))"
  by (auto simp: sorted_append)

lemma map_insort_key: "map f (insort_key f x xs) = insort (f x) (map f xs)"
  by (induction xs) auto

lemma map_sort_key: "map f (sort_key f xs) = sort (map f xs)"
  by (induction xs) (simp_all add: map_insort_key)

end
