(* ===== verification/JsNumber.thy ===== *)
theory JsNumber
  imports Prelude
begin

text \<open>
  JavaScript numbers as the scanner uses them. \<open>Number(s)\<close> on a string follows
  ECMAScript's StringToNumber: surrounding white space is trimmed, the empty string is
  \<open>0\<close>, a decimal literal has an optional sign, digits, an optional fraction and an
  optional exponent, \<open>Infinity\<close> is a literal, \<open>0b\<close>/\<open>0o\<close>/\<open>0x\<close> introduce binary,
  octal and hexadecimal integers, and anything else is \<open>NaN\<close>. Finite values are kept
  as exact rationals: the rounding of IEEE doubles (values past \<open>2^53\<close>, overflow of huge
  exponents to \<open>Infinity\<close>) is not modelled. \<open>Math.trunc\<close>, \<open>isNaN\<close> and the
  falsiness of numbers are the scanner's other primitives.

  Track indices are integral numbers or infinities (\<open>Math.trunc(Infinity)\<close> is
  \<open>Infinity\<close> and passes the scanner's \<open>isNumber\<close> check): the type \<open>tnum\<close>, with
  the linear order the comparator \<open>(a, b) => a.index - b.index\<close> induces (ECMAScript's
  SortCompare reads a \<open>NaN\<close> result, as \<open>Infinity - Infinity\<close>, as \<open>+0\<close>: equal).
\<close>

datatype jsnum = JNaN | JNum rat | JPosInf | JNegInf

subsection \<open>Characters\<close>

definition js_whitespace :: "char \<Rightarrow> bool" where
  "js_whitespace c \<longleftrightarrow> of_char c \<in> {9, 10, 11, 12, 13, 32 :: nat}"

definition digit_char :: "char \<Rightarrow> bool" where
  "digit_char c \<longleftrightarrow> (48::nat) \<le> of_char c \<and> (of_char c :: nat) \<le> 57"

definition digit_val :: "char \<Rightarrow> nat" where
  "digit_val c = (of_char c :: nat) - 48"

text \<open>The value of a digit in a radix up to 36, letters in either case.\<close>

definition radix_digit :: "nat \<Rightarrow> char \<Rightarrow> nat option" where
  "radix_digit b c =
     (let n = (of_char c :: nat);
          v = (if 48 \<le> n \<and> n \<le> 57 then Some (n - 48)
               else if 97 \<le> n \<and> n \<le> 122 then Some (n - 87)
               else if 65 \<le> n \<and> n \<le> 90 then Some (n - 55) else None)
      in case v of Some d \<Rightarrow> if d < b then Some d else None | None \<Rightarrow> None)"

definition digits_value :: "nat \<Rightarrow> nat list \<Rightarrow> nat" where
  "digits_value b ds = foldl (\<lambda>acc d. b * acc + d) 0 ds"

definition dec_digits_value :: "string \<Rightarrow> nat" where
  "dec_digits_value s = digits_value 10 (map digit_val s)"

subsection \<open>StringToNumber\<close>

definition js_trim :: "string \<Rightarrow> string" where
  "js_trim s = rev (dropWhile js_whitespace (rev (dropWhile js_whitespace s)))"

definition unsigned_digits :: "string \<Rightarrow> int option" where
  "unsigned_digits ds =
     (if ds \<noteq> [] \<and> list_all digit_char ds then Some (int (dec_digits_value ds)) else None)"

text \<open>An exponent part \<open>e[+-]digits\<close> that ends the literal; no exponent is \<open>e0\<close>.\<close>

definition exponent_part :: "string \<Rightarrow> int option" where
  "exponent_part s =
     (case s of
        [] \<Rightarrow> Some 0
      | c # t \<Rightarrow>
          if c = CHR ''e'' \<or> c = CHR ''E'' then
            (case t of
               [] \<Rightarrow> None
             | d # u \<Rightarrow>
                 if d = CHR ''+'' then unsigned_digits u
                 else if d = CHR ''-'' then map_option uminus (unsigned_digits u)
                 else unsigned_digits t)
          else None)"

definition dec_value :: "string \<Rightarrow> string \<Rightarrow> int \<Rightarrow> rat" where
  "dec_value ip fp e =
     (let m = of_nat (dec_digits_value (ip @ fp)) :: rat; k = e - int (length fp)
      in if 0 \<le> k then m * 10 ^ nat k else m / 10 ^ nat (- k))"

definition unsigned_decimal :: "string \<Rightarrow> jsnum" where
  "unsigned_decimal s =
     (if s = ''Infinity'' then JPosInf
      else
        let ip = takeWhile digit_char s;
            r = dropWhile digit_char s;
            (fp, r') = (case r of
                          [] \<Rightarrow> ([], [])
                        | c # t \<Rightarrow>
                            if c = CHR ''.'' then (takeWhile digit_char t, dropWhile digit_char t)
                            else ([], r))
        in if ip = [] \<and> fp = [] then JNaN
           else (case exponent_part r' of
                   Some e \<Rightarrow> JNum (dec_value ip fp e)
                 | None \<Rightarrow> JNaN))"

fun js_neg :: "jsnum \<Rightarrow> jsnum" where
  "js_neg (JNum q) = JNum (- q)"
| "js_neg JPosInf = JNegInf"
| "js_neg JNegInf = JPosInf"
| "js_neg JNaN = JNaN"

definition decimal_literal :: "string \<Rightarrow> jsnum" where
  "decimal_literal s =
     (case s of
        [] \<Rightarrow> JNaN
      | c # t \<Rightarrow>
          if c = CHR ''+'' then unsigned_decimal t
          else if c = CHR ''-'' then js_neg (unsigned_decimal t)
          else unsigned_decimal s)"

definition radix_prefix :: "char \<Rightarrow> nat option" where
  "radix_prefix x =
     (if x = CHR ''b'' \<or> x = CHR ''B'' then Some 2
      else if x = CHR ''o'' \<or> x = CHR ''O'' then Some 8
      else if x = CHR ''x'' \<or> x = CHR ''X'' then Some 16 else None)"

text \<open>A complete \<open>0b\<close>/\<open>0o\<close>/\<open>0x\<close> literal, or \<open>None\<close> when the string is not one.\<close>

definition nondecimal_literal :: "string \<Rightarrow> jsnum option" where
  "nondecimal_literal s =
     (case s of
        z # x # ds \<Rightarrow>
          (case radix_prefix x of
             Some b \<Rightarrow>
               if z = CHR ''0'' \<and> ds \<noteq> [] \<and> list_all (\<lambda>c. radix_digit b c \<noteq> None) ds
               then Some (JNum (of_nat (digits_value b (map (\<lambda>c. case radix_digit b c of
                                                              Some d \<Rightarrow> d | None \<Rightarrow> 0) ds))))
               else None
           | None \<Rightarrow> None)
      | _ \<Rightarrow> None)"

definition js_Number :: "string \<Rightarrow> jsnum" where
  "js_Number s =
     (let t = js_trim s in
      if t = [] then JNum 0
      else case nondecimal_literal t of Some n \<Rightarrow> n | None \<Rightarrow> decimal_literal t)"

subsection \<open>\<open>Math.trunc\<close>, \<open>isNaN\<close>, falsiness\<close>

definition rat_trunc :: "rat \<Rightarrow> int" where
  "rat_trunc q = (if 0 \<le> q then \<lfloor>q\<rfloor> else \<lceil>q\<rceil>)"

fun js_trunc :: "jsnum \<Rightarrow> jsnum" where
  "js_trunc (JNum q) = JNum (of_int (rat_trunc q))"
| "js_trunc x = x"

text \<open>\<open>!x\<close> on an optional number: \<open>undefined\<close>/\<open>null\<close>, \<open>NaN\<close> and \<open>0\<close> are falsy.\<close>

definition js_falsy :: "jsnum option \<Rightarrow> bool" where
  "js_falsy x \<longleftrightarrow> x = None \<or> x = Some JNaN \<or> x = Some (JNum 0)"

definition nat_falsy :: "nat option \<Rightarrow> bool" where
  "nat_falsy x \<longleftrightarrow> x = None \<or> x = Some 0"

subsection \<open>Track indices\<close>

datatype tnum = TInt int | TPosInf | TNegInf

instantiation tnum :: linorder
begin

fun less_eq_tnum :: "tnum \<Rightarrow> tnum \<Rightarrow> bool" where
  "less_eq_tnum TNegInf y = True"
| "less_eq_tnum (TInt a) TNegInf = False"
| "less_eq_tnum TPosInf TNegInf = False"
| "less_eq_tnum (TInt a) (TInt b) = (a \<le> b)"
| "less_eq_tnum (TInt a) TPosInf = True"
| "less_eq_tnum TPosInf (TInt b) = False"
| "less_eq_tnum TPosInf TPosInf = True"

definition less_tnum :: "tnum \<Rightarrow> tnum \<Rightarrow> bool" where
  "less_tnum x y \<longleftrightarrow> x \<le> y \<and> \<not> y \<le> x"

instance
proof
  fix x y z :: tnum
  show "x < y \<longleftrightarrow> x \<le> y \<and> \<not> y \<le> x" by (simp add: less_tnum_def)
  show "x \<le> x" by (cases x) auto
  show "x \<le> y \<Longrightarrow> y \<le> z \<Longrightarrow> x \<le> z" by (cases x; cases y; cases z) auto
  show "x \<le> y \<Longrightarrow> y \<le> x \<Longrightarrow> x = y" by (cases x; cases y) auto
  show "x \<le> y \<or> y \<le> x" by (cases x; cases y) auto
qed

end

text \<open>\<open>t.index += 1\<close>.\<close>

fun tnum_succ :: "tnum \<Rightarrow> tnum" where
  "tnum_succ (TInt a) = TInt (a + 1)"
| "tnum_succ x = x"

text \<open>
  \<open>a - b\<close> on two indices, as a JavaScript number, and the sign ECMAScript's
  SortCompare takes from it (\<open>NaN\<close> counts as \<open>+0\<close>).
\<close>

fun tnum_sub :: "tnum \<Rightarrow> tnum \<Rightarrow> jsnum" where
  "tnum_sub (TInt a) (TInt b) = JNum (of_int (a - b))"
| "tnum_sub TPosInf TPosInf = JNaN"
| "tnum_sub TNegInf TNegInf = JNaN"
| "tnum_sub TPosInf _ = JPosInf"
| "tnum_sub TNegInf _ = JNegInf"
| "tnum_sub _ TPosInf = JNegInf"
| "tnum_sub _ TNegInf = JPosInf"

fun sort_compare_sign :: "jsnum \<Rightarrow> int" where
  "sort_compare_sign JNaN = 0"
| "sort_compare_sign (JNum q) = (if q < 0 then -1 else if 0 < q then 1 else 0)"
| "sort_compare_sign JPosInf = 1"
| "sort_compare_sign JNegInf = -1"

text \<open>
  \<open>String(n)\<close> for a non-negative integer: its decimal digits. The scanner never
  prints numbers; the printer states the round trip of the number parser below.
\<close>

fun nat_digits :: "nat \<Rightarrow> string" where
  "nat_digits n =
     (if n < 10 then [char_of (48 + n)] else nat_digits (n div 10) @ [char_of (48 + n mod 10)])"

declare nat_digits.simps [simp del]

subsection \<open>Decimal digit strings\<close>

lemma digit_not_whitespace: "digit_char c \<Longrightarrow> \<not> js_whitespace c"
  by (auto simp: digit_char_def js_whitespace_def)

lemma digit_not_special [js_simps]:
  "digit_char c \<Longrightarrow> c \<noteq> CHR ''+'' \<and> c \<noteq> CHR ''-'' \<and> c \<noteq> CHR ''/'' \<and> c \<noteq> CHR ''.'' \<and> c \<noteq> CHR ''I''"
  by (auto simp: digit_char_def)

lemma digit_radix_prefix: "digit_char c \<Longrightarrow> radix_prefix c = None"
  by (auto simp: digit_char_def radix_prefix_def)

lemma digits_trim: "list_all digit_char ds \<Longrightarrow> js_trim ds = ds"
proof -
  assume d: "list_all digit_char ds"
  then have "dropWhile js_whitespace ds = ds"
    by (cases ds) (auto simp: digit_not_whitespace)
  moreover from d have "dropWhile js_whitespace (rev ds) = rev ds"
    by (cases "rev ds") (auto simp: digit_not_whitespace list_all_iff dest: arg_cong[of _ _ set])
  ultimately show ?thesis by (simp add: js_trim_def)
qed

lemma digits_value_snoc: "digits_value b (ds @ [d]) = b * digits_value b ds + d"
  by (simp add: digits_value_def)

lemma digits_value_bound:
  "list_all (\<lambda>d. d < b) ds \<Longrightarrow> digits_value b ds < b ^ length ds"
proof (induction ds rule: rev_induct)
  case Nil
  then show ?case by (simp add: digits_value_def)
next
  case (snoc d ds)
  then have v: "digits_value b ds + 1 \<le> b ^ length ds" and d: "d < b" by auto
  have "b * (digits_value b ds + 1) \<le> b * b ^ length ds"
    using v by (rule mult_le_mono2)
  then have "b * digits_value b ds + b \<le> b * b ^ length ds"
    by (simp add: distrib_left)
  with d have "b * digits_value b ds + d < b * b ^ length ds"
    by linarith
  then show ?case by (simp add: digits_value_snoc)
qed

lemma dec_digits_value_bound:
  "list_all digit_char ds \<Longrightarrow> dec_digits_value ds < 10 ^ length ds"
  unfolding dec_digits_value_def
  by (rule digits_value_bound [of 10 "map digit_val ds", simplified])
     (auto simp: list_all_iff digit_char_def digit_val_def)

lemma digit_char_of:
  "d < 10 \<Longrightarrow> digit_char (char_of (48 + d)) \<and> digit_val (char_of (48 + d)) = d"
  by (simp add: digit_char_def digit_val_def of_char_of)

lemma dec_digits_value_snoc:
  "dec_digits_value (s @ [c]) = 10 * dec_digits_value s + digit_val c"
  by (simp add: dec_digits_value_def digits_value_snoc)

lemma nat_digits_ok:
  "nat_digits n \<noteq> [] \<and> list_all digit_char (nat_digits n) \<and> dec_digits_value (nat_digits n) = n"
proof (induction n rule: nat_digits.induct)
  case (1 n)
  define c where "c = char_of (48 + n mod 10)"
  have c: "digit_char c" "digit_val c = n mod 10"
    using digit_char_of [of "n mod 10"] by (simp_all add: c_def)
  show ?case
  proof (cases "n < 10")
    case True
    then have "nat_digits n = [c]" by (simp add: nat_digits.simps [of n] c_def)
    with c True show ?thesis by (simp add: dec_digits_value_def digits_value_def)
  next
    case False
    then have eq: "nat_digits n = nat_digits (n div 10) @ [c]"
      by (simp add: nat_digits.simps [of n] c_def)
    from "1.IH" [OF False] have ih: "list_all digit_char (nat_digits (n div 10))"
      "dec_digits_value (nat_digits (n div 10)) = n div 10" by simp_all
    have n: "10 * (n div 10) + n mod 10 = n" by (rule mult_div_mod_eq)
    show ?thesis
      unfolding eq dec_digits_value_snoc ih(2) c(2) n
      using ih(1) c(1) by simp
  qed
qed

text \<open>\<open>Number(s)\<close> on a non-empty string of decimal digits is the integer they denote.\<close>

lemma js_Number_digits:
  assumes "ds \<noteq> []" "list_all digit_char ds"
  shows "js_Number ds = JNum (of_nat (dec_digits_value ds))"
proof -
  obtain c cs where ds: "ds = c # cs" using assms(1) by (cases ds) auto
  have c: "digit_char c" using assms(2) ds by auto
  have nd: "nondecimal_literal ds = None"
    using assms(2) by (auto simp: nondecimal_literal_def digit_radix_prefix split: list.splits)
  have inf: "ds \<noteq> ''Infinity''" using c ds digit_not_special by auto
  have tw: "takeWhile digit_char ds = ds" "dropWhile digit_char ds = []"
    using assms(2) by (simp_all add: list_all_iff)
  have ud: "unsigned_decimal ds = JNum (of_nat (dec_digits_value ds))"
    using inf assms(1) by (simp add: unsigned_decimal_def exponent_part_def dec_value_def tw)
  have dl: "decimal_literal ds = unsigned_decimal ds"
    using ds digit_not_special [OF c] by (simp add: decimal_literal_def)
  show ?thesis
    using assms(1) by (simp add: js_Number_def digits_trim [OF assms(2)] nd dl ud)
qed

lemma js_Number_nat_digits: "js_Number (nat_digits n) = JNum (of_nat n)"
  using js_Number_digits [of "nat_digits n"] nat_digits_ok [of n] by simp

text \<open>
  The comparator \<open>(a, b) => a.index - b.index\<close> of lines 207 and 228, read through
  SortCompare, is the three-way comparison of the linear order on indices; in particular
  it is a consistent comparator, and the sorts it drives are the stable sort by index.
\<close>

theorem tnum_compare_consistent:
  "sort_compare_sign (tnum_sub a b) = (if a < b then -1 else if a = b then 0 else 1)"
  by (cases a; cases b) (auto simp: less_tnum_def)

end
