(* ===== verification/JsText.thy ===== *)
theory JsText
  imports JsNumber
begin

text \<open>
  The string operations of \<open>getTrackNumberFromFilename\<close> and
  \<open>getCdNumberFromFilename\<close>: \<open>String.prototype.replace\<close> with a string pattern (first
  occurrence only), the four regular expressions the scanner matches, as leftmost
  backtracking matchers, and Node's \<open>path.basename(f, path.extname(f))\<close>.

  Strings are byte lists (UTF-8). The regular expressions only test ASCII: \<open>\d\<close> is
  \<open>[0-9]\<close>, \<open>\b\<close> is a change between a word character \<open>[A-Za-z0-9_]\<close> and a
  non-word one (or an end), and the \<open>i\<close> flag folds ASCII letters only (ECMAScript's
  Canonicalize never maps a non-ASCII unit onto an ASCII one). A non-ASCII character is a
  non-word character both as UTF-16 units and as UTF-8 bytes, so matching on bytes finds
  the same matches.
\<close>

subsection \<open>\<open>String.prototype.replace(pattern, replacement)\<close> with a string pattern\<close>

fun replace_first :: "string \<Rightarrow> string \<Rightarrow> string \<Rightarrow> string" where
  "replace_first pat rep [] = (if pat = [] then rep else [])"
| "replace_first pat rep (c # cs) =
     (if starts_with pat (c # cs) then rep @ drop (length pat) (c # cs)
      else c # replace_first pat rep cs)"

subsection \<open>Character classes and the word boundary\<close>

definition word_char :: "char \<Rightarrow> bool" where
  "word_char c \<longleftrightarrow>
     (let n = (of_char c :: nat) in
      (48 \<le> n \<and> n \<le> 57) \<or> (65 \<le> n \<and> n \<le> 90) \<or> (97 \<le> n \<and> n \<le> 122) \<or> n = 95)"

definition is_word :: "char option \<Rightarrow> bool" where
  "is_word c = (case c of None \<Rightarrow> False | Some d \<Rightarrow> word_char d)"

definition head_opt :: "string \<Rightarrow> char option" where
  "head_opt s = (case s of [] \<Rightarrow> None | c # _ \<Rightarrow> Some c)"

text \<open>\<open>\b\<close> between the character before the position and the rest of the input.\<close>

definition at_boundary :: "char option \<Rightarrow> string \<Rightarrow> bool" where
  "at_boundary prev s \<longleftrightarrow> is_word prev \<noteq> is_word (head_opt s)"

definition ascii_lower :: "char \<Rightarrow> char" where
  "ascii_lower c =
     (let n = (of_char c :: nat) in if 65 \<le> n \<and> n \<le> 90 then char_of (n + 32) else c)"

definition starts_with_ci :: "string \<Rightarrow> string \<Rightarrow> bool" where
  "starts_with_ci p s \<longleftrightarrow> starts_with (map ascii_lower p) (map ascii_lower s)"

subsection \<open>Leftmost matching\<close>

text \<open>
  A matcher reads the character before the position and the rest of the input and
  returns its captures and the input after the match. The search tries each position
  from the left, the end of the input included, as a regular expression without the
  \<open>g\<close> flag does; it returns the text before the match, the captures, and the text
  after it.
\<close>

fun regex_search ::
  "(char option \<Rightarrow> string \<Rightarrow> ('r \<times> string) option) \<Rightarrow> char option \<Rightarrow> string \<Rightarrow>
   (string \<times> 'r \<times> string) option" where
  "regex_search m prev [] = map_option (\<lambda>(r, rest). ([], r, rest)) (m prev [])"
| "regex_search m prev (c # cs) =
     (case m prev (c # cs) of
        Some (r, rest) \<Rightarrow> Some ([], r, rest)
      | None \<Rightarrow> map_option (\<lambda>(pre, r, rest). (c # pre, r, rest)) (regex_search m (Some c) cs))"

text \<open>\<open>s.replace(re, '')\<close>: the first match removed.\<close>

definition regex_remove :: "(char option \<Rightarrow> string \<Rightarrow> ('r \<times> string) option) \<Rightarrow> string \<Rightarrow> string" where
  "regex_remove m s = (case regex_search m None s of None \<Rightarrow> s | Some (pre, _, rest) \<Rightarrow> pre @ rest)"

subsection \<open>The scanner's patterns\<close>

text \<open>\<open>\d\d?\b\<close>: two digits if a boundary follows them, else one digit and a boundary.\<close>

definition digits12_b :: "string \<Rightarrow> (string \<times> string) option" where
  "digits12_b s =
     (case s of
        [] \<Rightarrow> None
      | d1 # r1 \<Rightarrow>
          if \<not> digit_char d1 then None
          else
            (case (case r1 of
                     [] \<Rightarrow> None
                   | d2 # r2 \<Rightarrow>
                       if digit_char d2 \<and> at_boundary (Some d2) r2 then Some ([d1, d2], r2) else None) of
               Some m \<Rightarrow> Some m
             | None \<Rightarrow> if at_boundary (Some d1) r1 then Some ([d1], r1) else None))"

text \<open>\<open> ?(\d\d?)\b\<close>: the greedy optional space first, then without it.\<close>

definition opt_space_digits12_b :: "string \<Rightarrow> (string \<times> string) option" where
  "opt_space_digits12_b t =
     (case (case t of
              [] \<Rightarrow> None
            | c # u \<Rightarrow> if c = CHR '' '' then digits12_b u else None) of
        Some m \<Rightarrow> Some m
      | None \<Rightarrow> digits12_b t)"

text \<open>\<open>/\bdisc \d\d?\b/i\<close> (source line 92).\<close>

definition disc_marker :: "char option \<Rightarrow> string \<Rightarrow> (string \<times> string) option" where
  "disc_marker prev s =
     (if at_boundary prev s \<and> starts_with_ci ''disc '' s then digits12_b (drop 5 s) else None)"

text \<open>\<open>/\bcd ?\d\d?\b/i\<close> (source line 95).\<close>

definition cd_marker :: "char option \<Rightarrow> string \<Rightarrow> (string \<times> string) option" where
  "cd_marker prev s =
     (if at_boundary prev s \<and> starts_with_ci ''cd'' s then opt_space_digits12_b (drop 2 s) else None)"

text \<open>\<open>/\b(disc|cd) ?(\d\d?)\b/i\<close> (source line 115): the alternatives in order.\<close>

definition disc_or_cd :: "char option \<Rightarrow> string \<Rightarrow> (string \<times> string) option" where
  "disc_or_cd prev s =
     (if \<not> at_boundary prev s then None
      else
        (case (if starts_with_ci ''disc'' s then opt_space_digits12_b (drop 4 s) else None) of
           Some m \<Rightarrow> Some m
         | None \<Rightarrow> if starts_with_ci ''cd'' s then opt_space_digits12_b (drop 2 s) else None))"

text \<open>\<open>/\d{1,4}/\<close> (source line 97): greedy, at most four digits.\<close>

definition digit_run4 :: "char option \<Rightarrow> string \<Rightarrow> (string \<times> string) option" where
  "digit_run4 prev s =
     (case s of
        [] \<Rightarrow> None
      | c # _ \<Rightarrow>
          if digit_char c then
            (let ds = take 4 (takeWhile digit_char s) in Some (ds, drop (length ds) s))
          else None)"

subsection \<open>Node's \<open>path.basename\<close> and \<open>path.extname\<close>\<close>

text \<open>\<open>path.basename(p)\<close>: trailing slashes dropped, then the part after the last slash.\<close>

definition path_basename :: "string \<Rightarrow> string" where
  "path_basename p =
     (let t = rev (dropWhile (\<lambda>c. c = CHR ''/'') (rev p))
      in rev (takeWhile (\<lambda>c. c \<noteq> CHR ''/'') (rev t)))"

text \<open>
  \<open>path.extname\<close> on a base name: from the last dot to the end, except when there is
  no dot, when the last dot is the first character (\<open>.bashrc\<close>), or for \<open>..\<close>.
\<close>

definition ext_name :: "string \<Rightarrow> string" where
  "ext_name b =
     (let after = takeWhile (\<lambda>c. c \<noteq> CHR ''.'') (rev b);
          k = length b - length after - 1
      in if length after = length b \<or> k = 0 \<or> b = ''..'' then [] else drop k b)"

text \<open>
  \<open>path.basename(f, path.extname(f))\<close>. The extension is a proper suffix of the base
  name whenever it is not empty, and then Node strips it.
\<close>

definition path_stem :: "string \<Rightarrow> string" where
  "path_stem f =
     (let b = path_basename f; e = ext_name b in take (length b - length e) b)"

subsection \<open>What the patterns match\<close>

text \<open>\<open>/\d{1,4}/\<close> finds the first digit and takes up to four digits from it.\<close>

lemma regex_search_digit_run4:
  "regex_search digit_run4 prev s =
     (let r = dropWhile (\<lambda>c. \<not> digit_char c) s; ds = take 4 (takeWhile digit_char r) in
      if r = [] then None else Some (takeWhile (\<lambda>c. \<not> digit_char c) s, ds, drop (length ds) r))"
proof (induction s arbitrary: prev)
  case Nil
  then show ?case by (simp add: digit_run4_def)
next
  case (Cons c cs)
  show ?case
  proof (cases "digit_char c")
    case True
    then show ?thesis by (simp add: digit_run4_def Let_def)
  next
    case False
    then have "digit_run4 prev (c # cs) = None" by (simp add: digit_run4_def)
    with False Cons.IH [of "Some c"] show ?thesis by (simp add: Let_def)
  qed
qed

lemma regex_search_SomeD:
  "regex_search m prev s = Some (pre, r, rest) \<Longrightarrow> \<exists>p t. m p t = Some (r, rest)"
  by (induction m prev s arbitrary: pre rule: regex_search.induct) (auto split: option.splits)

lemma digits12_b_SomeD:
  "digits12_b s = Some (ds, r) \<Longrightarrow> ds \<noteq> [] \<and> length ds \<le> 2 \<and> list_all digit_char ds"
  by (auto simp: digits12_b_def split: list.splits if_splits option.splits)

lemma opt_space_digits12_b_SomeD:
  "opt_space_digits12_b s = Some (ds, r) \<Longrightarrow> ds \<noteq> [] \<and> length ds \<le> 2 \<and> list_all digit_char ds"
  by (auto simp: opt_space_digits12_b_def dest: digits12_b_SomeD split: list.splits if_splits option.splits)

lemma disc_or_cd_SomeD:
  "disc_or_cd p s = Some (ds, r) \<Longrightarrow> ds \<noteq> [] \<and> length ds \<le> 2 \<and> list_all digit_char ds"
  by (auto simp: disc_or_cd_def dest: opt_space_digits12_b_SomeD split: if_splits option.splits)

end
