(* ===== verification/Normalizer.thy ===== *)
theory Normalizer
  imports JsText
begin

text \<open>
  The probe result normalizer: \<open>getDefaultAudioStream\<close> and \<open>scan\<close> of
  \<open>src/server/utils/audioFileScanner.js\<close> (lines 5--70). The prober is external: its
  result, or \<open>None\<close> when it returns nothing, is the input of \<open>scan\<close>. Fields the code
  only copies keep the shape the prober gives them: codec names are strings, a chapter is
  its id, start, end and title, the raw tag blob is a list of tag name and value;
  numeric fields whose falsiness the code tests are JavaScript numbers. The fields of the
  probe result whose names are not fixed are an association list in the object's key
  order; their values are tag strings, falsy when empty.
\<close>

record chapter_info =
  ch_id :: int
  ch_start :: jsnum
  ch_end :: jsnum
  ch_title :: string

type_synonym raw_tags = "(string \<times> string) list"

record audio_stream =
  as_is_default :: bool
  as_bit_rate :: "jsnum option"
  as_codec :: "string option"
  as_time_base :: "string option"
  as_language :: "string option"
  as_channel_layout :: "string option"
  as_channels :: "jsnum option"
  as_sample_rate :: "jsnum option"

record video_stream =
  vs_codec :: "string option"

record probe_data =
  pd_format :: "string option"
  pd_duration :: "jsnum option"
  pd_size :: "jsnum option"
  pd_bit_rate :: "jsnum option"
  pd_audio_streams :: "audio_stream list option"
  pd_video_stream :: "video_stream option"
  pd_chapters :: "chapter_info list option"
  pd_fields :: "(string \<times> string) list"
  pd_rawTags :: "raw_tags option"

text \<open>The canonical record \<open>finalData\<close> that \<open>scan\<close> returns.\<close>

record audio_meta =
  format :: "string option"
  duration :: "jsnum option"
  fsize :: "jsnum option"
  bit_rate :: "jsnum option"
  codec :: "string option"
  time_base :: "string option"
  language :: "string option"
  channel_layout :: "string option"
  channels :: "jsnum option"
  sample_rate :: "jsnum option"
  chapters :: "chapter_info list"
  embedded_cover_art :: "string option"
  file_tags :: "(string \<times> string) list"
  trackNumber :: "jsnum option"
  trackTotal :: "jsnum option"
  rawTags :: "raw_tags option"

datatype scan_error = InvalidAudioFile | InvalidDurationOrSize

definition ImageCodecs :: "string list" where
  "ImageCodecs = [''mjpeg'', ''jpeg'', ''png'']"

fun getDefaultAudioStream :: "audio_stream list \<Rightarrow> audio_stream" where
  "getDefaultAudioStream [s] = s"
| "getDefaultAudioStream ss =
     (case find as_is_default ss of None \<Rightarrow> hd ss | Some d \<Rightarrow> d)"

text \<open>\<open>audioStream.bit_rate || probeData.bit_rate\<close>.\<close>

definition js_or_num :: "jsnum option \<Rightarrow> jsnum option \<Rightarrow> jsnum option" where
  "js_or_num a b = (if js_falsy a then b else a)"

definition has_cover_art :: "video_stream option \<Rightarrow> bool" where
  "has_cover_art v =
     (case v of None \<Rightarrow> False
      | Some vs \<Rightarrow> (case vs_codec vs of None \<Rightarrow> False | Some c \<Rightarrow> c \<in> set ImageCodecs))"

text \<open>The \<open>for (const key in probeData)\<close> loop: truthy fields named \<open>file_tag...\<close>.\<close>

definition copy_file_tags :: "(string \<times> string) list \<Rightarrow> (string \<times> string) list" where
  "copy_file_tags fs = filter (\<lambda>(k, v). v \<noteq> [] \<and> starts_with ''file_tag'' k) fs"

text \<open>\<open>track.split('/')\<close>.\<close>

fun split_slash :: "string \<Rightarrow> string list" where
  "split_slash [] = [[]]"
| "split_slash (c # cs) =
     (if c = CHR ''/'' then [] # split_slash cs
      else (case split_slash cs of p # ps \<Rightarrow> (c # p) # ps | [] \<Rightarrow> [[c]]))"

text \<open>Lines 54--63: \<open>trackNumber\<close> and \<open>trackTotal\<close> from the track tag.\<close>

definition parse_track_tag :: "string option \<Rightarrow> jsnum option \<times> jsnum option" where
  "parse_track_tag t =
     (case t of
        None \<Rightarrow> (None, None)
      | Some track \<Rightarrow>
          (let parts = map js_Number (split_slash track) in
           (if 0 < length parts then Some (parts ! 0) else None,
            if 1 < length parts then Some (parts ! 1) else None)))"

definition scan :: "probe_data option \<Rightarrow> bool \<Rightarrow> scan_error + audio_meta" where
  "scan probe verbose =
     (case probe of
        None \<Rightarrow> Inl InvalidAudioFile
      | Some pd \<Rightarrow>
          (case pd_audio_streams pd of
             None \<Rightarrow> Inl InvalidAudioFile
           | Some [] \<Rightarrow> Inl InvalidAudioFile
           | Some streams \<Rightarrow>
               if js_falsy (pd_duration pd) \<or> js_falsy (pd_size pd) then Inl InvalidDurationOrSize
               else
                 let s = getDefaultAudioStream streams;
                     tags = copy_file_tags (pd_fields pd);
                     (tn, tt) = parse_track_tag (map_of tags ''file_tag_track'')
                 in Inr \<lparr>format = pd_format pd,
                         duration = pd_duration pd,
                         fsize = pd_size pd,
                         bit_rate = js_or_num (as_bit_rate s) (pd_bit_rate pd),
                         codec = as_codec s,
                         time_base = as_time_base s,
                         language = as_language s,
                         channel_layout = as_channel_layout s,
                         channels = as_channels s,
                         sample_rate = as_sample_rate s,
                         chapters = (case pd_chapters pd of None \<Rightarrow> [] | Some cs \<Rightarrow> cs),
                         embedded_cover_art =
                           (if has_cover_art (pd_video_stream pd)
                            then (case pd_video_stream pd of None \<Rightarrow> None | Some vs \<Rightarrow> vs_codec vs)
                            else None),
                         file_tags = tags,
                         trackNumber = tn,
                         trackTotal = tt,
                         rawTags = (if verbose then pd_rawTags pd else None)\<rparr>))"

text \<open>Example inputs.\<close>

definition example_stream :: "bool \<Rightarrow> string \<Rightarrow> audio_stream" where
  "example_stream dflt c =
     \<lparr>as_is_default = dflt, as_bit_rate = Some (JNum 64000), as_codec = Some c,
      as_time_base = None, as_language = None, as_channel_layout = None,
      as_channels = Some (JNum 2), as_sample_rate = Some (JNum 44100)\<rparr>"

definition example_probe :: probe_data where
  "example_probe =
     \<lparr>pd_format = Some ''mp3'', pd_duration = Some (JNum 3600), pd_size = Some (JNum 1000000),
      pd_bit_rate = Some (JNum 128000),
      pd_audio_streams = Some [example_stream False ''mp3'', example_stream True ''aac''],
      pd_video_stream = Some \<lparr>vs_codec = Some ''png''\<rparr>, pd_chapters = None,
      pd_fields = [(''file_tag_track'', ''5/12''), (''file_tag_title'', ''Intro''), (''file_tag_genre'', [])],
      pd_rawTags = None\<rparr>"

subsection \<open>Helper facts\<close>

lemma split_slash_no_slash: "CHR ''/'' \<notin> set a \<Longrightarrow> split_slash a = [a]"
  by (induction a) auto

lemma split_slash_append:
  "CHR ''/'' \<notin> set a \<Longrightarrow> split_slash (a @ CHR ''/'' # b) = a # split_slash b"
  by (induction a) auto

lemma map_of_copy_file_tags:
  assumes "distinct (map fst fs)" "(k, v) \<in> set fs"
  shows "map_of (copy_file_tags fs) k = (if v \<noteq> [] \<and> starts_with ''file_tag'' k then Some v else None)"
proof -
  have d: "distinct (map fst (copy_file_tags fs))"
    using assms(1) by (simp add: copy_file_tags_def distinct_map_filter)
  show ?thesis
  proof (cases "v \<noteq> [] \<and> starts_with ''file_tag'' k")
    case True
    with assms(2) have "(k, v) \<in> set (copy_file_tags fs)" by (simp add: copy_file_tags_def)
    with d True show ?thesis by simp
  next
    case False
    have "(k, v') \<in> set fs \<Longrightarrow> v' = v" for v'
      using assms by (metis eq_key_imp_eq_value)
    with False have "k \<notin> fst ` set (copy_file_tags fs)"
      by (auto simp: copy_file_tags_def)
    then have "map_of (copy_file_tags fs) k = None" by (simp add: map_of_eq_None_iff)
    with False show ?thesis by (simp only: if_not_P if_False)
  qed
qed

text \<open>A successful scan, unfolded: the probe result, its streams, and the record.\<close>

lemma scan_InrE:
  assumes "scan p verbose = Inr m"
  obtains pd ss where "p = Some pd" "pd_audio_streams pd = Some ss" "ss \<noteq> []"
    "\<not> js_falsy (pd_duration pd)" "\<not> js_falsy (pd_size pd)"
    "file_tags m = copy_file_tags (pd_fields pd)"
    "(trackNumber m, trackTotal m) = parse_track_tag (map_of (copy_file_tags (pd_fields pd)) ''file_tag_track'')"
    "rawTags m = (if verbose then pd_rawTags pd else None)"
    "embedded_cover_art m = (if has_cover_art (pd_video_stream pd)
                             then (case pd_video_stream pd of None \<Rightarrow> None | Some vs \<Rightarrow> vs_codec vs) else None)"
  using assms
  by (auto simp: scan_def Let_def split: option.splits list.splits if_splits prod.splits)

subsection \<open>The normaliser's contract\<close>

text \<open>
  C24: \<open>scan\<close> fails with \<open>Invalid audio file\<close> exactly when the prober returned nothing,
  or a result without audio streams or with an empty stream list.
\<close>

theorem scan_InvalidAudioFile_iff:
  "scan p verbose = Inl InvalidAudioFile \<longleftrightarrow>
   (case p of None \<Rightarrow> True | Some pd \<Rightarrow> pd_audio_streams pd = None \<or> pd_audio_streams pd = Some [])"
  by (auto simp: scan_def Let_def split: option.splits list.splits prod.splits)

text \<open>
  C25: With audio streams present, \<open>scan\<close> fails with \<open>Invalid duration or size\<close> exactly
  when the duration or the size is falsy (missing, \<open>NaN\<close> or \<open>0\<close>).
\<close>

theorem scan_InvalidDurationOrSize_iff:
  assumes "pd_audio_streams pd = Some ss" "ss \<noteq> []"
  shows "scan (Some pd) verbose = Inl InvalidDurationOrSize \<longleftrightarrow>
         js_falsy (pd_duration pd) \<or> js_falsy (pd_size pd)"
  using assms by (cases ss) (auto simp: scan_def Let_def split: prod.splits)

theorem scan_InvalidDurationOrSize_iff_witness:
  "pd_audio_streams (example_probe\<lparr>pd_duration := Some (JNum 0)\<rparr>) = Some [example_stream False ''mp3'', example_stream True ''aac''] \<and>
   [example_stream False ''mp3'', example_stream True ''aac''] \<noteq> [] \<and>
   (scan (Some (example_probe\<lparr>pd_duration := Some (JNum 0)\<rparr>)) False = Inl InvalidDurationOrSize \<longleftrightarrow>
    js_falsy (pd_duration (example_probe\<lparr>pd_duration := Some (JNum 0)\<rparr>)) \<or>
    js_falsy (pd_size (example_probe\<lparr>pd_duration := Some (JNum 0)\<rparr>)))"
proof -
  have h: "pd_audio_streams (example_probe\<lparr>pd_duration := Some (JNum 0)\<rparr>) =
           Some [example_stream False ''mp3'', example_stream True ''aac'']"
    by (simp add: example_probe_def)
  have n: "[example_stream False ''mp3'', example_stream True ''aac''] \<noteq> []" by simp
  from h n scan_InvalidDurationOrSize_iff [OF h n, of False] show ?thesis by simp
qed

text \<open>
  C26: The stream \<open>getDefaultAudioStream\<close> selects is one of the streams: the only one
  if there is one, else the first stream flagged default, else the first stream.
\<close>

theorem getDefaultAudioStream_cases:
  assumes "ss \<noteq> []"
  shows "getDefaultAudioStream ss \<in> set ss \<and>
         (length ss = 1 \<longrightarrow> getDefaultAudioStream ss = hd ss) \<and>
         (\<not> list_ex as_is_default ss \<longrightarrow> getDefaultAudioStream ss = hd ss) \<and>
         (length ss \<noteq> 1 \<and> list_ex as_is_default ss \<longrightarrow>
            (\<exists>i < length ss. getDefaultAudioStream ss = ss ! i \<and> as_is_default (ss ! i) \<and>
                             (\<forall>j < i. \<not> as_is_default (ss ! j))))"
proof -
  show ?thesis
  proof (cases "length ss = 1")
    case True
    then obtain s where "ss = [s]" by (cases ss) auto
    then show ?thesis by simp
  next
    case False
    with assms obtain a b rest where ss: "ss = a # b # rest"
      by (cases ss; cases "tl ss") auto
    have g: "getDefaultAudioStream ss = (case find as_is_default ss of None \<Rightarrow> hd ss | Some d \<Rightarrow> d)"
      by (simp only: ss getDefaultAudioStream.simps)
    show ?thesis
    proof (cases "find_pos as_is_default ss")
      case None
      then have "find as_is_default ss = None" "\<not> list_ex as_is_default ss"
        using None by (simp_all add: find_by_find_pos del: find_pos_None_iff)
          (use None find_pos_None_iff in blast)
      with g False show ?thesis using assms by simp
    next
      case (Some i)
      from find_pos_SomeD [OF Some] have i: "i < length ss" "as_is_default (ss ! i)"
        "\<forall>j<i. \<not> as_is_default (ss ! j)" by auto
      have "find as_is_default ss = Some (ss ! i)"
        using Some by (simp only: find_by_find_pos option.map)
      moreover have "list_ex as_is_default ss"
        using i by (auto simp: list_ex_iff)
      ultimately show ?thesis using g i False by auto
    qed
  qed
qed

theorem getDefaultAudioStream_cases_witness:
  "[example_stream False ''mp3'', example_stream True ''aac''] \<noteq> [] \<and>
   getDefaultAudioStream [example_stream False ''mp3'', example_stream True ''aac''] =
     example_stream True ''aac'' \<and>
   as_is_default (getDefaultAudioStream [example_stream False ''mp3'', example_stream True ''aac''])"
proof -
  have h: "[example_stream False ''mp3'', example_stream True ''aac''] \<noteq> []" by simp
  from getDefaultAudioStream_cases [OF h] show ?thesis
    by (auto simp: example_stream_def less_Suc_eq)
qed

text \<open>
  C27: Cover art is recorded exactly when the probe result has a video stream whose codec
  is one of \<open>mjpeg\<close>, \<open>jpeg\<close>, \<open>png\<close>, and the recorded value is that codec.
\<close>

theorem scan_cover_art:
  assumes "scan (Some pd) verbose = Inr m"
  shows "embedded_cover_art m = Some c \<longleftrightarrow>
         (\<exists>vs. pd_video_stream pd = Some vs \<and> vs_codec vs = Some c) \<and> c \<in> {''mjpeg'', ''jpeg'', ''png''}"
proof -
  from assms obtain pd' where "Some pd = Some pd'"
    and art: "embedded_cover_art m = (if has_cover_art (pd_video_stream pd')
                 then (case pd_video_stream pd' of None \<Rightarrow> None | Some vs \<Rightarrow> vs_codec vs) else None)"
    by (rule scan_InrE)
  then show ?thesis
    by (auto simp: has_cover_art_def ImageCodecs_def split: option.splits)
qed

theorem scan_cover_art_witness:
  "scan (Some example_probe) False = Inr (projr (scan (Some example_probe) False)) \<and>
   (embedded_cover_art (projr (scan (Some example_probe) False)) = Some ''png'' \<longleftrightarrow>
    (\<exists>vs. pd_video_stream example_probe = Some vs \<and> vs_codec vs = Some ''png'') \<and>
    ''png'' \<in> {''mjpeg'', ''jpeg'', ''png''})"
proof -
  have "\<not> isl (scan (Some example_probe) False)"
    by code_simp
  then have h: "scan (Some example_probe) False = Inr (projr (scan (Some example_probe) False))"
    by (cases "scan (Some example_probe) False") simp_all
  from h scan_cover_art [OF h] show ?thesis by (rule conjI)
qed

text \<open>
  C28: A track tag \<open>N/M\<close> (no further slash) gives \<open>trackNumber = Number(N)\<close> and
  \<open>trackTotal = Number(M)\<close>; the probe result's keys are distinct, as an object's are.
\<close>

theorem scan_track_tag_pair:
  assumes "scan (Some pd) verbose = Inr m" "distinct (map fst (pd_fields pd))"
    "(''file_tag_track'', a @ ''/'' @ b) \<in> set (pd_fields pd)"
    "CHR ''/'' \<notin> set a" "CHR ''/'' \<notin> set b"
  shows "trackNumber m = Some (js_Number a) \<and> trackTotal m = Some (js_Number b)"
proof -
  from assms(1) obtain pd' where "Some pd = Some pd'"
    and tt: "(trackNumber m, trackTotal m) =
               parse_track_tag (map_of (copy_file_tags (pd_fields pd')) ''file_tag_track'')"
    by (rule scan_InrE)
  then have "map_of (copy_file_tags (pd_fields pd')) ''file_tag_track'' = Some (a @ ''/'' @ b)"
    using map_of_copy_file_tags [OF assms(2,3)] by simp
  with tt assms(4,5) show ?thesis
    by (simp add: parse_track_tag_def split_slash_append split_slash_no_slash)
qed

theorem scan_track_tag_pair_witness:
  "scan (Some example_probe) False = Inr (projr (scan (Some example_probe) False)) \<and>
   distinct (map fst (pd_fields example_probe)) \<and>
   (''file_tag_track'', ''5'' @ ''/'' @ ''12'') \<in> set (pd_fields example_probe) \<and>
   CHR ''/'' \<notin> set ''5'' \<and> CHR ''/'' \<notin> set ''12'' \<and>
   trackNumber (projr (scan (Some example_probe) False)) = Some (js_Number ''5'') \<and>
   trackTotal (projr (scan (Some example_probe) False)) = Some (js_Number ''12'')"
proof -
  have "\<not> isl (scan (Some example_probe) False)"
    by code_simp
  then have h: "scan (Some example_probe) False = Inr (projr (scan (Some example_probe) False))"
    by (cases "scan (Some example_probe) False") simp_all
  have d: "distinct (map fst (pd_fields example_probe))"
    and t: "(''file_tag_track'', ''5'' @ ''/'' @ ''12'') \<in> set (pd_fields example_probe)"
    and s: "CHR ''/'' \<notin> set ''5''" "CHR ''/'' \<notin> set ''12''"
    by (simp_all add: example_probe_def)
  from h d t s scan_track_tag_pair [OF h d t s] show ?thesis by simp
qed

text \<open>
  A track tag \<open>N\<close> without a slash gives \<open>trackNumber = Number(N)\<close> and no
  \<open>trackTotal\<close>.
\<close>

theorem scan_track_tag_single:
  assumes "scan (Some pd) verbose = Inr m" "distinct (map fst (pd_fields pd))"
    "(''file_tag_track'', a) \<in> set (pd_fields pd)" "a \<noteq> []" "CHR ''/'' \<notin> set a"
  shows "trackNumber m = Some (js_Number a) \<and> trackTotal m = None"
proof -
  from assms(1) obtain pd' where "Some pd = Some pd'"
    and tt: "(trackNumber m, trackTotal m) =
               parse_track_tag (map_of (copy_file_tags (pd_fields pd')) ''file_tag_track'')"
    by (rule scan_InrE)
  then have "map_of (copy_file_tags (pd_fields pd')) ''file_tag_track'' = Some a"
    using map_of_copy_file_tags [OF assms(2,3)] assms(4) by simp
  with tt assms(5) show ?thesis
    by (simp add: parse_track_tag_def split_slash_no_slash)
qed

theorem scan_track_tag_single_witness:
  "scan (Some (example_probe\<lparr>pd_fields := [(''file_tag_track'', ''7'')]\<rparr>)) False =
     Inr (projr (scan (Some (example_probe\<lparr>pd_fields := [(''file_tag_track'', ''7'')]\<rparr>)) False)) \<and>
   distinct (map fst (pd_fields (example_probe\<lparr>pd_fields := [(''file_tag_track'', ''7'')]\<rparr>))) \<and>
   (''file_tag_track'', ''7'') \<in> set (pd_fields (example_probe\<lparr>pd_fields := [(''file_tag_track'', ''7'')]\<rparr>)) \<and>
   ''7'' \<noteq> [] \<and> CHR ''/'' \<notin> set ''7'' \<and>
   trackNumber (projr (scan (Some (example_probe\<lparr>pd_fields := [(''file_tag_track'', ''7'')]\<rparr>)) False)) =
     Some (js_Number ''7'') \<and>
   trackTotal (projr (scan (Some (example_probe\<lparr>pd_fields := [(''file_tag_track'', ''7'')]\<rparr>)) False)) = None"
proof -
  have "\<not> isl (scan (Some (example_probe\<lparr>pd_fields := [(''file_tag_track'', ''7'')]\<rparr>)) False)"
    by code_simp
  then have h: "scan (Some (example_probe\<lparr>pd_fields := [(''file_tag_track'', ''7'')]\<rparr>)) False =
     Inr (projr (scan (Some (example_probe\<lparr>pd_fields := [(''file_tag_track'', ''7'')]\<rparr>)) False))"
    by (cases "scan (Some (example_probe\<lparr>pd_fields := [(''file_tag_track'', ''7'')]\<rparr>)) False") simp_all
  have d: "distinct (map fst (pd_fields (example_probe\<lparr>pd_fields := [(''file_tag_track'', ''7'')]\<rparr>)))"
    and t: "(''file_tag_track'', ''7'') \<in> set (pd_fields (example_probe\<lparr>pd_fields := [(''file_tag_track'', ''7'')]\<rparr>))"
    and s: "''7'' \<noteq> []" "CHR ''/'' \<notin> set ''7''"
    by simp_all
  from h d t s scan_track_tag_single [OF h d t s] show ?thesis by simp
qed

text \<open>
  C29: Round trip of the track tag: the tag \<open>String(n) + '/' + String(k)\<close> parses back
  to \<open>trackNumber = n\<close> and \<open>trackTotal = k\<close>.
\<close>

theorem parse_track_tag_roundtrip:
  "parse_track_tag (Some (nat_digits n @ ''/'' @ nat_digits k)) =
     (Some (JNum (of_nat n)), Some (JNum (of_nat k)))"
proof -
  have "CHR ''/'' \<notin> set (nat_digits i)" for i
    using nat_digits_ok [of i] digit_not_special by (auto simp: list_all_iff)
  then show ?thesis
    by (simp add: parse_track_tag_def split_slash_append split_slash_no_slash js_Number_nat_digits)
qed

text \<open>Raw tags are kept exactly in verbose scans.\<close>

theorem scan_rawTags:
  assumes "scan (Some pd) verbose = Inr m"
  shows "rawTags m = (if verbose then pd_rawTags pd else None)"
proof -
  from assms obtain pd' where "Some pd = Some pd'" and "rawTags m = (if verbose then pd_rawTags pd' else None)"
    by (rule scan_InrE)
  then show ?thesis by simp
qed

theorem scan_rawTags_witness:
  "scan (Some example_probe) True = Inr (projr (scan (Some example_probe) True)) \<and>
   rawTags (projr (scan (Some example_probe) True)) = (if True then pd_rawTags example_probe else None)"
proof -
  have "\<not> isl (scan (Some example_probe) True)"
    by code_simp
  then have h: "scan (Some example_probe) True = Inr (projr (scan (Some example_probe) True))"
    by (cases "scan (Some example_probe) True") simp_all
  from h scan_rawTags [OF h] show ?thesis by (rule conjI)
qed

end
