(* ===== verification/Resolver.thy ===== *)
theory Resolver
  imports Normalizer
begin

text \<open>
  The track number resolver: \<open>isNumber\<close>, \<open>getTrackNumberFromMeta\<close>,
  \<open>getTrackNumberFromFilename\<close> and \<open>getCdNumberFromFilename\<close> (lines 74--123) and the
  CD-to-track promotion both reconcilers apply (lines 152--156, 254--258). The book
  context's missing fields are empty strings: \<open>if (title)\<close> is false for both.
\<close>

record book_ctx =
  title :: string
  author :: string
  series :: string
  publishYear :: string

text \<open>
  \<open>getTrackNumberFromMeta\<close>: \<open>Math.trunc\<close> of the parsed track tag unless it is
  missing or \<open>NaN\<close>; the result is an integer or an infinity.
\<close>

definition getTrackNumberFromMeta :: "audio_meta \<Rightarrow> tnum option" where
  "getTrackNumberFromMeta sd =
     (case trackNumber sd of
        None \<Rightarrow> None
      | Some x \<Rightarrow>
          (case js_trunc x of
             JNaN \<Rightarrow> None
           | JNum q \<Rightarrow> Some (TInt \<lfloor>q\<rfloor>)
           | JPosInf \<Rightarrow> Some TPosInf
           | JNegInf \<Rightarrow> Some TNegInf))"

text \<open>
  Lines 86--89, shared by both filename functions. The year is removed by
  \<open>replace(publishYear)\<close> with no replacement argument, which JavaScript reads as the
  replacement string \<open>'undefined'\<close>.
\<close>

definition strip_book_info :: "book_ctx \<Rightarrow> string \<Rightarrow> string" where
  "strip_book_info b s0 =
     (let s1 = (if title b \<noteq> [] then replace_first (title b) [] s0 else s0);
          s2 = (if author b \<noteq> [] then replace_first (author b) [] s1 else s1);
          s3 = (if series b \<noteq> [] then replace_first (series b) [] s2 else s2)
      in if publishYear b \<noteq> [] then replace_first (publishYear b) ''undefined'' s3 else s3)"

text \<open>Lines 91--95: the first disc marker, then the first CD marker, removed.\<close>

definition strip_disc_cd :: "string \<Rightarrow> string" where
  "strip_disc_cd s = regex_remove cd_marker (regex_remove disc_marker s)"

definition getTrackNumberFromFilename :: "book_ctx \<Rightarrow> string \<Rightarrow> nat option" where
  "getTrackNumberFromFilename b filename =
     (let partbasename = strip_disc_cd (strip_book_info b (path_stem filename)) in
      case regex_search digit_run4 None partbasename of
        None \<Rightarrow> None
      | Some (_, ds, _) \<Rightarrow> Some (dec_digits_value ds))"

definition getCdNumberFromFilename :: "book_ctx \<Rightarrow> string \<Rightarrow> nat option" where
  "getCdNumberFromFilename b filename =
     (let partbasename = strip_book_info b (path_stem filename) in
      case regex_search disc_or_cd None partbasename of
        None \<Rightarrow> None
      | Some (_, ds, _) \<Rightarrow> Some (dec_digits_value ds))"

text \<open>
  \<open>if (!trackNumFromFilename && cdNumFromFilename)\<close>: a missing or zero track number
  is replaced by a present, non-zero CD number, which is then cleared.
\<close>

definition promote_cd :: "nat option \<Rightarrow> nat option \<Rightarrow> nat option \<times> nat option" where
  "promote_cd tf cd = (if nat_falsy tf \<and> \<not> nat_falsy cd then (cd, None) else (tf, cd))"

text \<open>The resolver's output for one file, as both reconcilers compute it.\<close>

definition resolve_numbers :: "book_ctx \<Rightarrow> string \<Rightarrow> audio_meta \<Rightarrow> tnum option \<times> nat option \<times> nat option" where
  "resolve_numbers b filename sd =
     (let tm = getTrackNumberFromMeta sd;
          (tf, cd) = promote_cd (getTrackNumberFromFilename b filename)
                                (getCdNumberFromFilename b filename)
      in (tm, tf, cd))"

text \<open>
  \<open>isNumber(val)\<close> (lines 74--76): \<open>!isNaN(val) && val !== null\<close>. The scanner applies
  it to the numbers the resolver returns, which are \<open>null\<close> or numbers other than
  \<open>NaN\<close> (\<open>getTrackNumberFromMeta\<close> maps \<open>NaN\<close> to \<open>null\<close>, the filename readers
  return \<open>null\<close> or a parsed integer), so on them it tests for a value.
\<close>

definition isNumber :: "'a option \<Rightarrow> bool" where
  "isNumber v \<longleftrightarrow> v \<noteq> None"

text \<open>
  The reconcilers' precedence: \<open>isNumber(trackNumFromMeta) ? trackNumFromMeta :
  trackNumFromFilename\<close> (line 173).
\<close>

definition candidate_index :: "tnum option \<Rightarrow> nat option \<Rightarrow> tnum option" where
  "candidate_index tm tf = (if isNumber tm then tm else map_option (\<lambda>n. TInt (int n)) tf)"

text \<open>
  The specification's reading of line 97: the first run of digits, cut to its first four
  digits; nothing when the string has no digit.
\<close>

definition first_digit_run :: "string \<Rightarrow> string option" where
  "first_digit_run s =
     (let r = dropWhile (\<lambda>c. \<not> digit_char c) s in
      if r = [] then None else Some (take 4 (takeWhile digit_char r)))"

text \<open>Example inputs.\<close>

definition example_meta :: audio_meta where
  "example_meta =
     \<lparr>format = None, duration = Some (JNum 60), fsize = Some (JNum 1000), bit_rate = None,
      codec = None, time_base = None, language = None, channel_layout = None, channels = None,
      sample_rate = None, chapters = [], embedded_cover_art = None, file_tags = [],
      trackNumber = None, trackTotal = None, rawTags = None\<rparr>"

definition example_book :: book_ctx where
  "example_book = \<lparr>title = ''Book Title'', author = [], series = [], publishYear = []\<rparr>"

subsection \<open>The filename heuristics\<close>

text \<open>
  C30: \<open>getTrackNumberFromFilename\<close> returns the value of the first run of digits of the
  cleaned base name, cut to four digits: the global match of \<open>/\d{1,4}/g\<close> followed by
  \<open>parseInt\<close> of its first element is the direct scan of the specification.
\<close>

theorem getTrackNumberFromFilename_first_run:
  "getTrackNumberFromFilename b f =
     map_option dec_digits_value (first_digit_run (strip_disc_cd (strip_book_info b (path_stem f))))"
  by (simp add: getTrackNumberFromFilename_def regex_search_digit_run4 first_digit_run_def Let_def)

text \<open>C31: A track number read from a file name is below 10000 (at most four digits).\<close>

theorem getTrackNumberFromFilename_bound:
  assumes "getTrackNumberFromFilename b f = Some n"
  shows "n < 10000"
proof -
  from assms obtain pre ds rest s where m: "regex_search digit_run4 None s = Some (pre, ds, rest)"
    and n: "n = dec_digits_value ds"
    unfolding getTrackNumberFromFilename_def Let_def by (auto split: option.splits)
  from m obtain r where "ds = take 4 (takeWhile digit_char r)"
    unfolding regex_search_digit_run4 Let_def by (auto split: if_splits)
  with n have "n = dec_digits_value (take 4 (takeWhile digit_char r))" by simp
  moreover have "list_all digit_char (take 4 (takeWhile digit_char r))"
    by (auto simp: list_all_iff dest: in_set_takeD set_takeWhileD)
  ultimately have "n < 10 ^ length (take 4 (takeWhile digit_char r))"
    using dec_digits_value_bound by blast
  also have "\<dots> \<le> 10 ^ 4" by (intro power_increasing) auto
  finally show ?thesis by simp
qed

theorem getTrackNumberFromFilename_bound_witness:
  "getTrackNumberFromFilename example_book ''Book Title - 123456.mp3'' = Some 1234 \<and> (1234::nat) < 10000"
proof -
  have h: "getTrackNumberFromFilename example_book ''Book Title - 123456.mp3'' = Some 1234"
    by code_simp
  from h getTrackNumberFromFilename_bound [OF h] show ?thesis by (rule conjI)
qed

text \<open>A CD number read from a file name is below 100 (one or two digits).\<close>

theorem getCdNumberFromFilename_bound:
  assumes "getCdNumberFromFilename b f = Some n"
  shows "n < 100"
proof -
  from assms obtain pre ds rest s where m: "regex_search disc_or_cd None s = Some (pre, ds, rest)"
    and n: "n = dec_digits_value ds"
    unfolding getCdNumberFromFilename_def Let_def by (auto split: option.splits)
  from regex_search_SomeD [OF m] obtain p t where "disc_or_cd p t = Some (ds, rest)"
    by blast
  from disc_or_cd_SomeD [OF this] have "list_all digit_char ds" "length ds \<le> 2"
    by simp_all
  with n have "n < 10 ^ length ds" using dec_digits_value_bound by blast
  also have "\<dots> \<le> 10 ^ 2" using \<open>length ds \<le> 2\<close> by (intro power_increasing) auto
  finally show ?thesis by simp
qed

theorem getCdNumberFromFilename_bound_witness:
  "getCdNumberFromFilename example_book ''CD12.mp3'' = Some 12 \<and> (12::nat) < 100"
proof -
  have h: "getCdNumberFromFilename example_book ''CD12.mp3'' = Some 12"
    by code_simp
  from h getCdNumberFromFilename_bound [OF h] show ?thesis by (rule conjI)
qed

subsection \<open>The resolver's output\<close>

text \<open>
  C32: The promotion of lines 152--156, in every case. The metadata number is
  \<open>getTrackNumberFromMeta\<close>'s. A non-zero track number from the file name is kept
  beside the CD number. A missing or zero one (falsy) is replaced by a non-zero CD number,
  which is then cleared. When the CD number is missing or zero too, both are returned
  as read, so a CD number 0 is never promoted.
\<close>

theorem resolve_numbers_promotion:
  "fst (resolve_numbers b f sd) = getTrackNumberFromMeta sd \<and>
   (getTrackNumberFromFilename b f = Some t \<and> 0 < t \<longrightarrow>
      snd (resolve_numbers b f sd) = (Some t, getCdNumberFromFilename b f)) \<and>
   ((getTrackNumberFromFilename b f = None \<or> getTrackNumberFromFilename b f = Some 0) \<and>
    getCdNumberFromFilename b f = Some c \<and> 0 < c \<longrightarrow>
      snd (resolve_numbers b f sd) = (Some c, None)) \<and>
   ((getTrackNumberFromFilename b f = None \<or> getTrackNumberFromFilename b f = Some 0) \<and>
    (getCdNumberFromFilename b f = None \<or> getCdNumberFromFilename b f = Some 0) \<longrightarrow>
      snd (resolve_numbers b f sd) = (getTrackNumberFromFilename b f, getCdNumberFromFilename b f))"
  by (auto simp: resolve_numbers_def promote_cd_def nat_falsy_def Let_def)

theorem resolve_numbers_promotion_witness:
  "getTrackNumberFromFilename example_book ''Book Title - 05 - cd 4.mp3'' = Some 5 \<and>
   snd (resolve_numbers example_book ''Book Title - 05 - cd 4.mp3'' example_meta) = (Some 5, Some 4) \<and>
   getTrackNumberFromFilename example_book ''0 - cd 4.mp3'' = Some 0 \<and>
   getCdNumberFromFilename example_book ''0 - cd 4.mp3'' = Some 4 \<and>
   snd (resolve_numbers example_book ''0 - cd 4.mp3'' example_meta) = (Some 4, None) \<and>
   getTrackNumberFromFilename example_book ''cd 0.mp3'' = None \<and>
   getCdNumberFromFilename example_book ''cd 0.mp3'' = Some 0 \<and>
   snd (resolve_numbers example_book ''cd 0.mp3'' example_meta) = (None, Some 0)"
proof -
  have t1: "getTrackNumberFromFilename example_book ''Book Title - 05 - cd 4.mp3'' = Some 5" by code_simp
  have c1: "getCdNumberFromFilename example_book ''Book Title - 05 - cd 4.mp3'' = Some 4" by code_simp
  have t2: "getTrackNumberFromFilename example_book ''0 - cd 4.mp3'' = Some 0" by code_simp
  have c2: "getCdNumberFromFilename example_book ''0 - cd 4.mp3'' = Some 4" by code_simp
  have t3: "getTrackNumberFromFilename example_book ''cd 0.mp3'' = None" by code_simp
  have c3: "getCdNumberFromFilename example_book ''cd 0.mp3'' = Some 0" by code_simp
  from resolve_numbers_promotion [of example_book "''Book Title - 05 - cd 4.mp3''" example_meta 5] t1 c1
  have r1: "snd (resolve_numbers example_book ''Book Title - 05 - cd 4.mp3'' example_meta) = (Some 5, Some 4)"
    by simp
  from resolve_numbers_promotion [of example_book "''0 - cd 4.mp3''" example_meta _ 4] t2 c2
  have r2: "snd (resolve_numbers example_book ''0 - cd 4.mp3'' example_meta) = (Some 4, None)"
    by simp
  from resolve_numbers_promotion [of example_book "''cd 0.mp3''" example_meta] t3 c3
  have r3: "snd (resolve_numbers example_book ''cd 0.mp3'' example_meta) = (None, Some 0)"
    by simp
  from t1 t2 c2 t3 c3 r1 r2 r3 show ?thesis by simp
qed

text \<open>
  The specification's example: for \<open>Book Title - disc 2 - 03.mp3\<close> in the book
  \<open>Book Title\<close> the resolver returns track 3 and, unlike the example's
  \<open>cdNumFromFilename\<close> absent, CD number 2: the CD pattern of line 115 matches
  \<open>disc 2\<close> in the uncleaned name.
\<close>

theorem resolve_numbers_spec_example:
  "resolve_numbers example_book ''Book Title - disc 2 - 03.mp3'' example_meta = (None, Some 3, Some 2)"
  by code_simp

text \<open>
  \<open>replace(publishYear)\<close> without a replacement inserts the text \<open>undefined\<close>, which
  glues a word character to a following \<open>cd\<close>: the CD number of \<open>2001cd 5.mp3\<close> is lost
  in a book published in 2001, though removing the year would expose it.
\<close>

theorem publishYear_undefined_hides_cd:
  "getCdNumberFromFilename (example_book\<lparr>publishYear := ''2001''\<rparr>) ''2001cd 5.mp3'' = None \<and>
   getCdNumberFromFilename example_book (replace_first ''2001'' [] ''2001cd 5.mp3'') = Some 5"
  by code_simp

text \<open>
  A CD number 0 is found but is falsy, so it is not promoted: \<open>cd 0.mp3\<close> leaves
  the file without a track number from its name.
\<close>

theorem cd_zero_not_promoted:
  "resolve_numbers example_book ''cd 0.mp3'' example_meta = (None, None, Some 0)"
  by code_simp

text \<open>
  \<open>getTrackNumberFromMeta\<close> of a track tag parsed from a string of decimal digits is
  the integer the digits denote.
\<close>

theorem getTrackNumberFromMeta_digits:
  assumes "trackNumber sd = Some (js_Number ds)" "ds \<noteq> []" "list_all digit_char ds"
  shows "getTrackNumberFromMeta sd = Some (TInt (int (dec_digits_value ds)))"
  using assms js_Number_digits [OF assms(2,3)]
  by (simp add: getTrackNumberFromMeta_def rat_trunc_def)

theorem getTrackNumberFromMeta_digits_witness:
  "trackNumber (example_meta\<lparr>trackNumber := Some (js_Number ''07'')\<rparr>) = Some (js_Number ''07'') \<and>
   ''07'' \<noteq> [] \<and> list_all digit_char ''07'' \<and>
   getTrackNumberFromMeta (example_meta\<lparr>trackNumber := Some (js_Number ''07'')\<rparr>) = Some (TInt 7)"
proof -
  have d: "list_all digit_char ''07''" by (simp add: digit_char_def)
  have v: "dec_digits_value ''07'' = 7" by (simp add: dec_digits_value_def digits_value_def digit_val_def)
  from getTrackNumberFromMeta_digits [of "example_meta\<lparr>trackNumber := Some (js_Number ''07'')\<rparr>" "''07''"] d v
  show ?thesis by simp
qed

end
