(* ===== verification/Audiobook.thy ===== *)
theory Audiobook
  imports Resolver
begin

text \<open>
  The audiobook aggregate the reconcilers mutate. Its classes (\<open>Audiobook\<close>,
  \<open>AudioFile\<close>, \<open>AudioTrack\<close>) are not under \<open>src/\<close>; they are modelled from their
  interface in the specification (section 6): \<open>addAudioFile\<close>, \<open>addTrack\<close>,
  \<open>AudioFile.updateMetadata\<close> and \<open>AudioTrack.syncMetadata\<close>.

  Audio file objects are shared: the scanner keeps references to them in a local array
  while the audiobook's \<open>audioFiles\<close> array holds the same objects, and it mutates them
  through either. The model therefore keeps the objects in an explicit store
  (\<open>heap\<close>, an object's address is its position) and both arrays hold addresses.
  Track objects are referenced from the audiobook's \<open>tracks\<close> array only, so that array
  holds them as values.
\<close>

text \<open>An entry of \<open>newAudioFiles\<close>, as file discovery produces it.\<close>

record file_entry =
  fe_ino :: string
  fe_filename :: string
  fe_path :: string
  fe_fullPath :: string
  fe_ext :: string

record audio_file =
  af_ino :: string
  af_filename :: string
  af_path :: string
  af_fullPath :: string
  af_ext :: string
  af_meta :: audio_meta
  trackNumFromMeta :: "tnum option"
  trackNumFromFilename :: "nat option"
  cdNumFromFilename :: "nat option"
  af_index :: "tnum option"
  invalid :: bool
  af_error :: "string option"
  exclude :: bool

record track =
  tr_index :: tnum
  tr_ino :: string
  tr_path :: string
  tr_fullPath :: string
  tr_filename :: string
  tr_ext :: string
  tr_meta :: audio_meta

record audiobook =
  book :: book_ctx
  heap :: "audio_file list"
  audioFiles :: "addr list"
  tracks :: "track list"

text \<open>The log lines the reconcilers write at warning and error level.\<close>

datatype log_msg =
    NoNewFiles
  | ScanFailed string
  | NoTracks
  | DuplicateTracksMsg nat
  | InvalidTracksMsg nat
  | InoMismatch string
  | NoMatchingTrack string

text \<open>\<open>audiobook.addAudioFile(obj)\<close>: a new object, appended, and its address.\<close>

definition addAudioFile :: "audiobook \<Rightarrow> audio_file \<Rightarrow> audiobook \<times> addr" where
  "addAudioFile ab af =
     (ab\<lparr>heap := heap ab @ [af], audioFiles := audioFiles ab @ [length (heap ab)]\<rparr>,
      length (heap ab))"

text \<open>
  \<open>new AudioTrack().setData(audioFile)\<close>: the track copies the file's identity, index
  and metadata. The scanner only adds files whose index it has just set.
\<close>

definition track_of_file :: "audio_file \<Rightarrow> track" where
  "track_of_file af =
     \<lparr>tr_index = (case af_index af of Some k \<Rightarrow> k | None \<Rightarrow> TInt 0),
      tr_ino = af_ino af, tr_path = af_path af, tr_fullPath = af_fullPath af,
      tr_filename = af_filename af, tr_ext = af_ext af, tr_meta = af_meta af\<rparr>"

definition addTrack :: "audiobook \<Rightarrow> audio_file \<Rightarrow> audiobook" where
  "addTrack ab af = ab\<lparr>tracks := tracks ab @ [track_of_file af]\<rparr>"

text \<open>Mutating the object at an address.\<close>

definition update_file :: "audiobook \<Rightarrow> addr \<Rightarrow> (audio_file \<Rightarrow> audio_file) \<Rightarrow> audiobook" where
  "update_file ab a f = ab\<lparr>heap := (heap ab)[a := f (heap ab ! a)]\<rparr>"

text \<open>The patch \<open>rescanAudioFiles\<close> passes to \<open>updateMetadata\<close>.\<close>

record meta_patch =
  mp_meta :: audio_meta
  mp_trackNumFromMeta :: "tnum option"
  mp_trackNumFromFilename :: "nat option"
  mp_cdNumFromFilename :: "nat option"

text \<open>
  \<open>audioFile.updateMetadata(patch)\<close>: the patch's fields are written and the result
  says whether any of them changed.
\<close>

definition updateMetadata :: "audio_file \<Rightarrow> meta_patch \<Rightarrow> audio_file \<times> bool" where
  "updateMetadata af p =
     (let af' = af\<lparr>af_meta := mp_meta p, trackNumFromMeta := mp_trackNumFromMeta p,
                   trackNumFromFilename := mp_trackNumFromFilename p,
                   cdNumFromFilename := mp_cdNumFromFilename p\<rparr>
      in (af', af' \<noteq> af))"

text \<open>\<open>track.syncMetadata(audioFile)\<close>: the track takes the file's metadata.\<close>

definition syncMetadata :: "track \<Rightarrow> audio_file \<Rightarrow> track" where
  "syncMetadata t af = t\<lparr>tr_meta := af_meta af\<rparr>"

text \<open>
  The well-formedness of the store: every address the audiobook holds is allocated,
  and no address is held twice.
\<close>

definition wf_book :: "audiobook \<Rightarrow> bool" where
  "wf_book ab \<longleftrightarrow> distinct (audioFiles ab) \<and> (\<forall>a\<in>set (audioFiles ab). a < length (heap ab))"

subsection \<open>Frame rules of the store\<close>

lemma heap_addAudioFile [store_simps]:
  "heap (fst (addAudioFile ab x)) = heap ab @ [x]" "snd (addAudioFile ab x) = length (heap ab)"
  "book (fst (addAudioFile ab x)) = book ab" "tracks (fst (addAudioFile ab x)) = tracks ab"
  by (simp_all add: addAudioFile_def)

lemma heap_update_file [store_simps]:
  "heap (update_file ab a f) = (heap ab)[a := f (heap ab ! a)]"
  "book (update_file ab a f) = book ab" "tracks (update_file ab a f) = tracks ab"
  "audioFiles (update_file ab a f) = audioFiles ab"
  by (simp_all add: update_file_def)

end
