(* ===== verification/BatchImport.thy ===== *)
theory BatchImport
  imports Audiobook
begin

text \<open>
  The batch import reconciler \<open>scanAudioFiles\<close> (lines 125--230). The prober is a
  parameter \<open>probe path verbose\<close>; its results are fixed for the duration of one call.
  The loop of lines 137--193 is a left fold of \<open>scan_file_step\<close> over the new files,
  threading the audiobook, the local \<open>tracks\<close> array (addresses of the shared audio file
  objects), the two counters and the log. Lines 195--229 are \<open>finish_import\<close>.

  Alongside the code the theory states the pure index assignment the loop computes,
  \<open>plan_indices\<close>: one verdict per file, from the file's candidate index and the
  indices claimed before it.
\<close>

type_synonym prober = "string \<Rightarrow> bool \<Rightarrow> probe_data option"

record scan_acc =
  acc_book :: audiobook
  acc_tracks :: "addr list"
  numDuplicateTracks :: nat
  numInvalidTracks :: nat
  acc_log :: "log_msg list"

definition init_acc :: "audiobook \<Rightarrow> scan_acc" where
  "init_acc ab = \<lparr>acc_book = ab, acc_tracks = [], numDuplicateTracks = 0,
                  numInvalidTracks = 0, acc_log = []\<rparr>"

text \<open>The object literal \<open>audioFileObj\<close> of lines 158--168, as \<open>addAudioFile\<close> stores it.\<close>

definition file_object ::
  "file_entry \<Rightarrow> audio_meta \<Rightarrow> tnum option \<Rightarrow> nat option \<Rightarrow> nat option \<Rightarrow> audio_file" where
  "file_object f sd tm tf cd =
     \<lparr>af_ino = fe_ino f, af_filename = fe_filename f, af_path = fe_path f,
      af_fullPath = fe_fullPath f, af_ext = fe_ext f, af_meta = sd,
      trackNumFromMeta = tm, trackNumFromFilename = tf, cdNumFromFilename = cd,
      af_index = None, invalid = False, af_error = None, exclude = False\<rparr>"

text \<open>\<open>t.index\<close> of an audio file object the local array holds.\<close>

definition file_index :: "audiobook \<Rightarrow> addr \<Rightarrow> tnum" where
  "file_index ab a = (case af_index (heap ab ! a) of Some k \<Rightarrow> k | None \<Rightarrow> TInt 0)"

text \<open>\<open>tracks.find(t => t.index === trackNumber)\<close>.\<close>

definition index_claimed :: "audiobook \<Rightarrow> addr list \<Rightarrow> tnum \<Rightarrow> bool" where
  "index_claimed ab ts k \<longleftrightarrow> list_ex (\<lambda>t. af_index (heap ab ! t) = Some k) ts"

text \<open>Lines 183--192: reject a duplicate, otherwise set the index and keep the file.\<close>

definition assign_index :: "scan_acc \<Rightarrow> addr \<Rightarrow> tnum \<Rightarrow> scan_acc" where
  "assign_index acc a k =
     (if index_claimed (acc_book acc) (acc_tracks acc) k then
        acc\<lparr>acc_book := update_file (acc_book acc) a
                          (\<lambda>x. x\<lparr>invalid := True, af_error := Some ''Duplicate track number''\<rparr>),
            numDuplicateTracks := Suc (numDuplicateTracks acc)\<rparr>
      else
        acc\<lparr>acc_book := update_file (acc_book acc) a (\<lambda>x. x\<lparr>af_index := Some k\<rparr>),
            acc_tracks := acc_tracks acc @ [a]\<rparr>)"

text \<open>One iteration of the loop of lines 137--193, for a batch of \<open>n\<close> files.\<close>

definition scan_file_step :: "prober \<Rightarrow> nat \<Rightarrow> scan_acc \<Rightarrow> file_entry \<Rightarrow> scan_acc" where
  "scan_file_step probe n acc f =
     (case scan (probe (fe_fullPath f) False) False of
        Inl _ \<Rightarrow> acc\<lparr>acc_log := acc_log acc @ [ScanFailed (fe_path f)]\<rparr>
      | Inr sd \<Rightarrow>
          (let (tm, tf, cd) = resolve_numbers (book (acc_book acc)) (fe_filename f) sd;
               (ab', a) = addAudioFile (acc_book acc) (file_object f sd tm tf cd);
               acc' = acc\<lparr>acc_book := ab'\<rparr>
           in if 1 < n then
                (case candidate_index tm tf of
                   None \<Rightarrow>
                     acc'\<lparr>acc_book := update_file ab' a
                            (\<lambda>x. x\<lparr>invalid := True, af_error := Some ''Failed to get track number''\<rparr>),
                          numInvalidTracks := Suc (numInvalidTracks acc)\<rparr>
                 | Some k \<Rightarrow> assign_index acc' a k)
              else assign_index acc' a (TInt 1)))"

text \<open>The sort key of lines 210--211: the metadata number, else the filename number, else 0.\<close>

definition af_sort_key :: "audio_file \<Rightarrow> tnum" where
  "af_sort_key af =
     (if isNumber (trackNumFromMeta af) then the (trackNumFromMeta af)
      else if isNumber (trackNumFromFilename af) then TInt (int (the (trackNumFromFilename af)))
      else TInt 0)"

text \<open>Lines 216--221: if the first index is 0, every committed index is incremented.\<close>

definition shift_zero_based :: "audiobook \<Rightarrow> addr list \<Rightarrow> audiobook" where
  "shift_zero_based ab ts =
     (case ts of
        [] \<Rightarrow> ab
      | t0 # _ \<Rightarrow>
          if af_index (heap ab ! t0) = Some (TInt 0)
          then foldl (\<lambda>b t. update_file b t (\<lambda>x. x\<lparr>af_index := map_option tnum_succ (af_index x)\<rparr>)) ab ts
          else ab)"

text \<open>Lines 223--229: append the tracks, re-sort if the audiobook had tracks before.\<close>

definition commit_tracks :: "audiobook \<Rightarrow> addr list \<Rightarrow> audiobook" where
  "commit_tracks ab ts =
     (let ab' = foldl (\<lambda>b t. addTrack b (heap b ! t)) ab ts in
      if tracks ab \<noteq> [] then ab'\<lparr>tracks := sort_key tr_index (tracks ab')\<rparr> else ab')"

text \<open>Lines 195--229, after the loop.\<close>

definition finish_import :: "scan_acc \<Rightarrow> audiobook \<times> log_msg list" where
  "finish_import acc =
     (let ab1 = acc_book acc; ts = acc_tracks acc in
      if ts = [] then (ab1, acc_log acc @ [NoTracks])
      else
        let log = acc_log acc
                  @ (if 0 < numDuplicateTracks acc then [DuplicateTracksMsg (numDuplicateTracks acc)] else [])
                  @ (if 0 < numInvalidTracks acc then [InvalidTracksMsg (numDuplicateTracks acc)] else []);
            ts' = sort_key (file_index ab1) ts;
            ab2 = ab1\<lparr>audioFiles := sort_key (\<lambda>a. af_sort_key (heap ab1 ! a)) (audioFiles ab1)\<rparr>;
            ab3 = shift_zero_based ab2 ts'
        in (commit_tracks ab3 ts', log))"

definition scan_loop :: "prober \<Rightarrow> audiobook \<Rightarrow> file_entry list \<Rightarrow> scan_acc" where
  "scan_loop probe ab files = foldl (scan_file_step probe (length files)) (init_acc ab) files"

definition scanAudioFiles :: "prober \<Rightarrow> audiobook \<Rightarrow> file_entry list \<Rightarrow> audiobook \<times> log_msg list" where
  "scanAudioFiles probe ab files =
     (if files = [] then (ab, [NoNewFiles]) else finish_import (scan_loop probe ab files))"

subsection \<open>The index assignment as a pure function\<close>

text \<open>What one file contributes: a failed scan, or its candidate index, if any.\<close>

definition file_candidate :: "prober \<Rightarrow> book_ctx \<Rightarrow> nat \<Rightarrow> file_entry \<Rightarrow> scan_error + tnum option" where
  "file_candidate probe b n f =
     (case scan (probe (fe_fullPath f) False) False of
        Inl e \<Rightarrow> Inl e
      | Inr sd \<Rightarrow>
          (let (tm, tf, cd) = resolve_numbers b (fe_filename f) sd in
           Inr (if 1 < n then candidate_index tm tf else Some (TInt 1))))"

datatype verdict = ScanError | NoTrackNumber | Duplicate tnum | Committed tnum

fun verdict_of :: "tnum list \<Rightarrow> scan_error + tnum option \<Rightarrow> verdict" where
  "verdict_of claimed (Inl e) = ScanError"
| "verdict_of claimed (Inr None) = NoTrackNumber"
| "verdict_of claimed (Inr (Some k)) = (if k \<in> set claimed then Duplicate k else Committed k)"

fun committed_of :: "verdict \<Rightarrow> tnum list" where
  "committed_of (Committed k) = [k]"
| "committed_of _ = []"

fun plan_indices :: "tnum list \<Rightarrow> (scan_error + tnum option) list \<Rightarrow> verdict list" where
  "plan_indices claimed [] = []"
| "plan_indices claimed (c # cs) =
     (let v = verdict_of claimed c in v # plan_indices (claimed @ committed_of v) cs)"

definition committed :: "verdict list \<Rightarrow> tnum list" where
  "committed vs = concat (map committed_of vs)"

definition count_dup :: "verdict list \<Rightarrow> nat" where
  "count_dup vs = length (filter (\<lambda>v. case v of Duplicate _ \<Rightarrow> True | _ \<Rightarrow> False) vs)"

definition count_invalid :: "verdict list \<Rightarrow> nat" where
  "count_invalid vs = length (filter (\<lambda>v. v = NoTrackNumber) vs)"

definition count_scanned :: "verdict list \<Rightarrow> nat" where
  "count_scanned vs = length (filter (\<lambda>v. v \<noteq> ScanError) vs)"

text \<open>The index list after the zero-based correction.\<close>

definition zero_shift :: "tnum list \<Rightarrow> tnum list" where
  "zero_shift ks = (case ks of [] \<Rightarrow> ks | k # _ \<Rightarrow> if k = TInt 0 then map tnum_succ ks else ks)"

subsection \<open>The loop invariant\<close>

text \<open>
  The indices the local \<open>tracks\<close> array holds, in its order, and what keeps them
  meaningful: its addresses are distinct, allocated, indexed and not marked invalid.
\<close>

definition claimed_indices :: "scan_acc \<Rightarrow> tnum list" where
  "claimed_indices acc = map (file_index (acc_book acc)) (acc_tracks acc)"

definition acc_inv :: "scan_acc \<Rightarrow> bool" where
  "acc_inv acc \<longleftrightarrow> distinct (acc_tracks acc) \<and>
     (\<forall>t\<in>set (acc_tracks acc). t < length (heap (acc_book acc)) \<and>
        af_index (heap (acc_book acc) ! t) \<noteq> None \<and> \<not> invalid (heap (acc_book acc) ! t))"

subsection \<open>Example inputs\<close>

text \<open>
  A prober over a small library: the files \<open>/book/a.mp3\<close> to \<open>/book/f.mp3\<close>
  carry the track tags 2, 1, 3, -1, 0 and a non-numeric one; any other path fails to
  probe.
\<close>

definition example_library :: "(string \<times> string) list" where
  "example_library =
     [(''/book/a.mp3'', ''2''), (''/book/b.mp3'', ''1''), (''/book/c.mp3'', ''3''),
      (''/book/d.mp3'', ''-1''), (''/book/e.mp3'', ''0''), (''/book/f.mp3'', ''x'')]"

definition example_prober :: prober where
  "example_prober p verbose =
     (case map_of example_library p of
        None \<Rightarrow> None
      | Some t \<Rightarrow> Some (example_probe\<lparr>pd_fields := [(''file_tag_track'', t)]\<rparr>))"

definition example_file :: "string \<Rightarrow> file_entry" where
  "example_file name =
     \<lparr>fe_ino = name, fe_filename = name @ ''.mp3'', fe_path = ''book/'' @ name @ ''.mp3'',
      fe_fullPath = ''/book/'' @ name @ ''.mp3'', fe_ext = ''.mp3''\<rparr>"

definition example_ab :: audiobook where
  "example_ab = \<lparr>book = example_book, heap = [], audioFiles = [], tracks = []\<rparr>"

subsection \<open>The loop implements the pure index assignment\<close>

lemma af_index_file_index:
  "af_index (heap ab ! t) \<noteq> None \<Longrightarrow> af_index (heap ab ! t) = Some (file_index ab t)"
  by (auto simp: file_index_def)

lemma index_claimed_iff:
  assumes "\<forall>t\<in>set ts. af_index (heap ab ! t) \<noteq> None"
  shows "index_claimed ab ts k \<longleftrightarrow> k \<in> set (map (file_index ab) ts)"
proof -
  have "index_claimed ab ts k \<longleftrightarrow> (\<exists>t\<in>set ts. af_index (heap ab ! t) = Some k)"
    by (simp add: index_claimed_def list_ex_iff)
  also have "\<dots> \<longleftrightarrow> (\<exists>t\<in>set ts. file_index ab t = k)"
    using assms af_index_file_index by fastforce
  finally show ?thesis by auto
qed

lemma file_index_update_other [store_simps]:
  "t \<noteq> a \<Longrightarrow> file_index (update_file ab a f) t = file_index ab t"
  by (simp add: file_index_def update_file_def)

lemma file_index_append [store_simps]:
  "t < length (heap ab) \<Longrightarrow> file_index (ab\<lparr>heap := heap ab @ [x], audioFiles := afs\<rparr>) t = file_index ab t"
  by (simp add: file_index_def nth_append)

lemma acc_inv_init: "acc_inv (init_acc ab)"
  by (simp add: acc_inv_def init_acc_def)

lemma claimed_indices_init: "claimed_indices (init_acc ab) = []"
  by (simp add: claimed_indices_def init_acc_def)

lemma book_scan_file_step [simp]:
  "book (acc_book (scan_file_step probe n acc f)) = book (acc_book acc)"
  by (auto simp: scan_file_step_def assign_index_def addAudioFile_def update_file_def Let_def
           split: sum.splits prod.splits option.splits)

text \<open>The new object and the old ones after adding it and writing to it.\<close>

lemma assign_index_frame:
  "t \<noteq> a \<Longrightarrow> heap (acc_book (assign_index acc a k)) ! t = heap (acc_book acc) ! t"
  "length (heap (acc_book (assign_index acc a k))) = length (heap (acc_book acc))"
  "numInvalidTracks (assign_index acc a k) = numInvalidTracks acc"
  "book (acc_book (assign_index acc a k)) = book (acc_book acc)"
  by (simp_all add: assign_index_def update_file_def)

lemma assign_index_fresh:
  assumes inv: "acc_inv acc" and a: "a < length (heap (acc_book acc))" "a \<notin> set (acc_tracks acc)"
    and valid_a: "\<not> invalid (heap (acc_book acc) ! a)"
  shows "acc_inv (assign_index acc a k) \<and>
         claimed_indices (assign_index acc a k) =
           claimed_indices acc @ committed_of (verdict_of (claimed_indices acc) (Inr (Some k))) \<and>
         numDuplicateTracks (assign_index acc a k) =
           numDuplicateTracks acc + (if k \<in> set (claimed_indices acc) then 1 else 0)"
proof -
  let ?ab = "acc_book acc"
  let ?ts = "acc_tracks acc"
  let ?r = "assign_index acc a k"
  have ne: "\<forall>t\<in>set ?ts. af_index (heap ?ab ! t) \<noteq> None"
    using inv by (auto simp: acc_inv_def)
  have claimed: "index_claimed ?ab ?ts k \<longleftrightarrow> k \<in> set (claimed_indices acc)"
    using index_claimed_iff [OF ne] by (simp add: claimed_indices_def)
  have same: "\<forall>t\<in>set ?ts. heap (acc_book ?r) ! t = heap ?ab ! t"
  proof
    fix t assume "t \<in> set ?ts"
    with a(2) have "t \<noteq> a" by auto
    then show "heap (acc_book ?r) ! t = heap ?ab ! t" by (rule assign_index_frame(1))
  qed
  have old_idx: "map (file_index (acc_book ?r)) ?ts = claimed_indices acc"
  proof -
    have "file_index (acc_book ?r) t = file_index ?ab t" if "t \<in> set ?ts" for t
      using same that by (simp add: file_index_def)
    then show ?thesis by (simp add: claimed_indices_def)
  qed
  show ?thesis
  proof (cases "k \<in> set (claimed_indices acc)")
    case True
    then have "acc_tracks ?r = ?ts" "numDuplicateTracks ?r = Suc (numDuplicateTracks acc)"
      using claimed by (simp_all add: assign_index_def)
    with inv same old_idx True show ?thesis
      by (simp add: acc_inv_def claimed_indices_def assign_index_frame(2))
  next
    case False
    then have tr: "acc_tracks ?r = ?ts @ [a]" "numDuplicateTracks ?r = numDuplicateTracks acc"
      and at_a: "heap (acc_book ?r) ! a = (heap ?ab ! a)\<lparr>af_index := Some k\<rparr>"
      using claimed a(1) by (simp_all add: assign_index_def update_file_def)
    from at_a have "file_index (acc_book ?r) a = k"
      by (simp add: file_index_def)
    with inv same old_idx False tr at_a a valid_a show ?thesis
      by (auto simp: acc_inv_def claimed_indices_def assign_index_frame(2))
  qed
qed

lemma acc_inv_counters [simp]:
  "acc_inv (acc\<lparr>numInvalidTracks := m\<rparr>) = acc_inv acc"
  "acc_inv (acc\<lparr>numDuplicateTracks := m\<rparr>) = acc_inv acc"
  "acc_inv (acc\<lparr>acc_log := l\<rparr>) = acc_inv acc"
  "claimed_indices (acc\<lparr>numInvalidTracks := m\<rparr>) = claimed_indices acc"
  "claimed_indices (acc\<lparr>numDuplicateTracks := m\<rparr>) = claimed_indices acc"
  "claimed_indices (acc\<lparr>acc_log := l\<rparr>) = claimed_indices acc"
  by (simp_all add: acc_inv_def claimed_indices_def)

lemma acc_inv_add_file:
  assumes "acc_inv acc"
  shows "acc_inv (acc\<lparr>acc_book := fst (addAudioFile (acc_book acc) x)\<rparr>) \<and>
         claimed_indices (acc\<lparr>acc_book := fst (addAudioFile (acc_book acc) x)\<rparr>) = claimed_indices acc"
proof -
  have lt: "\<forall>t\<in>set (acc_tracks acc). t < length (heap (acc_book acc))"
    using assms by (simp add: acc_inv_def)
  then have "\<forall>t\<in>set (acc_tracks acc). (heap (acc_book acc) @ [x]) ! t = heap (acc_book acc) ! t"
    by (simp add: nth_append)
  with assms lt show ?thesis
    by (auto simp: acc_inv_def claimed_indices_def addAudioFile_def file_index_def)
qed

lemma acc_inv_update_untracked:
  assumes "acc_inv acc" "a \<notin> set (acc_tracks acc)"
  shows "acc_inv (acc\<lparr>acc_book := update_file (acc_book acc) a g\<rparr>) \<and>
         claimed_indices (acc\<lparr>acc_book := update_file (acc_book acc) a g\<rparr>) = claimed_indices acc"
proof -
  let ?ab = "update_file (acc_book acc) a g"
  have same: "heap ?ab ! t = heap (acc_book acc) ! t" if "t \<in> set (acc_tracks acc)" for t
  proof -
    from that assms(2) have "a \<noteq> t" by auto
    then show ?thesis by (simp add: update_file_def)
  qed
  then have "map (file_index ?ab) (acc_tracks acc) = claimed_indices acc"
    by (simp add: claimed_indices_def file_index_def)
  moreover have "length (heap ?ab) = length (heap (acc_book acc))"
    by (simp add: update_file_def)
  ultimately show ?thesis
    using assms(1) same by (simp add: acc_inv_def claimed_indices_def)
qed

lemma scan_file_step_refines:
  fixes probe :: prober and n :: nat and f :: file_entry
  assumes inv: "acc_inv acc"
  defines "v \<equiv> verdict_of (claimed_indices acc) (file_candidate probe (book (acc_book acc)) n f)"
  defines "acc' \<equiv> scan_file_step probe n acc f"
  shows "acc_inv acc' \<and> claimed_indices acc' = claimed_indices acc @ committed_of v \<and>
         numDuplicateTracks acc' = numDuplicateTracks acc + count_dup [v] \<and>
         numInvalidTracks acc' = numInvalidTracks acc + count_invalid [v]"
proof (cases "scan (probe (fe_fullPath f) False) False")
  case (Inl e)
  with inv show ?thesis
    by (simp add: acc'_def v_def scan_file_step_def file_candidate_def acc_inv_def
                  claimed_indices_def count_dup_def count_invalid_def)
next
  case (Inr sd)
  obtain tm tf cd where res: "resolve_numbers (book (acc_book acc)) (fe_filename f) sd = (tm, tf, cd)"
    by (cases "resolve_numbers (book (acc_book acc)) (fe_filename f) sd") auto
  define x where "x = file_object f sd tm tf cd"
  define acc1 where "acc1 = acc\<lparr>acc_book := fst (addAudioFile (acc_book acc) x)\<rparr>"
  define a where "a = length (heap (acc_book acc))"
  have inv1: "acc_inv acc1" and cl1: "claimed_indices acc1 = claimed_indices acc"
    using acc_inv_add_file [OF inv] by (simp_all add: acc1_def)
  have a1: "a < length (heap (acc_book acc1))" "a \<notin> set (acc_tracks acc)"
    and va: "\<not> invalid (heap (acc_book acc1) ! a)"
    using inv by (auto simp: a_def acc1_def addAudioFile_def acc_inv_def x_def file_object_def)
  have a2: "a \<notin> set (acc_tracks acc1)" using a1 by (simp add: acc1_def)
  have cand: "file_candidate probe (book (acc_book acc)) n f =
              Inr (if 1 < n then candidate_index tm tf else Some (TInt 1))"
    by (simp add: file_candidate_def Inr res)
  have same1: "numDuplicateTracks acc1 = numDuplicateTracks acc" "numInvalidTracks acc1 = numInvalidTracks acc"
    by (simp_all add: acc1_def)
  note unf = acc'_def scan_file_step_def Inr res Let_def case_prod_beta heap_addAudioFile(2)
             acc1_def a_def x_def
  show ?thesis
  proof (cases "1 < n \<and> candidate_index tm tf = None")
    case True
    then have "acc' = acc1\<lparr>acc_book := update_file (acc_book acc1) a
                            (\<lambda>x. x\<lparr>invalid := True, af_error := Some ''Failed to get track number''\<rparr>),
                          numInvalidTracks := Suc (numInvalidTracks acc)\<rparr>"
      by (simp add: unf)
    with acc_inv_update_untracked [OF inv1 a2] cl1 True show ?thesis
      by (simp add: v_def cand acc1_def count_dup_def count_invalid_def)
  next
    case False
    then obtain k where k: "(if 1 < n then candidate_index tm tf else Some (TInt 1)) = Some k"
      by (cases "1 < n"; cases "candidate_index tm tf") auto
    from False k have r: "acc' = assign_index acc1 a k"
      by (cases "1 < n") (simp_all add: unf)
    from cand k have vk: "v = verdict_of (claimed_indices acc) (Inr (Some k))"
      by (simp add: v_def)
    from assign_index_fresh [OF inv1 a1(1) a2 va, of k] cl1 same1
    have A: "acc_inv (assign_index acc1 a k)"
      and B: "claimed_indices (assign_index acc1 a k) = claimed_indices acc @ committed_of v"
      and C: "numDuplicateTracks (assign_index acc1 a k) = numDuplicateTracks acc + count_dup [v]"
      by (simp_all add: vk count_dup_def)
    have D: "numInvalidTracks (assign_index acc1 a k) = numInvalidTracks acc + count_invalid [v]"
      using assign_index_frame(3) [of acc1 a k] same1 by (simp add: vk count_invalid_def)
    from A B C D show ?thesis by (simp only: r)
  qed
qed

lemma book_acc_foldl [simp]:
  "book (acc_book (foldl (scan_file_step probe n) acc fs)) = book (acc_book acc)"
  by (induction fs arbitrary: acc) simp_all

lemma count_dup_append: "count_dup (xs @ ys) = count_dup xs + count_dup ys"
  and count_invalid_append: "count_invalid (xs @ ys) = count_invalid xs + count_invalid ys"
  by (simp_all add: count_dup_def count_invalid_def)

text \<open>
  The loop from any state satisfying the invariant: the invariant is kept, the local
  \<open>tracks\<close> array gains the indices the plan commits, and the counters grow by the
  plan's counts.
\<close>

lemma foldl_scan_file_step_plan:
  fixes probe :: prober and n :: nat and fs :: "file_entry list"
  assumes "acc_inv acc"
  defines "vs \<equiv> plan_indices (claimed_indices acc) (map (file_candidate probe (book (acc_book acc)) n) fs)"
  defines "acc' \<equiv> foldl (scan_file_step probe n) acc fs"
  shows "acc_inv acc' \<and> claimed_indices acc' = claimed_indices acc @ committed vs \<and>
         numDuplicateTracks acc' = numDuplicateTracks acc + count_dup vs \<and>
         numInvalidTracks acc' = numInvalidTracks acc + count_invalid vs"
  unfolding vs_def acc'_def using assms(1)
proof (induction fs arbitrary: acc)
  case Nil
  then show ?case by (simp add: committed_def count_dup_def count_invalid_def)
next
  case (Cons f fs)
  let ?s = "scan_file_step probe n acc f"
  let ?v = "verdict_of (claimed_indices acc) (file_candidate probe (book (acc_book acc)) n f)"
  from scan_file_step_refines [OF Cons.prems, of probe n f]
  have s: "acc_inv ?s" "claimed_indices ?s = claimed_indices acc @ committed_of ?v"
    "numDuplicateTracks ?s = numDuplicateTracks acc + count_dup [?v]"
    "numInvalidTracks ?s = numInvalidTracks acc + count_invalid [?v]"
    by simp_all
  from Cons.IH [OF s(1)] s show ?case
    by (simp add: Let_def committed_def count_dup_def count_invalid_def)
qed

lemma tracks_scan_file_step [simp]:
  "tracks (acc_book (scan_file_step probe n acc f)) = tracks (acc_book acc)"
  by (auto simp: scan_file_step_def assign_index_def addAudioFile_def update_file_def Let_def
           split: sum.splits prod.splits option.splits)

lemma tracks_acc_foldl [simp]:
  "tracks (acc_book (foldl (scan_file_step probe n) acc fs)) = tracks (acc_book acc)"
  by (induction fs arbitrary: acc) simp_all

subsection \<open>After the loop: sorting, the zero-based correction, the commit\<close>

text \<open>Writing to a list of distinct allocated addresses, one after another.\<close>

lemma heap_foldl_update:
  assumes "distinct ts" "\<forall>t\<in>set ts. t < length (heap ab)"
  shows "length (heap (foldl (\<lambda>b t. update_file b t g) ab ts)) = length (heap ab) \<and>
         (\<forall>i < length (heap ab). heap (foldl (\<lambda>b t. update_file b t g) ab ts) ! i =
             (if i \<in> set ts then g (heap ab ! i) else heap ab ! i))"
  using assms
proof (induction ts arbitrary: ab)
  case Nil
  then show ?case by simp
next
  case (Cons t ts)
  let ?ab' = "update_file ab t g"
  have "t < length (heap ab)" using Cons.prems by simp
  then have len: "length (heap ?ab') = length (heap ab)"
    and at: "\<forall>i < length (heap ab). heap ?ab' ! i = (if i = t then g (heap ab ! i) else heap ab ! i)"
    by (simp_all add: update_file_def nth_list_update)
  from Cons.prems len have "distinct ts" "\<forall>t\<in>set ts. t < length (heap ?ab')" by auto
  note IH = Cons.IH [OF this]
  from IH len at Cons.prems show ?case
    by auto
qed

lemma foldl_update_file_other [simp]:
  "book (foldl (\<lambda>b t. update_file b t g) ab ts) = book ab"
  "tracks (foldl (\<lambda>b t. update_file b t g) ab ts) = tracks ab"
  "audioFiles (foldl (\<lambda>b t. update_file b t g) ab ts) = audioFiles ab"
  by (induction ts arbitrary: ab) (simp_all add: update_file_def)

lemma heap_foldl_addTrack [simp]:
  "heap (foldl (\<lambda>b t. addTrack b (heap b ! t)) ab ts) = heap ab"
  "audioFiles (foldl (\<lambda>b t. addTrack b (heap b ! t)) ab ts) = audioFiles ab"
  by (induction ts arbitrary: ab) (simp_all add: addTrack_def)

lemma tracks_foldl_addTrack:
  "tracks (foldl (\<lambda>b t. addTrack b (heap b ! t)) ab ts) =
   tracks ab @ map (\<lambda>t. track_of_file (heap ab ! t)) ts"
  by (induction ts arbitrary: ab) (simp_all add: addTrack_def)

lemma tr_index_track_of_file: "tr_index (track_of_file (heap ab ! t)) = file_index ab t"
  by (simp add: track_of_file_def file_index_def)

lemma file_index_succ:
  "af_index x \<noteq> None \<Longrightarrow>
   (case map_option tnum_succ (af_index x) of Some k \<Rightarrow> k | None \<Rightarrow> TInt 0) =
   tnum_succ (case af_index x of Some k \<Rightarrow> k | None \<Rightarrow> TInt 0)"
  by auto

lemma shift_zero_based_index:
  assumes d: "distinct ts" and ok: "\<forall>t\<in>set ts. t < length (heap ab) \<and> af_index (heap ab ! t) \<noteq> None"
  shows "map (file_index (shift_zero_based ab ts)) ts = zero_shift (map (file_index ab) ts)"
proof (cases ts)
  case Nil
  then show ?thesis by (simp add: shift_zero_based_def zero_shift_def)
next
  case (Cons t0 rest)
  have t0: "af_index (heap ab ! t0) = Some (TInt 0) \<longleftrightarrow> file_index ab t0 = TInt 0"
    using ok Cons by (auto simp: file_index_def)
  show ?thesis
  proof (cases "file_index ab t0 = TInt 0")
    case True
    let ?g = "\<lambda>x. x\<lparr>af_index := map_option tnum_succ (af_index x)\<rparr>"
    from heap_foldl_update [OF d, of ab ?g] ok
    have "\<forall>t\<in>set ts. heap (foldl (\<lambda>b t. update_file b t ?g) ab ts) ! t = ?g (heap ab ! t)"
      by auto
    then have "\<forall>t\<in>set ts. file_index (foldl (\<lambda>b t. update_file b t ?g) ab ts) t = tnum_succ (file_index ab t)"
      using ok by (auto simp: file_index_def)
    with True t0 Cons show ?thesis
      by (simp add: shift_zero_based_def zero_shift_def)
  next
    case False
    with t0 Cons show ?thesis
      by (simp add: shift_zero_based_def zero_shift_def)
  qed
qed

lemma shift_zero_based_frame [simp]:
  "tracks (shift_zero_based ab ts) = tracks ab" "book (shift_zero_based ab ts) = book ab"
  "audioFiles (shift_zero_based ab ts) = audioFiles ab"
  by (simp_all add: shift_zero_based_def split: list.splits)

lemma file_index_same_heap: "heap ab' = heap ab \<Longrightarrow> file_index ab' = file_index ab"
  by (simp add: file_index_def fun_eq_iff)

lemma finish_import_tracks:
  assumes inv: "acc_inv acc" and ne: "acc_tracks acc \<noteq> []"
  shows "\<exists>new. tracks (fst (finish_import acc)) =
                 (if tracks (acc_book acc) = [] then new
                  else sort_key tr_index (tracks (acc_book acc) @ new)) \<and>
               map tr_index new = zero_shift (sort (claimed_indices acc))"
proof -
  let ?ab1 = "acc_book acc"
  let ?ts = "acc_tracks acc"
  let ?ts' = "sort_key (file_index ?ab1) ?ts"
  let ?ab2 = "?ab1\<lparr>audioFiles := sort_key (\<lambda>a. af_sort_key (heap ?ab1 ! a)) (audioFiles ?ab1)\<rparr>"
  let ?ab3 = "shift_zero_based ?ab2 ?ts'"
  let ?new = "map (\<lambda>t. track_of_file (heap ?ab3 ! t)) ?ts'"
  have d: "distinct ?ts'" and ok: "\<forall>t\<in>set ?ts'. t < length (heap ?ab2) \<and> af_index (heap ?ab2 ! t) \<noteq> None"
    using inv by (auto simp: acc_inv_def)
  have fi2: "file_index ?ab2 = file_index ?ab1"
    by (rule file_index_same_heap) simp
  have "map tr_index ?new = map (file_index ?ab3) ?ts'"
    by (simp add: tr_index_track_of_file)
  also have "\<dots> = zero_shift (map (file_index ?ab2) ?ts')"
    by (rule shift_zero_based_index [OF d ok])
  also have "\<dots> = zero_shift (sort (claimed_indices acc))"
    by (simp add: fi2 map_sort_key claimed_indices_def)
  finally have idx: "map tr_index ?new = zero_shift (sort (claimed_indices acc))" .
  have "tracks (fst (finish_import acc)) =
          (if tracks ?ab1 = [] then ?new else sort_key tr_index (tracks ?ab1 @ ?new))"
    using ne by (simp add: finish_import_def commit_tracks_def Let_def tracks_foldl_addTrack)
  with idx show ?thesis by blast
qed

end
