(* ===== verification/ImportOrder.thy ===== *)
theory ImportOrder
  imports BatchImport
begin

text \<open>
  What \<open>scanAudioFiles\<close> promises about the committed track list, derived from the loop
  refinement of \<open>BatchImport\<close>: the committed indices are the distinct candidates of
  the batch, sorted, shifted when the smallest is 0; for an audiobook without tracks the
  result is strictly increasing and independent of the order of the new files.
\<close>

text \<open>The candidate indices of a batch: every file's candidate, in file order.\<close>

definition candidates :: "(scan_error + tnum option) list \<Rightarrow> tnum list" where
  "candidates cs = concat (map (\<lambda>c. case c of Inr (Some k) \<Rightarrow> [k] | _ \<Rightarrow> []) cs)"

definition batch_plan :: "prober \<Rightarrow> audiobook \<Rightarrow> file_entry list \<Rightarrow> verdict list" where
  "batch_plan probe ab fs = plan_indices [] (map (file_candidate probe (book ab) (length fs)) fs)"

definition batch_candidates :: "prober \<Rightarrow> audiobook \<Rightarrow> file_entry list \<Rightarrow> tnum list" where
  "batch_candidates probe ab fs = candidates (map (file_candidate probe (book ab) (length fs)) fs)"

subsection \<open>The plan commits each candidate once\<close>

lemma committed_Cons [simp]: "committed (v # vs) = committed_of v @ committed vs"
  by (simp add: committed_def)

lemma candidates_Cons [simp]:
  "candidates (c # cs) = (case c of Inr (Some k) \<Rightarrow> [k] | _ \<Rightarrow> []) @ candidates cs"
  by (simp add: candidates_def)

lemma committed_of_verdict:
  "committed_of (verdict_of claimed c) =
     (case c of Inr (Some k) \<Rightarrow> if k \<in> set claimed then [] else [k] | _ \<Rightarrow> [])"
  by (induction claimed c rule: verdict_of.induct) simp_all

lemma length_plan_indices [simp]: "length (plan_indices claimed cs) = length cs"
  by (induction cs arbitrary: claimed) (simp_all add: Let_def)

lemma plan_committed:
  "distinct claimed \<Longrightarrow>
   distinct (claimed @ committed (plan_indices claimed cs)) \<and>
   set (committed (plan_indices claimed cs)) = set (candidates cs) - set claimed"
proof (induction cs arbitrary: claimed)
  case Nil
  then show ?case by (simp add: committed_def candidates_def)
next
  case (Cons c cs)
  let ?ck = "committed_of (verdict_of claimed c)"
  have ck: "?ck = (case c of Inr (Some k) \<Rightarrow> if k \<in> set claimed then [] else [k] | _ \<Rightarrow> [])"
    by (rule committed_of_verdict)
  with Cons.prems have "distinct (claimed @ ?ck)"
    by (auto split: sum.splits option.splits)
  note IH = Cons.IH [OF this]
  have plan: "plan_indices claimed (c # cs) = verdict_of claimed c # plan_indices (claimed @ ?ck) cs"
    by (simp add: Let_def)
  show ?case
    using IH ck unfolding plan committed_Cons candidates_Cons
    by (auto split: sum.splits option.splits if_splits)
qed

lemma distinct_committed_plan: "distinct (committed (plan_indices [] cs))"
  using plan_committed [of "[]" cs] by simp

lemma set_committed_plan: "set (committed (plan_indices [] cs)) = set (candidates cs)"
  using plan_committed [of "[]" cs] by simp

lemma sort_committed_plan:
  "sort (committed (plan_indices [] cs)) = sorted_list_of_set (set (candidates cs))"
  by (simp add: sorted_list_of_set_sort_remdups distinct_remdups_id [OF distinct_committed_plan]
                set_committed_plan [symmetric])

lemma committed_plan_count:
  "length (committed vs) + count_dup vs + count_invalid vs \<le> length vs"
proof (induction vs)
  case Nil
  then show ?case by (simp add: committed_def count_dup_def count_invalid_def)
next
  case (Cons v vs)
  then show ?case
    by (cases v) (simp_all add: count_dup_def count_invalid_def)
qed

subsection \<open>The loop from the initial state\<close>

lemma scan_loop_plan:
  "acc_inv (scan_loop probe ab fs) \<and>
   claimed_indices (scan_loop probe ab fs) = committed (batch_plan probe ab fs) \<and>
   numDuplicateTracks (scan_loop probe ab fs) = count_dup (batch_plan probe ab fs) \<and>
   numInvalidTracks (scan_loop probe ab fs) = count_invalid (batch_plan probe ab fs) \<and>
   tracks (acc_book (scan_loop probe ab fs)) = tracks ab"
  using foldl_scan_file_step_plan [OF acc_inv_init [of ab], where probe = probe and n = "length fs"
                                   and fs = fs]
  by (simp add: scan_loop_def batch_plan_def claimed_indices_def init_acc_def)

text \<open>
  C1: The loop of lines 137--193, started as \<open>scanAudioFiles\<close> starts it, computes the
  specification's index assignment: the local \<open>tracks\<close> array holds exactly the indices
  the plan commits (a file's candidate unless its scan failed, it had none, or an earlier
  file claimed it), in file order, the two counters are the plan's numbers of duplicate
  and of index-less files, and the loop invariant holds.
\<close>

theorem scan_loop_refines_plan:
  "acc_inv (scan_loop probe ab fs) \<and>
   claimed_indices (scan_loop probe ab fs) = committed (batch_plan probe ab fs) \<and>
   numDuplicateTracks (scan_loop probe ab fs) = count_dup (batch_plan probe ab fs) \<and>
   numInvalidTracks (scan_loop probe ab fs) = count_invalid (batch_plan probe ab fs)"
  using scan_loop_plan [of probe ab fs] by simp

subsection \<open>From the loop to the committed track list\<close>

lemma batch_candidates_committed:
  "committed (batch_plan probe ab fs) = [] \<longleftrightarrow> batch_candidates probe ab fs = []"
proof -
  have "set (committed (batch_plan probe ab fs)) = set (batch_candidates probe ab fs)"
    by (simp add: batch_plan_def batch_candidates_def set_committed_plan)
  then show ?thesis by (metis set_empty)
qed

lemma sort_committed_batch:
  "sort (committed (batch_plan probe ab fs)) = sorted_list_of_set (set (batch_candidates probe ab fs))"
  by (simp add: batch_plan_def batch_candidates_def sort_committed_plan)

lemma scanAudioFiles_tracks_plan:
  assumes "batch_candidates probe ab fs \<noteq> []"
  shows "\<exists>new. tracks (fst (scanAudioFiles probe ab fs)) =
                (if tracks ab = [] then new else sort_key tr_index (tracks ab @ new)) \<and>
              map tr_index new = zero_shift (sorted_list_of_set (set (batch_candidates probe ab fs)))"
proof -
  let ?acc = "scan_loop probe ab fs"
  have c: "committed (batch_plan probe ab fs) \<noteq> []"
    using assms batch_candidates_committed by blast
  then have fs: "fs \<noteq> []" by (auto simp: batch_plan_def committed_def)
  from scan_loop_plan [of probe ab fs]
  have inv: "acc_inv ?acc" and cl: "claimed_indices ?acc = committed (batch_plan probe ab fs)"
    and tr: "tracks (acc_book ?acc) = tracks ab" by simp_all
  from cl c have ne: "acc_tracks ?acc \<noteq> []" by (auto simp: claimed_indices_def)
  from finish_import_tracks [OF inv ne] obtain new where
    "tracks (fst (finish_import ?acc)) =
       (if tracks (acc_book ?acc) = [] then new else sort_key tr_index (tracks (acc_book ?acc) @ new))"
    "map tr_index new = zero_shift (sort (claimed_indices ?acc))"
    by blast
  with fs show ?thesis
    unfolding scanAudioFiles_def tr cl sort_committed_batch by auto
qed

lemma scanAudioFiles_no_commit:
  assumes "batch_candidates probe ab fs = []"
  shows "tracks (fst (scanAudioFiles probe ab fs)) = tracks ab \<and>
         snd (scanAudioFiles probe ab fs) =
           (if fs = [] then [NoNewFiles] else acc_log (scan_loop probe ab fs) @ [NoTracks])"
proof -
  let ?acc = "scan_loop probe ab fs"
  from scan_loop_plan [of probe ab fs] assms batch_candidates_committed [of probe ab fs]
  have "claimed_indices ?acc = []" and tr: "tracks (acc_book ?acc) = tracks ab" by simp_all
  then have "acc_tracks ?acc = []" by (simp add: claimed_indices_def)
  with tr show ?thesis
    by (simp add: scanAudioFiles_def finish_import_def)
qed

lemma tnum_succ_mono: "a < b \<Longrightarrow> tnum_succ a < tnum_succ b"
  by (cases a; cases b) (auto simp: less_tnum_def)

lemma tnum_succ_pos: "TInt 0 \<le> k \<Longrightarrow> tnum_succ k \<noteq> TInt 0"
  by (cases k) auto

lemma zero_shift_strict: "sorted_wrt (<) ks \<Longrightarrow> sorted_wrt (<) (zero_shift ks)"
  by (auto simp: zero_shift_def sorted_wrt_map tnum_succ_mono split: list.splits
           elim: sorted_wrt_mono_rel[rotated])

lemma sorted_hd_min:
  "sorted xs \<Longrightarrow> x \<in> set xs \<Longrightarrow> \<forall>y\<in>set xs. x \<le> y \<Longrightarrow> hd xs = x"
  by (cases xs) (auto intro: order.antisym)

lemma zero_shift_no_zero:
  assumes "sorted ks" "\<forall>k\<in>set ks. TInt 0 \<le> k"
  shows "TInt 0 \<notin> set (zero_shift ks)"
proof (cases ks)
  case Nil
  then show ?thesis by (simp add: zero_shift_def)
next
  case (Cons k0 rest)
  show ?thesis
  proof (cases "k0 = TInt 0")
    case True
    with Cons have z: "zero_shift ks = map tnum_succ ks" by (simp add: zero_shift_def)
    show ?thesis
    proof
      assume "TInt 0 \<in> set (zero_shift ks)"
      with z obtain x where "x \<in> set ks" "tnum_succ x = TInt 0" by (auto simp del: tnum_succ.simps)
      with assms(2) tnum_succ_pos show False by blast
    qed
  next
    case False
    have "TInt 0 \<notin> set ks"
    proof
      assume "TInt 0 \<in> set ks"
      with assms have "hd ks = TInt 0" by (intro sorted_hd_min) auto
      with Cons False show False by simp
    qed
    with False Cons show ?thesis by (simp add: zero_shift_def)
  qed
qed

lemma sorted_strict_committed:
  "sorted_wrt (<) (sorted_list_of_set (set (batch_candidates probe ab fs)))"
  by (simp add: sorted_list_of_set_sort_remdups strict_sorted_iff)

subsection \<open>The committed track list\<close>

text \<open>
  C2: For an audiobook without tracks, \<open>scanAudioFiles\<close> commits exactly one track per
  distinct candidate index of the batch, in increasing order, shifted by one when the
  smallest is 0, and nothing when the batch has no candidate.
\<close>

theorem scanAudioFiles_fresh_indices:
  assumes "tracks ab = []"
  shows "map tr_index (tracks (fst (scanAudioFiles probe ab fs))) =
           (if batch_candidates probe ab fs = [] then []
            else zero_shift (sorted_list_of_set (set (batch_candidates probe ab fs))))"
proof (cases "batch_candidates probe ab fs = []")
  case True
  with scanAudioFiles_no_commit [OF True] assms show ?thesis by simp
next
  case False
  with scanAudioFiles_tracks_plan [OF False] assms show ?thesis by auto
qed

theorem scanAudioFiles_fresh_indices_witness:
  "tracks example_ab = [] \<and>
   map tr_index (tracks (fst (scanAudioFiles example_prober example_ab (map example_file [''a'', ''b'', ''c''])))) =
     [TInt 1, TInt 2, TInt 3]"
proof -
  have h: "tracks example_ab = []" by (simp add: example_ab_def)
  have b: "batch_candidates example_prober example_ab (map example_file [''a'', ''b'', ''c'']) =
           [TInt 2, TInt 1, TInt 3]"
    by code_simp
  from h scanAudioFiles_fresh_indices [OF h, of example_prober "map example_file [''a'', ''b'', ''c'']"] b
  show ?thesis by (simp add: sorted_list_of_set_sort_remdups zero_shift_def)
qed

text \<open>
  C3: For an audiobook without tracks the committed track list is strictly increasing
  by index: no two tracks share an index (the specification's track list invariant).
\<close>

theorem scanAudioFiles_fresh_strictly_sorted:
  assumes "tracks ab = []"
  shows "sorted_wrt (<) (map tr_index (tracks (fst (scanAudioFiles probe ab fs))))"
proof (cases "batch_candidates probe ab fs = []")
  case True
  with scanAudioFiles_no_commit [OF True] assms show ?thesis by simp
next
  case False
  with scanAudioFiles_tracks_plan [OF False] assms
    zero_shift_strict [OF sorted_strict_committed [of probe ab fs]]
  show ?thesis by auto
qed

theorem scanAudioFiles_fresh_strictly_sorted_witness:
  "tracks example_ab = [] \<and>
   sorted_wrt (<) (map tr_index (tracks (fst (scanAudioFiles example_prober example_ab
                                                (map example_file [''c'', ''a'', ''b''])))))"
proof -
  have h: "tracks example_ab = []" by (simp add: example_ab_def)
  from h scanAudioFiles_fresh_strictly_sorted [OF h] show ?thesis by (rule conjI)
qed

text \<open>
  C4: For an audiobook without tracks the committed indices do not depend on the order
  in which the new files are listed.
\<close>

theorem scanAudioFiles_order_independent:
  assumes "tracks ab = []" "mset fs = mset fs'"
  shows "map tr_index (tracks (fst (scanAudioFiles probe ab fs))) =
         map tr_index (tracks (fst (scanAudioFiles probe ab fs')))"
proof -
  have len: "length fs = length fs'" using assms(2) by (metis size_mset)
  have "set fs = set fs'" using assms(2) by (metis set_mset_mset)
  then have "set (batch_candidates probe ab fs) = set (batch_candidates probe ab fs')"
    by (simp add: batch_candidates_def candidates_def len)
  note s = this
  then have e: "batch_candidates probe ab fs = [] \<longleftrightarrow> batch_candidates probe ab fs' = []"
    by (metis set_empty)
  show ?thesis
  proof (cases "batch_candidates probe ab fs = []")
    case True
    with e have T': "batch_candidates probe ab fs' = []" by simp
    from scanAudioFiles_no_commit [OF True] scanAudioFiles_no_commit [OF T'] show ?thesis by simp
  next
    case False
    with e have F': "batch_candidates probe ab fs' \<noteq> []" by simp
    from scanAudioFiles_tracks_plan [OF False] scanAudioFiles_tracks_plan [OF F'] assms(1) s
    show ?thesis by auto
  qed
qed

theorem scanAudioFiles_order_independent_witness:
  "tracks example_ab = [] \<and>
   mset (map example_file [''a'', ''b'', ''c'']) = mset (map example_file [''c'', ''a'', ''b'']) \<and>
   map tr_index (tracks (fst (scanAudioFiles example_prober example_ab (map example_file [''a'', ''b'', ''c''])))) =
   map tr_index (tracks (fst (scanAudioFiles example_prober example_ab (map example_file [''c'', ''a'', ''b'']))))"
proof -
  have h: "tracks example_ab = []" by (simp add: example_ab_def)
  have m: "mset (map example_file [''a'', ''b'', ''c'']) = mset (map example_file [''c'', ''a'', ''b''])"
    by (simp add: add_mset_commute)
  from h m scanAudioFiles_order_independent [OF h m, of example_prober] show ?thesis by simp
qed

text \<open>
  C5: For an audiobook without tracks and a batch whose candidate indices are all
  non-negative, no committed track has index 0.
\<close>

theorem scanAudioFiles_no_zero_index:
  assumes "tracks ab = []" "\<forall>k\<in>set (batch_candidates probe ab fs). TInt 0 \<le> k"
  shows "TInt 0 \<notin> set (map tr_index (tracks (fst (scanAudioFiles probe ab fs))))"
proof (cases "batch_candidates probe ab fs = []")
  case True
  with scanAudioFiles_no_commit [OF True] assms(1) show ?thesis by simp
next
  case False
  have "sorted (sorted_list_of_set (set (batch_candidates probe ab fs)))" by simp
  moreover have "\<forall>k\<in>set (sorted_list_of_set (set (batch_candidates probe ab fs))). TInt 0 \<le> k"
    using assms(2) by simp
  ultimately have "TInt 0 \<notin> set (zero_shift (sorted_list_of_set (set (batch_candidates probe ab fs))))"
    by (rule zero_shift_no_zero)
  with scanAudioFiles_tracks_plan [OF False] assms(1) show ?thesis by auto
qed

theorem scanAudioFiles_no_zero_index_witness:
  "tracks example_ab = [] \<and>
   batch_candidates example_prober example_ab (map example_file [''e'', ''b'']) = [TInt 0, TInt 1] \<and>
   TInt 0 \<notin> set (map tr_index (tracks (fst (scanAudioFiles example_prober example_ab
                                               (map example_file [''e'', ''b''])))))"
proof -
  have h: "tracks example_ab = []" by (simp add: example_ab_def)
  have b: "batch_candidates example_prober example_ab (map example_file [''e'', ''b'']) = [TInt 0, TInt 1]"
    by code_simp
  have "\<forall>k\<in>set (batch_candidates example_prober example_ab (map example_file [''e'', ''b''])). TInt 0 \<le> k"
    unfolding b by simp
  from h b scanAudioFiles_no_zero_index [OF h this] show ?thesis by simp
qed

text \<open>
  C6: A batch of one file that scans successfully is committed as one track with index 1
  into an audiobook without tracks, whatever numbers its tags and name carry.
\<close>

theorem scanAudioFiles_single_file:
  assumes "tracks ab = []" "\<not> isl (scan (probe (fe_fullPath f) False) False)"
  shows "map tr_index (tracks (fst (scanAudioFiles probe ab [f]))) = [TInt 1]"
proof -
  from assms(2) obtain sd where sd: "scan (probe (fe_fullPath f) False) False = Inr sd"
    by (cases "scan (probe (fe_fullPath f) False) False") auto
  then have b: "batch_candidates probe ab [f] = [TInt 1]"
    by (simp add: batch_candidates_def candidates_def file_candidate_def case_prod_beta)
  then have "batch_candidates probe ab [f] \<noteq> []" by simp
  from scanAudioFiles_tracks_plan [OF this] assms(1) b show ?thesis
    by (auto simp: zero_shift_def)
qed

theorem scanAudioFiles_single_file_witness:
  "tracks example_ab = [] \<and> \<not> isl (scan (example_prober (fe_fullPath (example_file ''c'')) False) False) \<and>
   map tr_index (tracks (fst (scanAudioFiles example_prober example_ab [example_file ''c'']))) = [TInt 1]"
proof -
  have h: "tracks example_ab = []" by (simp add: example_ab_def)
  have s: "\<not> isl (scan (example_prober (fe_fullPath (example_file ''c'')) False) False)"
    by code_simp
  from h s scanAudioFiles_single_file [where probe = example_prober and f = "example_file ''c''", OF h s]
  show ?thesis by simp
qed

text \<open>
  C7: When the audiobook already has tracks and the batch commits some, the result is
  the old tracks and the new ones, sorted by index (line 228).
\<close>

theorem scanAudioFiles_merge_sorted:
  assumes "tracks ab \<noteq> []" "batch_candidates probe ab fs \<noteq> []"
  shows "sorted (map tr_index (tracks (fst (scanAudioFiles probe ab fs)))) \<and>
         mset (map tr_index (tracks (fst (scanAudioFiles probe ab fs)))) =
           mset (map tr_index (tracks ab)) +
           mset (zero_shift (sorted_list_of_set (set (batch_candidates probe ab fs))))"
proof -
  from scanAudioFiles_tracks_plan [OF assms(2)] assms(1) obtain new where
    t: "tracks (fst (scanAudioFiles probe ab fs)) = sort_key tr_index (tracks ab @ new)"
    and n: "map tr_index new = zero_shift (sorted_list_of_set (set (batch_candidates probe ab fs)))"
    by auto
  have "mset (map tr_index (sort_key tr_index (tracks ab @ new))) = mset (map tr_index (tracks ab @ new))"
    by (simp add: map_sort_key)
  with t n show ?thesis by (simp add: map_sort_key)
qed

theorem scanAudioFiles_merge_sorted_witness:
  "tracks (fst (scanAudioFiles example_prober example_ab [example_file ''a''])) \<noteq> [] \<and>
   batch_candidates example_prober (fst (scanAudioFiles example_prober example_ab [example_file ''a'']))
     (map example_file [''a'', ''c'']) = [TInt 2, TInt 3] \<and>
   map tr_index (tracks (fst (scanAudioFiles example_prober
       (fst (scanAudioFiles example_prober example_ab [example_file ''a''])) (map example_file [''a'', ''c''])))) =
     [TInt 1, TInt 2, TInt 3]"
proof -
  have h: "tracks (fst (scanAudioFiles example_prober example_ab [example_file ''a''])) \<noteq> []"
    by code_simp
  have b: "batch_candidates example_prober (fst (scanAudioFiles example_prober example_ab [example_file ''a'']))
             (map example_file [''a'', ''c'']) = [TInt 2, TInt 3]"
    by code_simp
  have t1: "map tr_index (tracks (fst (scanAudioFiles example_prober example_ab [example_file ''a'']))) = [TInt 1]"
    by code_simp
  have "batch_candidates example_prober (fst (scanAudioFiles example_prober example_ab [example_file ''a'']))
             (map example_file [''a'', ''c'']) \<noteq> []" unfolding b by simp
  from scanAudioFiles_merge_sorted [OF h this] b t1
  have "sorted (map tr_index (tracks (fst (scanAudioFiles example_prober
       (fst (scanAudioFiles example_prober example_ab [example_file ''a''])) (map example_file [''a'', ''c''])))))"
    "mset (map tr_index (tracks (fst (scanAudioFiles example_prober
       (fst (scanAudioFiles example_prober example_ab [example_file ''a''])) (map example_file [''a'', ''c'']))))) =
     mset [TInt 1, TInt 2, TInt 3]"
    by (simp_all add: sorted_list_of_set_sort_remdups zero_shift_def)
  then have "map tr_index (tracks (fst (scanAudioFiles example_prober
       (fst (scanAudioFiles example_prober example_ab [example_file ''a''])) (map example_file [''a'', ''c''])))) =
     sort [TInt 1, TInt 2, TInt 3]"
    by (metis properties_for_sort)
  with h b show ?thesis by simp
qed

text \<open>
  Every file of the batch is counted at most once: committed, duplicate, or without
  a track number (a failed scan is in none of the three).
\<close>

theorem scan_loop_counts_bound:
  "length (acc_tracks (scan_loop probe ab fs)) + numDuplicateTracks (scan_loop probe ab fs) +
   numInvalidTracks (scan_loop probe ab fs) \<le> length fs"
proof -
  from scan_loop_plan [of probe ab fs]
  have "length (acc_tracks (scan_loop probe ab fs)) = length (committed (batch_plan probe ab fs))"
    "numDuplicateTracks (scan_loop probe ab fs) = count_dup (batch_plan probe ab fs)"
    "numInvalidTracks (scan_loop probe ab fs) = count_invalid (batch_plan probe ab fs)"
    by (auto simp: claimed_indices_def dest: arg_cong [of _ _ length])
  with committed_plan_count [of "batch_plan probe ab fs"] show ?thesis
    by (simp add: batch_plan_def)
qed

text \<open>
  C8: A non-empty batch in which no file yields a candidate index commits nothing: the
  audiobook's tracks are unchanged and the import ends with the \<open>No Tracks\<close> warning.
\<close>

theorem scanAudioFiles_no_valid_index:
  assumes "fs \<noteq> []" "batch_candidates probe ab fs = []"
  shows "tracks (fst (scanAudioFiles probe ab fs)) = tracks ab \<and>
         snd (scanAudioFiles probe ab fs) = acc_log (scan_loop probe ab fs) @ [NoTracks]"
  using scanAudioFiles_no_commit [OF assms(2)] assms(1) by simp

theorem scanAudioFiles_no_valid_index_witness:
  "map example_file [''f'', ''z''] \<noteq> [] \<and>
   batch_candidates example_prober example_ab (map example_file [''f'', ''z'']) = [] \<and>
   tracks (fst (scanAudioFiles example_prober example_ab (map example_file [''f'', ''z'']))) = [] \<and>
   snd (scanAudioFiles example_prober example_ab (map example_file [''f'', ''z''])) =
     acc_log (scan_loop example_prober example_ab (map example_file [''f'', ''z''])) @ [NoTracks]"
proof -
  have n: "map example_file [''f'', ''z''] \<noteq> []" by simp
  have b: "batch_candidates example_prober example_ab (map example_file [''f'', ''z'']) = []"
    by code_simp
  from n b scanAudioFiles_no_valid_index [OF n b] show ?thesis by (simp add: example_ab_def)
qed

subsection \<open>Concrete batches\<close>

text \<open>
  The specification's end-to-end scenario: three files with track tags 2, 1 and 3
  and no numbers in their names import as indices 1, 2, 3, in either input order.
\<close>

theorem scanAudioFiles_example_123:
  "map tr_index (tracks (fst (scanAudioFiles example_prober example_ab (map example_file [''a'', ''b'', ''c''])))) =
     [TInt 1, TInt 2, TInt 3] \<and>
   map tr_index (tracks (fst (scanAudioFiles example_prober example_ab (map example_file [''c'', ''a'', ''b''])))) =
     [TInt 1, TInt 2, TInt 3]"
  by code_simp

text \<open>
  C10: Whenever a batch commits tracks and has index-less files, the last log line is the
  error line of line 204, and it reports the number of duplicate tracks, not of invalid
  ones.
\<close>

theorem invalid_tracks_log_miscount:
  assumes "batch_candidates probe ab fs \<noteq> []" "0 < count_invalid (batch_plan probe ab fs)"
  shows "last (snd (scanAudioFiles probe ab fs)) = InvalidTracksMsg (count_dup (batch_plan probe ab fs))"
proof -
  let ?acc = "scan_loop probe ab fs"
  have c: "committed (batch_plan probe ab fs) \<noteq> []"
    using assms(1) batch_candidates_committed by blast
  then have fs: "fs \<noteq> []" by (auto simp: batch_plan_def committed_def)
  from scan_loop_plan [of probe ab fs]
  have cl: "claimed_indices ?acc = committed (batch_plan probe ab fs)"
    and d: "numDuplicateTracks ?acc = count_dup (batch_plan probe ab fs)"
    and i: "numInvalidTracks ?acc = count_invalid (batch_plan probe ab fs)" by simp_all
  from cl c have "acc_tracks ?acc \<noteq> []" by (auto simp: claimed_indices_def)
  with fs d i assms(2) show ?thesis
    by (simp add: scanAudioFiles_def finish_import_def Let_def)
qed

theorem invalid_tracks_log_miscount_witness:
  "batch_candidates example_prober example_ab (map example_file [''a'', ''f'']) \<noteq> [] \<and>
   0 < count_invalid (batch_plan example_prober example_ab (map example_file [''a'', ''f''])) \<and>
   count_invalid (batch_plan example_prober example_ab (map example_file [''a'', ''f''])) = 1 \<and>
   last (snd (scanAudioFiles example_prober example_ab (map example_file [''a'', ''f'']))) = InvalidTracksMsg 0"
proof -
  let ?fs = "map example_file [''a'', ''f'']"
  have h1: "batch_candidates example_prober example_ab ?fs \<noteq> []" by code_simp
  have h2: "count_invalid (batch_plan example_prober example_ab ?fs) = 1" by code_simp
  have h3: "count_dup (batch_plan example_prober example_ab ?fs) = 0" by code_simp
  from h2 have h2': "0 < count_invalid (batch_plan example_prober example_ab ?fs)" by simp
  from h1 h2 h2' h3 invalid_tracks_log_miscount [OF h1 h2'] show ?thesis by simp
qed

text \<open>
  C11: Duplicates are only detected within a batch: when the audiobook already has a
  track with index \<open>k\<close> and the batch commits \<open>k\<close> again, the merged track list holds
  two tracks with index \<open>k\<close>.
\<close>

theorem scanAudioFiles_duplicate_with_existing:
  assumes "k \<in> set (map tr_index (tracks ab))"
    "k \<in> set (zero_shift (sorted_list_of_set (set (batch_candidates probe ab fs))))"
  shows "2 \<le> count (mset (map tr_index (tracks (fst (scanAudioFiles probe ab fs))))) k"
proof -
  from assms(2) have "batch_candidates probe ab fs \<noteq> []"
    by (auto simp: zero_shift_def)
  from scanAudioFiles_tracks_plan [OF this] obtain new where
    tr: "tracks (fst (scanAudioFiles probe ab fs)) =
           (if tracks ab = [] then new else sort_key tr_index (tracks ab @ new))"
    and idx: "map tr_index new = zero_shift (sorted_list_of_set (set (batch_candidates probe ab fs)))"
    by blast
  from assms(1) have ne: "tracks ab \<noteq> []" by auto
  have "mset (map tr_index (tracks (fst (scanAudioFiles probe ab fs)))) =
        mset (map tr_index (tracks ab)) + mset (map tr_index new)"
    using tr ne by (simp add: map_sort_key)
  moreover have "0 < count (mset (map tr_index (tracks ab))) k" "0 < count (mset (map tr_index new)) k"
    using assms idx by (simp_all only: count_greater_zero_iff in_multiset_in_set)
  ultimately show ?thesis by (simp only: count_union)
qed

theorem scanAudioFiles_duplicate_with_existing_witness:
  "TInt 1 \<in> set (map tr_index (tracks (fst (scanAudioFiles example_prober example_ab [example_file ''a''])))) \<and>
   TInt 1 \<in> set (zero_shift (sorted_list_of_set (set (batch_candidates example_prober
     (fst (scanAudioFiles example_prober example_ab [example_file ''a''])) (map example_file [''b'', ''c'']))))) \<and>
   2 \<le> count (mset (map tr_index (tracks (fst (scanAudioFiles example_prober
     (fst (scanAudioFiles example_prober example_ab [example_file ''a''])) (map example_file [''b'', ''c''])))))) (TInt 1)"
proof -
  let ?ab = "fst (scanAudioFiles example_prober example_ab [example_file ''a''])"
  let ?fs = "map example_file [''b'', ''c'']"
  have h1: "TInt 1 \<in> set (map tr_index (tracks ?ab))" by code_simp
  have h2: "TInt 1 \<in> set (zero_shift (sorted_list_of_set (set (batch_candidates example_prober ?ab ?fs))))"
    by code_simp
  from h1 h2 scanAudioFiles_duplicate_with_existing [OF h1 h2] show ?thesis by simp
qed

text \<open>
  C12: The zero-based correction looks at the smallest index only: for an audiobook
  without tracks, a batch with a negative candidate and the candidate 0 commits an index 0.
\<close>

theorem scanAudioFiles_negative_keeps_zero:
  assumes "tracks ab = []" "TInt 0 \<in> set (batch_candidates probe ab fs)"
    "k \<in> set (batch_candidates probe ab fs)" "k < TInt 0"
  shows "TInt 0 \<in> set (map tr_index (tracks (fst (scanAudioFiles probe ab fs))))"
proof -
  let ?L = "sorted_list_of_set (set (batch_candidates probe ab fs))"
  from assms(2) have ne: "batch_candidates probe ab fs \<noteq> []" by auto
  from scanAudioFiles_tracks_plan [OF ne] assms(1) obtain new where
    tr: "tracks (fst (scanAudioFiles probe ab fs)) = new" and idx: "map tr_index new = zero_shift ?L"
    by auto
  have L: "sorted ?L" "set ?L = set (batch_candidates probe ab fs)" by simp_all
  then obtain m ms where m: "?L = m # ms" using assms(2) by (cases ?L) auto
  with L assms(3) have "m \<le> k" by (metis list.set_intros(1) sorted_simps(2) set_ConsD order_refl)
  with assms(4) have "m \<noteq> TInt 0" by auto
  with m have "zero_shift ?L = ?L" by (simp add: zero_shift_def)
  with tr idx L assms(2) show ?thesis by simp
qed

theorem scanAudioFiles_negative_keeps_zero_witness:
  "tracks example_ab = [] \<and>
   TInt 0 \<in> set (batch_candidates example_prober example_ab (map example_file [''d'', ''e''])) \<and>
   TInt (-1) \<in> set (batch_candidates example_prober example_ab (map example_file [''d'', ''e''])) \<and>
   TInt (-1) < TInt 0 \<and>
   TInt 0 \<in> set (map tr_index (tracks (fst (scanAudioFiles example_prober example_ab (map example_file [''d'', ''e''])))))"
proof -
  let ?fs = "map example_file [''d'', ''e'']"
  have h1: "tracks example_ab = []" by (simp add: example_ab_def)
  have h2: "TInt 0 \<in> set (batch_candidates example_prober example_ab ?fs)" by code_simp
  have h3: "TInt (-1) \<in> set (batch_candidates example_prober example_ab ?fs)" by code_simp
  have h4: "TInt (-1) < TInt 0" by code_simp
  from h1 h2 h3 h4 scanAudioFiles_negative_keeps_zero [OF h1 h2 h3 h4] show ?thesis by simp
qed

lemma scan_file_step_scanned:
  assumes "scan (probe (fe_fullPath f) False) False = Inr sd"
    "resolve_numbers (book (acc_book acc)) (fe_filename f) sd = (tm, tf, cd)"
  shows "scan_file_step probe n acc f =
           (let acc1 = acc\<lparr>acc_book := fst (addAudioFile (acc_book acc) (file_object f sd tm tf cd))\<rparr>;
                a = length (heap (acc_book acc))
            in case (if 1 < n then candidate_index tm tf else Some (TInt 1)) of
                 None \<Rightarrow> acc1\<lparr>acc_book := update_file (acc_book acc1) a
                            (\<lambda>x. x\<lparr>invalid := True, af_error := Some ''Failed to get track number''\<rparr>),
                          numInvalidTracks := Suc (numInvalidTracks acc)\<rparr>
               | Some k \<Rightarrow> assign_index acc1 a k)"
  using assms
  by (cases "1 < n")
     (simp_all add: scan_file_step_def Let_def case_prod_beta heap_addAudioFile(2) split: option.split)

text \<open>
  C9: A file whose candidate index is already held by a file of this batch is added to
  the audiobook marked invalid with the reason \<open>Duplicate track number\<close> and no index;
  the local \<open>tracks\<close> array is unchanged and the duplicate counter grows by one.
\<close>

theorem scan_file_step_duplicate:
  assumes inv: "acc_inv acc"
    and cand: "file_candidate probe (book (acc_book acc)) n f = Inr (Some k)"
    and dup: "k \<in> set (claimed_indices acc)"
  shows "acc_tracks (scan_file_step probe n acc f) = acc_tracks acc \<and>
         numDuplicateTracks (scan_file_step probe n acc f) = Suc (numDuplicateTracks acc) \<and>
         numInvalidTracks (scan_file_step probe n acc f) = numInvalidTracks acc \<and>
         (\<exists>x. heap (acc_book (scan_file_step probe n acc f)) = heap (acc_book acc) @ [x] \<and>
              invalid x \<and> af_error x = Some ''Duplicate track number'' \<and> af_index x = None)"
proof -
  obtain sd where sd: "scan (probe (fe_fullPath f) False) False = Inr sd"
    using cand by (cases "scan (probe (fe_fullPath f) False) False") (simp_all add: file_candidate_def)
  obtain tm tf cd where res: "resolve_numbers (book (acc_book acc)) (fe_filename f) sd = (tm, tf, cd)"
    by (cases "resolve_numbers (book (acc_book acc)) (fe_filename f) sd") auto
  have k: "(if 1 < n then candidate_index tm tf else Some (TInt 1)) = Some k"
    using cand by (simp add: file_candidate_def sd res)
  define x where "x = file_object f sd tm tf cd"
  define acc1 where "acc1 = acc\<lparr>acc_book := fst (addAudioFile (acc_book acc) x)\<rparr>"
  define a where "a = length (heap (acc_book acc))"
  have step: "scan_file_step probe n acc f = assign_index acc1 a k"
    using scan_file_step_scanned [where probe = probe and f = f and acc = acc and n = n, OF sd res] k by (simp add: acc1_def a_def x_def Let_def)
  have ne: "\<forall>t\<in>set (acc_tracks acc1). af_index (heap (acc_book acc1) ! t) \<noteq> None"
    and cl1: "claimed_indices acc1 = claimed_indices acc"
    using acc_inv_add_file [OF inv, of x] by (auto simp: acc1_def acc_inv_def)
  have "k \<in> set (map (file_index (acc_book acc1)) (acc_tracks acc1))"
    using dup cl1 by (simp only: claimed_indices_def)
  then have "index_claimed (acc_book acc1) (acc_tracks acc1) k"
    by (simp only: index_claimed_iff [OF ne])
  then have r: "assign_index acc1 a k =
     acc1\<lparr>acc_book := update_file (acc_book acc1) a
                      (\<lambda>x. x\<lparr>invalid := True, af_error := Some ''Duplicate track number''\<rparr>),
          numDuplicateTracks := Suc (numDuplicateTracks acc1)\<rparr>"
    by (simp add: assign_index_def)
  have "heap (acc_book (assign_index acc1 a k)) =
          heap (acc_book acc) @ [x\<lparr>invalid := True, af_error := Some ''Duplicate track number''\<rparr>]"
    unfolding r by (simp add: acc1_def a_def heap_addAudioFile update_file_def)
  moreover have "af_index x = None" by (simp add: x_def file_object_def)
  ultimately show ?thesis
    unfolding step r by (simp add: acc1_def)
qed

theorem scan_file_step_duplicate_witness:
  "acc_inv (scan_loop example_prober example_ab (map example_file [''a'', ''b''])) \<and>
   file_candidate example_prober (book (acc_book (scan_loop example_prober example_ab (map example_file [''a'', ''b''])))) 3
     (example_file ''a'') = Inr (Some (TInt 2)) \<and>
   TInt 2 \<in> set (claimed_indices (scan_loop example_prober example_ab (map example_file [''a'', ''b'']))) \<and>
   numDuplicateTracks (scan_file_step example_prober 3
     (scan_loop example_prober example_ab (map example_file [''a'', ''b''])) (example_file ''a'')) = 1"
proof -
  let ?acc = "scan_loop example_prober example_ab (map example_file [''a'', ''b''])"
  have inv: "acc_inv ?acc" using scan_loop_plan by blast
  have c: "file_candidate example_prober (book (acc_book ?acc)) 3 (example_file ''a'') = Inr (Some (TInt 2))"
    by code_simp
  have d: "TInt 2 \<in> set (claimed_indices ?acc)"
    by code_simp
  have z: "numDuplicateTracks ?acc = 0" by code_simp
  from inv c d z scan_file_step_duplicate [OF inv c d] show ?thesis by simp
qed

end
