(* ===== verification/Rescan.thy ===== *)
theory Rescan
  imports BatchImport
begin

text \<open>
  The rescan reconciler \<open>rescanAudioFiles\<close> (lines 234--292). The loop over
  \<open>audiobook.audioFiles\<close> is a left fold of \<open>rescan_file_step\<close> over the addresses the
  audiobook holds, threading the audiobook, the \<open>updates\<close> counter and the log. Each
  file is probed again, its numbers resolved as in the batch import, and the result
  written with \<open>updateMetadata\<close>; when that reports a change, the file's track is found
  by \<open>ino\<close>, else (unless the file is excluded) by \<open>path\<close>, and synchronised.
\<close>

record rescan_acc =
  rs_book :: audiobook
  updates :: nat
  rs_log :: "log_msg list"

text \<open>The patch of lines 260--265 for a scan result and the resolver's numbers.\<close>

definition rescan_patch :: "audio_meta \<Rightarrow> tnum option \<Rightarrow> nat option \<Rightarrow> nat option \<Rightarrow> meta_patch" where
  "rescan_patch sd tm tf cd =
     \<lparr>mp_meta = sd, mp_trackNumFromMeta = tm, mp_trackNumFromFilename = tf,
      mp_cdNumFromFilename = cd\<rparr>"

text \<open>
  Lines 268--286, for a file whose update changed it: the track with the file's
  \<open>ino\<close> is synchronised; otherwise, for a file not excluded, the track with its
  \<open>path\<close> gets the file's \<open>ino\<close> and is synchronised, or the orphan is logged.
\<close>

definition sync_track :: "rescan_acc \<Rightarrow> audio_file \<Rightarrow> rescan_acc" where
  "sync_track acc af =
     (let ab = rs_book acc; ts = tracks ab in
      case find_pos (\<lambda>t. tr_ino t = af_ino af) ts of
        Some i \<Rightarrow> acc\<lparr>rs_book := ab\<lparr>tracks := ts[i := syncMetadata (ts ! i) af]\<rparr>\<rparr>
      | None \<Rightarrow>
          if \<not> exclude af then
            (case find_pos (\<lambda>t. tr_path t = af_path af) ts of
               Some i \<Rightarrow>
                 acc\<lparr>rs_book := ab\<lparr>tracks := ts[i := syncMetadata ((ts ! i)\<lparr>tr_ino := af_ino af\<rparr>) af]\<rparr>,
                     rs_log := rs_log acc @ [InoMismatch (af_filename af)]\<rparr>
             | None \<Rightarrow> acc\<lparr>rs_log := rs_log acc @ [NoMatchingTrack (af_filename af)]\<rparr>)
          else acc)"

text \<open>One iteration of the loop of lines 238--289, for the file at address \<open>a\<close>.\<close>

definition rescan_file_step :: "prober \<Rightarrow> rescan_acc \<Rightarrow> addr \<Rightarrow> rescan_acc" where
  "rescan_file_step probe acc a =
     (let ab = rs_book acc; af = heap ab ! a in
      case scan (probe (af_fullPath af) False) False of
        Inl _ \<Rightarrow> acc\<lparr>rs_log := rs_log acc @ [ScanFailed (af_path af)]\<rparr>
      | Inr sd \<Rightarrow>
          (let (tm, tf, cd) = resolve_numbers (book ab) (af_filename af) sd;
               (af', hasUpdates) = updateMetadata af (rescan_patch sd tm tf cd);
               acc1 = acc\<lparr>rs_book := update_file ab a (\<lambda>_. af')\<rparr>
           in if hasUpdates then (sync_track acc1 af')\<lparr>updates := Suc (updates acc)\<rparr> else acc1))"

text \<open>Lines 235--236: the loop starts with no update and an empty log.\<close>

definition rescan_start :: "audiobook \<Rightarrow> rescan_acc" where
  "rescan_start ab = \<lparr>rs_book = ab, updates = 0, rs_log = []\<rparr>"

text \<open>
  The loop of lines 238--289. Its bound \<open>audioFiles.length\<close> is read again on every
  iteration from the array the audiobook shares with the loop (line 235), so the loop
  is a recursion on the index with that bound, not a fold over a fixed list. It ends
  because no iteration changes the audiobook's \<open>audioFiles\<close> array.
\<close>

function (domintros) rescan_loop :: "prober \<Rightarrow> rescan_acc \<Rightarrow> nat \<Rightarrow> rescan_acc" where
  "rescan_loop probe acc i =
     (if i < length (audioFiles (rs_book acc))
      then rescan_loop probe (rescan_file_step probe acc (audioFiles (rs_book acc) ! i)) (Suc i)
      else acc)"
  by pat_completeness auto
termination
  by (relation "measure (\<lambda>(probe, acc, i). length (audioFiles (rs_book acc)) - i)")
     (auto simp: rescan_file_step_def sync_track_def update_file_def Let_def case_prod_beta
           split: sum.splits option.splits)

definition rescanAudioFiles :: "prober \<Rightarrow> audiobook \<Rightarrow> audiobook \<times> nat \<times> log_msg list" where
  "rescanAudioFiles probe ab =
     (let acc = rescan_loop probe (rescan_start ab) 0
      in (rs_book acc, updates acc, rs_log acc))"

text \<open>
  What lines 240--266 compute for one file: nothing when the probe fails, else the
  updated object and \<open>hasUpdates\<close>. A file is settled when rescanning it would report
  no update.
\<close>

definition rescan_update :: "prober \<Rightarrow> book_ctx \<Rightarrow> audio_file \<Rightarrow> (audio_file \<times> bool) option" where
  "rescan_update probe b af =
     (case scan (probe (af_fullPath af) False) False of
        Inl _ \<Rightarrow> None
      | Inr sd \<Rightarrow> (case resolve_numbers b (af_filename af) sd of
                    (tm, tf, cd) \<Rightarrow> Some (updateMetadata af (rescan_patch sd tm tf cd))))"

definition rescan_settled :: "prober \<Rightarrow> book_ctx \<Rightarrow> audio_file \<Rightarrow> bool" where
  "rescan_settled probe b af \<longleftrightarrow>
     (case rescan_update probe b af of None \<Rightarrow> True | Some (_, changed) \<Rightarrow> \<not> changed)"

subsection \<open>Example inputs\<close>

text \<open>
  The audiobook the batch import builds from the files \<open>a\<close>, \<open>b\<close>, \<open>c\<close>, and a
  prober under which the file \<open>a\<close> has been retagged with track 7.
\<close>

definition example_imported :: audiobook where
  "example_imported = fst (scanAudioFiles example_prober example_ab (map example_file [''a'', ''b'', ''c'']))"

definition example_mismatched :: audiobook where
  "example_mismatched =
     example_imported\<lparr>tracks := map (\<lambda>t. if tr_ino t = ''a'' then t\<lparr>tr_ino := ''a-old''\<rparr> else t)
                                    (tracks example_imported)\<rparr>"

definition example_orphaned :: audiobook where
  "example_orphaned =
     example_imported\<lparr>tracks := map (\<lambda>t. if tr_ino t = ''a''
                                         then t\<lparr>tr_ino := ''a-old'', tr_path := ''book/gone.mp3''\<rparr> else t)
                                    (tracks example_imported)\<rparr>"

definition example_retagged :: prober where
  "example_retagged p verbose =
     (if p = ''/book/a.mp3'' then Some (example_probe\<lparr>pd_fields := [(''file_tag_track'', ''7'')]\<rparr>)
      else example_prober p verbose)"

subsection \<open>Frame facts\<close>

lemma sync_track_frame [simp]:
  "heap (rs_book (sync_track acc af)) = heap (rs_book acc)"
  "book (rs_book (sync_track acc af)) = book (rs_book acc)"
  "audioFiles (rs_book (sync_track acc af)) = audioFiles (rs_book acc)"
  "length (tracks (rs_book (sync_track acc af))) = length (tracks (rs_book acc))"
  "map tr_index (tracks (rs_book (sync_track acc af))) = map tr_index (tracks (rs_book acc))"
  "updates (sync_track acc af) = updates acc"
  by (auto simp: sync_track_def Let_def syncMetadata_def map_update nth_list_update
           split: option.splits dest!: find_pos_SomeD intro!: nth_equalityI)

lemma rescan_file_step_frame [simp]:
  "book (rs_book (rescan_file_step probe acc a)) = book (rs_book acc)"
  "audioFiles (rs_book (rescan_file_step probe acc a)) = audioFiles (rs_book acc)"
  "length (heap (rs_book (rescan_file_step probe acc a))) = length (heap (rs_book acc))"
  "length (tracks (rs_book (rescan_file_step probe acc a))) = length (tracks (rs_book acc))"
  "map tr_index (tracks (rs_book (rescan_file_step probe acc a))) = map tr_index (tracks (rs_book acc))"
  by (auto simp: rescan_file_step_def Let_def update_file_def case_prod_beta
           split: sum.splits)

lemma updates_rescan_file_step:
  "updates (rescan_file_step probe acc a) \<le> Suc (updates acc)"
  by (auto simp: rescan_file_step_def Let_def case_prod_beta split: sum.splits)

subsection \<open>A rescan settles every file\<close>

lemma updateMetadata_keeps [simp]:
  "af_fullPath (fst (updateMetadata af p)) = af_fullPath af"
  "af_filename (fst (updateMetadata af p)) = af_filename af"
  "af_ino (fst (updateMetadata af p)) = af_ino af"
  "af_path (fst (updateMetadata af p)) = af_path af"
  "exclude (fst (updateMetadata af p)) = exclude af"
  by (simp_all add: updateMetadata_def Let_def)

lemma updateMetadata_idem [simp]:
  "updateMetadata (fst (updateMetadata af p)) p = (fst (updateMetadata af p), False)"
  by (simp add: updateMetadata_def Let_def)

lemma updateMetadata_unchanged:
  "\<not> snd (updateMetadata af p) \<Longrightarrow> fst (updateMetadata af p) = af"
  by (simp add: updateMetadata_def Let_def)

lemma heap_rescan_file_step:
  "heap (rs_book (rescan_file_step probe acc a)) =
     (let af = heap (rs_book acc) ! a in
      case scan (probe (af_fullPath af) False) False of
        Inl _ \<Rightarrow> heap (rs_book acc)
      | Inr sd \<Rightarrow> (case resolve_numbers (book (rs_book acc)) (af_filename af) sd of
                    (tm, tf, cd) \<Rightarrow> (heap (rs_book acc))[a := fst (updateMetadata af (rescan_patch sd tm tf cd))]))"
  by (auto simp: rescan_file_step_def Let_def update_file_def case_prod_beta split: sum.splits prod.splits)

lemma rescan_file_step_settles:
  assumes "a < length (heap (rs_book acc))"
  shows "rescan_settled probe (book (rs_book acc)) (heap (rs_book (rescan_file_step probe acc a)) ! a)"
  using assms
  by (auto simp: heap_rescan_file_step rescan_settled_def rescan_update_def Let_def
           split: sum.splits prod.splits)

lemma rescan_file_step_other:
  "b \<noteq> a \<Longrightarrow> heap (rs_book (rescan_file_step probe acc a)) ! b = heap (rs_book acc) ! b"
  by (auto simp: heap_rescan_file_step Let_def split: sum.splits prod.splits)

lemma rescan_file_step_settled:
  assumes "a < length (heap (rs_book acc))" "rescan_settled probe (book (rs_book acc)) (heap (rs_book acc) ! a)"
  shows "rs_book (rescan_file_step probe acc a) = rs_book acc \<and> updates (rescan_file_step probe acc a) = updates acc"
  using assms
  by (auto simp: rescan_file_step_def rescan_settled_def rescan_update_def Let_def update_file_def
                 case_prod_beta updateMetadata_unchanged split: sum.splits prod.splits option.splits)

lemma foldl_rescan_settles:
  assumes "\<forall>a\<in>set xs. a < length (heap (rs_book acc))"
  shows "\<forall>a\<in>set xs. rescan_settled probe (book (rs_book acc))
                     (heap (rs_book (foldl (rescan_file_step probe) acc xs)) ! a)"
  using assms
proof (induction xs arbitrary: acc rule: rev_induct)
  case Nil
  then show ?case by simp
next
  case (snoc x xs)
  let ?acc = "foldl (rescan_file_step probe) acc xs"
  have len: "length (heap (rs_book ?acc)) = length (heap (rs_book acc))"
    by (induction xs rule: rev_induct) simp_all
  have bk: "book (rs_book ?acc) = book (rs_book acc)"
    by (induction xs rule: rev_induct) simp_all
  have IH: "\<forall>a\<in>set xs. rescan_settled probe (book (rs_book acc)) (heap (rs_book ?acc) ! a)"
    using snoc by simp
  have x: "rescan_settled probe (book (rs_book acc)) (heap (rs_book (rescan_file_step probe ?acc x)) ! x)"
    using rescan_file_step_settles [of x ?acc probe] snoc.prems len bk by simp
  show ?case
  proof
    fix a assume "a \<in> set (xs @ [x])"
    then show "rescan_settled probe (book (rs_book acc))
                 (heap (rs_book (foldl (rescan_file_step probe) acc (xs @ [x]))) ! a)"
      using IH x rescan_file_step_other [of a x probe ?acc] by (cases "a = x") auto
  qed
qed

lemma foldl_rescan_settled:
  assumes "\<forall>a\<in>set xs. a < length (heap (rs_book acc)) \<and> rescan_settled probe (book (rs_book acc)) (heap (rs_book acc) ! a)"
  shows "rs_book (foldl (rescan_file_step probe) acc xs) = rs_book acc \<and>
         updates (foldl (rescan_file_step probe) acc xs) = updates acc"
  using assms
proof (induction xs arbitrary: acc)
  case Nil
  then show ?case by simp
next
  case (Cons x xs)
  from Cons.prems rescan_file_step_settled [of x acc probe]
  have s: "rs_book (rescan_file_step probe acc x) = rs_book acc"
    "updates (rescan_file_step probe acc x) = updates acc" by simp_all
  from Cons.prems have "\<forall>a\<in>set xs. a < length (heap (rs_book (rescan_file_step probe acc x))) \<and>
     rescan_settled probe (book (rs_book (rescan_file_step probe acc x))) (heap (rs_book (rescan_file_step probe acc x)) ! a)"
    by (simp add: s)
  from Cons.IH [OF this] s show ?case by simp
qed

lemma foldl_rescan_frame:
  "book (rs_book (foldl (rescan_file_step probe) acc xs)) = book (rs_book acc) \<and>
   audioFiles (rs_book (foldl (rescan_file_step probe) acc xs)) = audioFiles (rs_book acc) \<and>
   length (heap (rs_book (foldl (rescan_file_step probe) acc xs))) = length (heap (rs_book acc)) \<and>
   map tr_index (tracks (rs_book (foldl (rescan_file_step probe) acc xs))) = map tr_index (tracks (rs_book acc))"
  by (induction xs arbitrary: acc) simp_all

declare rescan_loop.simps [simp del]

text \<open>The index loop is the fold over the addresses from the current index.\<close>

lemma rescan_loop_foldl:
  "rescan_loop probe acc i = foldl (rescan_file_step probe) acc (drop i (audioFiles (rs_book acc)))"
proof (induction probe acc i rule: rescan_loop.induct)
  case (1 probe acc i)
  show ?case
  proof (cases "i < length (audioFiles (rs_book acc))")
    case True
    then have "drop i (audioFiles (rs_book acc)) =
                 audioFiles (rs_book acc) ! i # drop (Suc i) (audioFiles (rs_book acc))"
      by (simp add: Cons_nth_drop_Suc)
    with True "1.IH" show ?thesis by (subst rescan_loop.simps) simp
  next
    case False
    then show ?thesis by (subst rescan_loop.simps) simp
  qed
qed

lemma rescanAudioFiles_foldl:
  "rescanAudioFiles probe ab =
     (let acc = foldl (rescan_file_step probe) (rescan_start ab) (audioFiles ab)
      in (rs_book acc, updates acc, rs_log acc))"
  by (simp add: rescanAudioFiles_def rescan_loop_foldl rescan_start_def)

lemma foldl_rescan_updates:
  "updates (foldl (rescan_file_step probe) acc xs) \<le> updates acc + length xs"
proof (induction xs arbitrary: acc)
  case Nil
  then show ?case by simp
next
  case (Cons x xs)
  from Cons.IH [of "rescan_file_step probe acc x"] updates_rescan_file_step [of probe acc x]
  show ?case by simp
qed

text \<open>C13: A second rescan with the same prober changes nothing and counts no update.\<close>

theorem rescanAudioFiles_idempotent:
  assumes "wf_book ab"
  shows "fst (rescanAudioFiles probe (fst (rescanAudioFiles probe ab))) = fst (rescanAudioFiles probe ab) \<and>
         fst (snd (rescanAudioFiles probe (fst (rescanAudioFiles probe ab)))) = 0"
proof -
  let ?start = "rescan_start ab"
  let ?acc = "foldl (rescan_file_step probe) ?start (audioFiles ab)"
  have fr: "book (rs_book ?acc) = book ab" "audioFiles (rs_book ?acc) = audioFiles ab"
    "length (heap (rs_book ?acc)) = length (heap ab)"
    using foldl_rescan_frame [where probe = probe and acc = ?start and xs = "audioFiles ab"]
    by (simp_all add: rescan_start_def)
  have lt: "\<forall>a\<in>set (audioFiles ab). a < length (heap ab)"
    using assms by (simp add: wf_book_def)
  then have st: "\<forall>a\<in>set (audioFiles ab). rescan_settled probe (book ab) (heap (rs_book ?acc) ! a)"
    using foldl_rescan_settles [where xs = "audioFiles ab" and acc = ?start and probe = probe] fr
    by (simp add: rescan_start_def)
  let ?again = "rescan_start (rs_book ?acc)"
  have "\<forall>a\<in>set (audioFiles (rs_book ?acc)). a < length (heap (rs_book ?again)) \<and>
          rescan_settled probe (book (rs_book ?again)) (heap (rs_book ?again) ! a)"
    using lt st fr by (simp add: rescan_start_def)
  from foldl_rescan_settled [OF this] show ?thesis
    by (simp add: rescanAudioFiles_foldl Let_def rescan_start_def)
qed

subsection \<open>One file\<close>

lemma rescan_update_Some:
  assumes "rescan_update probe (book (rs_book acc)) (heap (rs_book acc) ! a) = Some (af', changed)"
  shows "rescan_file_step probe acc a =
           (let acc1 = acc\<lparr>rs_book := update_file (rs_book acc) a (\<lambda>_. af')\<rparr>
            in if changed then (sync_track acc1 af')\<lparr>updates := Suc (updates acc)\<rparr> else acc1)"
  using assms
  by (auto simp: rescan_update_def rescan_file_step_def Let_def case_prod_beta split: sum.splits prod.splits)

lemma updateMetadata_False: "updateMetadata af p = (af', False) \<Longrightarrow> af' = af"
  by (auto simp: updateMetadata_def Let_def)

lemma rescan_update_ino:
  "rescan_update probe b af = Some (af', changed) \<Longrightarrow> af_ino af' = af_ino af \<and> af_path af' = af_path af \<and>
   af_filename af' = af_filename af \<and> exclude af' = exclude af"
  by (auto simp: rescan_update_def updateMetadata_def Let_def split: sum.splits prod.splits)

text \<open>
  C14: Rescanning a file whose update reports no change (\<open>hasUpdates = false\<close>) leaves
  the audiobook, its tracks included, untouched and counts no update.
\<close>

theorem rescan_step_unchanged:
  assumes "a < length (heap (rs_book acc))"
    "rescan_update probe (book (rs_book acc)) (heap (rs_book acc) ! a) = Some (af', False)"
  shows "rs_book (rescan_file_step probe acc a) = rs_book acc \<and>
         updates (rescan_file_step probe acc a) = updates acc"
proof -
  from assms(2) have "af' = heap (rs_book acc) ! a"
    by (auto simp: rescan_update_def split: sum.splits prod.splits dest: updateMetadata_False)
  with rescan_update_Some [OF assms(2)] assms(1) show ?thesis
    by (simp add: update_file_def)
qed

text \<open>
  C15: When the update changed the file and a track has the file's \<open>ino\<close>, the first such
  track takes the file's new metadata, the update is counted and nothing is logged.
\<close>

theorem rescan_step_ino_match:
  assumes "rescan_update probe (book (rs_book acc)) (heap (rs_book acc) ! a) = Some (af', True)"
    "find_pos (\<lambda>t. tr_ino t = af_ino (heap (rs_book acc) ! a)) (tracks (rs_book acc)) = Some i"
  shows "tracks (rs_book (rescan_file_step probe acc a)) =
           (tracks (rs_book acc))[i := (tracks (rs_book acc) ! i)\<lparr>tr_meta := af_meta af'\<rparr>] \<and>
         updates (rescan_file_step probe acc a) = Suc (updates acc) \<and>
         rs_log (rescan_file_step probe acc a) = rs_log acc"
  using rescan_update_Some [OF assms(1)] rescan_update_ino [OF assms(1)] assms(2)
  by (simp add: sync_track_def update_file_def syncMetadata_def Let_def)

text \<open>
  C16: When the update changed a file that is not excluded and no track has its \<open>ino\<close>,
  the first track with its \<open>path\<close> gets the file's \<open>ino\<close> and new metadata (one
  synchronisation), the mismatch is logged and the update counted.
\<close>

theorem rescan_step_path_fallback:
  assumes "rescan_update probe (book (rs_book acc)) (heap (rs_book acc) ! a) = Some (af', True)"
    "find_pos (\<lambda>t. tr_ino t = af_ino (heap (rs_book acc) ! a)) (tracks (rs_book acc)) = None"
    "\<not> exclude (heap (rs_book acc) ! a)"
    "find_pos (\<lambda>t. tr_path t = af_path (heap (rs_book acc) ! a)) (tracks (rs_book acc)) = Some i"
  shows "tracks (rs_book (rescan_file_step probe acc a)) =
           (tracks (rs_book acc))[i := (tracks (rs_book acc) ! i)\<lparr>tr_ino := af_ino af', tr_meta := af_meta af'\<rparr>] \<and>
         updates (rescan_file_step probe acc a) = Suc (updates acc) \<and>
         rs_log (rescan_file_step probe acc a) = rs_log acc @ [InoMismatch (af_filename af')]"
  using rescan_update_Some [OF assms(1)] rescan_update_ino [OF assms(1)] assms(2-4)
  by (simp add: sync_track_def update_file_def syncMetadata_def Let_def)

text \<open>
  C17: When the update changed a file that is not excluded and no track has its \<open>ino\<close>
  or its \<open>path\<close>, the orphan is logged, no track is created or changed, the file stays
  not excluded (line 284 is commented out), and the update is still counted.
\<close>

theorem rescan_step_orphan:
  assumes "a < length (heap (rs_book acc))"
    "rescan_update probe (book (rs_book acc)) (heap (rs_book acc) ! a) = Some (af', True)"
    "find_pos (\<lambda>t. tr_ino t = af_ino (heap (rs_book acc) ! a)) (tracks (rs_book acc)) = None"
    "\<not> exclude (heap (rs_book acc) ! a)"
    "find_pos (\<lambda>t. tr_path t = af_path (heap (rs_book acc) ! a)) (tracks (rs_book acc)) = None"
  shows "tracks (rs_book (rescan_file_step probe acc a)) = tracks (rs_book acc) \<and>
         updates (rescan_file_step probe acc a) = Suc (updates acc) \<and>
         rs_log (rescan_file_step probe acc a) = rs_log acc @ [NoMatchingTrack (af_filename af')] \<and>
         \<not> exclude (heap (rs_book (rescan_file_step probe acc a)) ! a)"
  using rescan_update_Some [OF assms(2)] rescan_update_ino [OF assms(2)] assms(1,3-5)
  by (simp add: sync_track_def update_file_def Let_def)

subsection \<open>The whole rescan\<close>

text \<open>
  C18: A rescan never adds, removes or renumbers tracks or audio files: the book context,
  the \<open>audioFiles\<close> array, the number of audio file objects and the track indices are
  unchanged.
\<close>

theorem rescanAudioFiles_structure:
  "book (fst (rescanAudioFiles probe ab)) = book ab \<and>
   audioFiles (fst (rescanAudioFiles probe ab)) = audioFiles ab \<and>
   length (heap (fst (rescanAudioFiles probe ab))) = length (heap ab) \<and>
   map tr_index (tracks (fst (rescanAudioFiles probe ab))) = map tr_index (tracks ab)"
  using foldl_rescan_frame [where probe = probe and acc = "rescan_start ab"
                              and xs = "audioFiles ab"]
  by (simp add: rescanAudioFiles_foldl Let_def rescan_start_def)

text \<open>The update count is at most the number of audio files.\<close>

theorem rescanAudioFiles_updates_bound:
  "fst (snd (rescanAudioFiles probe ab)) \<le> length (audioFiles ab)"
  using foldl_rescan_updates [where probe = probe and acc = "rescan_start ab"
                                and xs = "audioFiles ab"]
  by (simp add: rescanAudioFiles_foldl Let_def rescan_start_def)

text \<open>
  C19: The rescan loop terminates for every prober, state and start index, although its
  bound is read from the mutable audiobook on each iteration; the array it iterates over
  is the same when it ends.
\<close>

theorem rescan_loop_terminates:
  "rescan_loop_dom (probe, acc, i) \<and>
   audioFiles (rs_book (rescan_loop probe acc i)) = audioFiles (rs_book acc)"
proof
  have "rescan_loop_dom (probe, acc, i)" if "length (audioFiles (rs_book acc)) - i = k" for k acc i
    using that
  proof (induction k arbitrary: acc i)
    case 0
    show ?case
    proof (rule rescan_loop.domintros)
      assume "i < length (audioFiles (rs_book acc))"
      with "0.prems" show "rescan_loop_dom (probe, rescan_file_step probe acc (audioFiles (rs_book acc) ! i), Suc i)"
        by simp
    qed
  next
    case (Suc k)
    show ?case
    proof (rule rescan_loop.domintros)
      assume "i < length (audioFiles (rs_book acc))"
      with Suc.prems show "rescan_loop_dom (probe, rescan_file_step probe acc (audioFiles (rs_book acc) ! i), Suc i)"
        by (intro Suc.IH) simp
    qed
  qed
  then show "rescan_loop_dom (probe, acc, i)" by simp
  show "audioFiles (rs_book (rescan_loop probe acc i)) = audioFiles (rs_book acc)"
    using foldl_rescan_frame [where probe = probe and acc = acc] by (simp add: rescan_loop_foldl)
qed

subsection \<open>The rescan's contract on examples\<close>

lemma Some_the_True: "x \<noteq> None \<and> snd (the x) \<Longrightarrow> x = Some (fst (the x), True)"
  by (cases x) auto

theorem rescanAudioFiles_idempotent_witness:
  "wf_book example_imported \<and>
   fst (rescanAudioFiles example_retagged (fst (rescanAudioFiles example_retagged example_imported))) =
     fst (rescanAudioFiles example_retagged example_imported) \<and>
   fst (snd (rescanAudioFiles example_retagged (fst (rescanAudioFiles example_retagged example_imported)))) = 0"
proof -
  have h: "wf_book example_imported" by code_simp
  from h rescanAudioFiles_idempotent [OF h, of example_retagged] show ?thesis by simp
qed

theorem rescan_step_unchanged_witness:
  "0 < length (heap (rs_book (rescan_start example_imported))) \<and>
   rescan_update example_prober (book (rs_book (rescan_start example_imported)))
     (heap (rs_book (rescan_start example_imported)) ! 0) = Some (heap example_imported ! 0, False) \<and>
   rs_book (rescan_file_step example_prober (rescan_start example_imported) 0) = example_imported \<and>
   updates (rescan_file_step example_prober (rescan_start example_imported) 0) = 0"
proof -
  have l: "0 < length (heap (rs_book (rescan_start example_imported)))" by code_simp
  have u: "rescan_update example_prober (book (rs_book (rescan_start example_imported)))
             (heap (rs_book (rescan_start example_imported)) ! 0) = Some (heap example_imported ! 0, False)"
    by code_simp
  from l u rescan_step_unchanged [OF l u] show ?thesis by (simp add: rescan_start_def)
qed

theorem rescan_step_ino_match_witness:
  "rescan_update example_retagged (book (rs_book (rescan_start example_imported)))
     (heap (rs_book (rescan_start example_imported)) ! 0) =
     Some (fst (the (rescan_update example_retagged (book example_imported) (heap example_imported ! 0))), True) \<and>
   find_pos (\<lambda>t. tr_ino t = af_ino (heap (rs_book (rescan_start example_imported)) ! 0))
     (tracks (rs_book (rescan_start example_imported))) = Some 1 \<and>
   updates (rescan_file_step example_retagged (rescan_start example_imported) 0) = 1 \<and>
   rs_log (rescan_file_step example_retagged (rescan_start example_imported) 0) = []"
proof -
  have "rescan_update example_retagged (book example_imported) (heap example_imported ! 0) \<noteq> None \<and>
        snd (the (rescan_update example_retagged (book example_imported) (heap example_imported ! 0)))"
    by code_simp
  then have u: "rescan_update example_retagged (book (rs_book (rescan_start example_imported)))
     (heap (rs_book (rescan_start example_imported)) ! 0) =
     Some (fst (the (rescan_update example_retagged (book example_imported) (heap example_imported ! 0))), True)"
    by (simp add: rescan_start_def Some_the_True)
  have f: "find_pos (\<lambda>t. tr_ino t = af_ino (heap (rs_book (rescan_start example_imported)) ! 0))
     (tracks (rs_book (rescan_start example_imported))) = Some 1"
    by code_simp
  from u f rescan_step_ino_match [OF u f] show ?thesis by (simp add: rescan_start_def)
qed

theorem rescan_step_path_fallback_witness:
  "rescan_update example_retagged (book (rs_book (rescan_start example_mismatched)))
     (heap (rs_book (rescan_start example_mismatched)) ! 0) =
     Some (fst (the (rescan_update example_retagged (book example_mismatched) (heap example_mismatched ! 0))), True) \<and>
   find_pos (\<lambda>t. tr_ino t = af_ino (heap (rs_book (rescan_start example_mismatched)) ! 0))
     (tracks (rs_book (rescan_start example_mismatched))) = None \<and>
   \<not> exclude (heap (rs_book (rescan_start example_mismatched)) ! 0) \<and>
   find_pos (\<lambda>t. tr_path t = af_path (heap (rs_book (rescan_start example_mismatched)) ! 0))
     (tracks (rs_book (rescan_start example_mismatched))) = Some 1 \<and>
   updates (rescan_file_step example_retagged (rescan_start example_mismatched) 0) = 1 \<and>
   rs_log (rescan_file_step example_retagged (rescan_start example_mismatched) 0) = [InoMismatch ''a.mp3'']"
proof -
  have "rescan_update example_retagged (book example_mismatched) (heap example_mismatched ! 0) \<noteq> None \<and>
        snd (the (rescan_update example_retagged (book example_mismatched) (heap example_mismatched ! 0)))"
    by code_simp
  then have u: "rescan_update example_retagged (book (rs_book (rescan_start example_mismatched)))
     (heap (rs_book (rescan_start example_mismatched)) ! 0) =
     Some (fst (the (rescan_update example_retagged (book example_mismatched) (heap example_mismatched ! 0))), True)"
    by (simp add: rescan_start_def Some_the_True)
  have n: "find_pos (\<lambda>t. tr_ino t = af_ino (heap (rs_book (rescan_start example_mismatched)) ! 0))
     (tracks (rs_book (rescan_start example_mismatched))) = None"
    by code_simp
  have e: "\<not> exclude (heap (rs_book (rescan_start example_mismatched)) ! 0)"
    by code_simp
  have p: "find_pos (\<lambda>t. tr_path t = af_path (heap (rs_book (rescan_start example_mismatched)) ! 0))
     (tracks (rs_book (rescan_start example_mismatched))) = Some 1"
    by code_simp
  have fn: "af_filename (fst (the (rescan_update example_retagged (book example_mismatched)
                                   (heap example_mismatched ! 0)))) = ''a.mp3''"
    by code_simp
  from u n e p fn rescan_step_path_fallback [OF u n e p] show ?thesis by (simp add: rescan_start_def)
qed

theorem rescan_step_orphan_witness:
  "0 < length (heap (rs_book (rescan_start example_orphaned))) \<and>
   rescan_update example_retagged (book (rs_book (rescan_start example_orphaned)))
     (heap (rs_book (rescan_start example_orphaned)) ! 0) =
     Some (fst (the (rescan_update example_retagged (book example_orphaned) (heap example_orphaned ! 0))), True) \<and>
   find_pos (\<lambda>t. tr_ino t = af_ino (heap (rs_book (rescan_start example_orphaned)) ! 0))
     (tracks (rs_book (rescan_start example_orphaned))) = None \<and>
   \<not> exclude (heap (rs_book (rescan_start example_orphaned)) ! 0) \<and>
   find_pos (\<lambda>t. tr_path t = af_path (heap (rs_book (rescan_start example_orphaned)) ! 0))
     (tracks (rs_book (rescan_start example_orphaned))) = None \<and>
   tracks (rs_book (rescan_file_step example_retagged (rescan_start example_orphaned) 0)) = tracks example_orphaned \<and>
   rs_log (rescan_file_step example_retagged (rescan_start example_orphaned) 0) = [NoMatchingTrack ''a.mp3'']"
proof -
  have l: "0 < length (heap (rs_book (rescan_start example_orphaned)))" by code_simp
  have "rescan_update example_retagged (book example_orphaned) (heap example_orphaned ! 0) \<noteq> None \<and>
        snd (the (rescan_update example_retagged (book example_orphaned) (heap example_orphaned ! 0)))"
    by code_simp
  then have u: "rescan_update example_retagged (book (rs_book (rescan_start example_orphaned)))
     (heap (rs_book (rescan_start example_orphaned)) ! 0) =
     Some (fst (the (rescan_update example_retagged (book example_orphaned) (heap example_orphaned ! 0))), True)"
    by (simp add: rescan_start_def Some_the_True)
  have n: "find_pos (\<lambda>t. tr_ino t = af_ino (heap (rs_book (rescan_start example_orphaned)) ! 0))
     (tracks (rs_book (rescan_start example_orphaned))) = None"
    by code_simp
  have e: "\<not> exclude (heap (rs_book (rescan_start example_orphaned)) ! 0)"
    by code_simp
  have p: "find_pos (\<lambda>t. tr_path t = af_path (heap (rs_book (rescan_start example_orphaned)) ! 0))
     (tracks (rs_book (rescan_start example_orphaned))) = None"
    by code_simp
  have fn: "af_filename (fst (the (rescan_update example_retagged (book example_orphaned)
                                   (heap example_orphaned ! 0)))) = ''a.mp3''"
    by code_simp
  from l u n e p fn rescan_step_orphan [OF l u n e p] show ?thesis by (simp add: rescan_start_def)
qed

end
