(* ===== verification/Diagnostics.thy ===== *)
theory Diagnostics
  imports Rescan
begin

text \<open>
  The track diagnostics reporter \<open>scanTrackNumbers\<close> (lines 295--316): for each track,
  a verbose probe of its file and the numbers the resolver reads from it, beside the
  track's current index. The reporter returns the records and changes nothing; the
  \<open>Logger.info\<close> line of line 305 is not modelled. A failed scan returns the object
  \<open>{error}\<close>, whose \<open>trackNumber\<close>, \<open>file_tag_track\<close> and \<open>rawTags\<close> are
  \<open>undefined\<close>: the record then has no metadata number, no tag and \<open>null\<close> raw tags.
\<close>

record track_num_data =
  tnd_filename :: string
  currentTrackNum :: tnum
  tnd_trackNumFromFilename :: "nat option"
  tnd_trackNumFromMeta :: "tnum option"
  scanDataTrackNum :: "string option"
  tnd_rawTags :: "raw_tags option"

text \<open>Lines 299--313, for one track.\<close>

definition track_diagnostic :: "prober \<Rightarrow> book_ctx \<Rightarrow> track \<Rightarrow> track_num_data" where
  "track_diagnostic probe b t =
     (let r = scan (probe (tr_fullPath t) True) True in
      \<lparr>tnd_filename = tr_filename t,
       currentTrackNum = tr_index t,
       tnd_trackNumFromFilename = getTrackNumberFromFilename b (tr_filename t),
       tnd_trackNumFromMeta = (case r of Inl _ \<Rightarrow> None | Inr sd \<Rightarrow> getTrackNumberFromMeta sd),
       scanDataTrackNum = (case r of Inl _ \<Rightarrow> None | Inr sd \<Rightarrow> map_of (file_tags sd) ''file_tag_track''),
       tnd_rawTags = (case r of Inl _ \<Rightarrow> None | Inr sd \<Rightarrow> rawTags sd)\<rparr>)"

definition scanTrackNumbers :: "prober \<Rightarrow> audiobook \<Rightarrow> track_num_data list" where
  "scanTrackNumbers probe ab = map (track_diagnostic probe (book ab)) (tracks ab)"

text \<open>An example track named \<open>cd 3.mp3\<close> whose file has no tags and cannot be probed.\<close>

definition example_cd_track :: track where
  "example_cd_track =
     \<lparr>tr_index = TInt 3, tr_ino = ''x'', tr_path = ''book/cd 3.mp3'', tr_fullPath = ''/book/cd 3.mp3'',
      tr_filename = ''cd 3.mp3'', tr_ext = ''.mp3'', tr_meta = example_meta\<rparr>"

subsection \<open>What the reporter returns\<close>

text \<open>
  The reporter returns one record per track, in track order, carrying the track's
  file name and its current index.
\<close>

theorem scanTrackNumbers_current:
  "map currentTrackNum (scanTrackNumbers probe ab) = map tr_index (tracks ab) \<and>
   map tnd_filename (scanTrackNumbers probe ab) = map tr_filename (tracks ab)"
  by (simp add: scanTrackNumbers_def track_diagnostic_def Let_def comp_def)

text \<open>
  The verbose probe's raw tags are reported as the prober gave them.
\<close>

theorem track_diagnostic_rawTags:
  assumes "probe (tr_fullPath t) True = Some pd" "scan (Some pd) True = Inr m"
  shows "tnd_rawTags (track_diagnostic probe b t) = pd_rawTags pd \<and>
         tnd_trackNumFromMeta (track_diagnostic probe b t) = getTrackNumberFromMeta m"
proof -
  from assms(2) obtain pd' where "Some pd = Some pd'" and "rawTags m = (if True then pd_rawTags pd' else None)"
    by (rule scan_InrE)
  with assms show ?thesis by (simp add: track_diagnostic_def)
qed

theorem track_diagnostic_rawTags_witness:
  "example_prober (tr_fullPath (hd (tracks example_imported))) True =
     Some (example_probe\<lparr>pd_fields := [(''file_tag_track'', ''1'')]\<rparr>) \<and>
   scan (Some (example_probe\<lparr>pd_fields := [(''file_tag_track'', ''1'')]\<rparr>)) True =
     Inr (projr (scan (Some (example_probe\<lparr>pd_fields := [(''file_tag_track'', ''1'')]\<rparr>)) True)) \<and>
   tnd_rawTags (track_diagnostic example_prober example_book (hd (tracks example_imported))) = None \<and>
   tnd_trackNumFromMeta (track_diagnostic example_prober example_book (hd (tracks example_imported))) =
     getTrackNumberFromMeta (projr (scan (Some (example_probe\<lparr>pd_fields := [(''file_tag_track'', ''1'')]\<rparr>)) True))"
proof -
  have p: "example_prober (tr_fullPath (hd (tracks example_imported))) True =
     Some (example_probe\<lparr>pd_fields := [(''file_tag_track'', ''1'')]\<rparr>)" by code_simp
  have "\<not> isl (scan (Some (example_probe\<lparr>pd_fields := [(''file_tag_track'', ''1'')]\<rparr>)) True)" by code_simp
  then have s: "scan (Some (example_probe\<lparr>pd_fields := [(''file_tag_track'', ''1'')]\<rparr>)) True =
     Inr (projr (scan (Some (example_probe\<lparr>pd_fields := [(''file_tag_track'', ''1'')]\<rparr>)) True))"
    by (cases "scan (Some (example_probe\<lparr>pd_fields := [(''file_tag_track'', ''1'')]\<rparr>)) True") simp_all
  from p s track_diagnostic_rawTags [where probe = example_prober and t = "hd (tracks example_imported)"
                                      and b = example_book, OF p s]
  show ?thesis
    by (simp add: example_probe_def)
qed

text \<open>
  The reporter reads the file name without the CD promotion both reconcilers apply:
  for \<open>cd 3.mp3\<close> it reports no filename number, where the reconcilers resolve 3.
\<close>

theorem diagnostics_without_promotion:
  "tnd_trackNumFromFilename (track_diagnostic example_prober example_book example_cd_track) = None \<and>
   fst (snd (resolve_numbers example_book (tr_filename example_cd_track) example_meta)) = Some 3"
  by code_simp

end
