(* ===== verification/Lifecycle.thy ===== *)
theory Lifecycle
  imports Rescan
begin

text \<open>
  The audiobook across calls of the scanner. An audiobook starts empty and is changed
  only by \<open>scanAudioFiles\<close> on fresh files and \<open>rescanAudioFiles\<close>; the reachable
  states are the inductive predicate \<open>lifecycle\<close>. The theory proves that both
  reconcilers keep the store well formed, that every reachable audiobook satisfies
  \<open>book_inv\<close> (by rule induction), so that each track is backed by exactly one valid
  audio file object (the specification's invariant of section 3), and that a rescan right
  after an import, with the same prober, finds nothing to update.
\<close>

text \<open>A file the import keeps: its probe succeeds (the negation of line 140).\<close>

definition scanned :: "prober \<Rightarrow> file_entry \<Rightarrow> bool" where
  "scanned probe f \<longleftrightarrow> \<not> isl (scan (probe (fe_fullPath f) False) False)"

text \<open>An object with the fields the import writes after adding it cleared.\<close>

definition reset_flags :: "audio_file \<Rightarrow> audio_file" where
  "reset_flags x = x\<lparr>af_index := None, invalid := False, af_error := None\<rparr>"

text \<open>Objects that differ at most in their index.\<close>

definition index_variant :: "audio_file list \<Rightarrow> audio_file list \<Rightarrow> bool" where
  "index_variant h' h \<longleftrightarrow> length h' = length h \<and> (\<forall>j<length h. \<exists>v. h' ! j = (h ! j)\<lparr>af_index := v\<rparr>)"

text \<open>
  What identifies an audio file object and whether it is usable: its \<open>ino\<close>, its
  \<open>path\<close> and its \<open>invalid\<close> flag, in store order. A track is backed when a valid
  object has its \<open>ino\<close> and \<open>path\<close>.
\<close>

definition file_keys :: "audiobook \<Rightarrow> (string \<times> string \<times> bool) list" where
  "file_keys ab = map (\<lambda>x. (af_ino x, af_path x, invalid x)) (heap ab)"

definition track_backed :: "audiobook \<Rightarrow> track \<Rightarrow> bool" where
  "track_backed ab t \<longleftrightarrow> (tr_ino t, tr_path t, False) \<in> set (file_keys ab)"

text \<open>
  The invariant of an audiobook the scanner maintains: \<open>audioFiles\<close> lists every
  object of the store exactly once, identities and paths are unique, and every track is
  backed.
\<close>

definition book_inv :: "audiobook \<Rightarrow> bool" where
  "book_inv ab \<longleftrightarrow>
     sort (audioFiles ab) = [0..<length (heap ab)] \<and>
     distinct (map af_ino (heap ab)) \<and> distinct (map af_path (heap ab)) \<and>
     list_all (track_backed ab) (tracks ab)"

text \<open>
  The caller's contract for \<open>newAudioFiles\<close> (specification, section 4.3): files the
  audiobook does not hold yet, each once.
\<close>

definition fresh_batch :: "audiobook \<Rightarrow> file_entry list \<Rightarrow> bool" where
  "fresh_batch ab fs \<longleftrightarrow>
     distinct (map af_ino (heap ab) @ map fe_ino fs) \<and> distinct (map af_path (heap ab) @ map fe_path fs)"

text \<open>Every file of the audiobook is settled: a rescan would report no update for it.\<close>

definition all_settled :: "prober \<Rightarrow> audiobook \<Rightarrow> bool" where
  "all_settled probe ab \<longleftrightarrow> list_all (\<lambda>a. rescan_settled probe (book ab) (heap ab ! a)) (audioFiles ab)"

text \<open>
  The states an audiobook reaches from its creation through the scanner's two
  reconcilers, each called with whatever prober the file system gives at that moment,
  and the batch import with fresh files.
\<close>

inductive lifecycle :: "book_ctx \<Rightarrow> audiobook \<Rightarrow> bool" for b where
  created: "lifecycle b \<lparr>book = b, heap = [], audioFiles = [], tracks = []\<rparr>"
| imported: "lifecycle b ab \<Longrightarrow> fresh_batch ab fs \<Longrightarrow> lifecycle b (fst (scanAudioFiles probe ab fs))"
| rescanned: "lifecycle b ab \<Longrightarrow> lifecycle b (fst (rescanAudioFiles probe ab))"

subsection \<open>The import loop adds one settled object per scanned file\<close>

lemma scan_file_step_shape:
  fixes probe :: prober and n :: nat and acc :: scan_acc and f :: file_entry
  defines "acc' \<equiv> scan_file_step probe n acc f"
  shows "(\<not> scanned probe f \<and> heap (acc_book acc') = heap (acc_book acc) \<and>
          audioFiles (acc_book acc') = audioFiles (acc_book acc) \<and> acc_tracks acc' = acc_tracks acc) \<or>
         (\<exists>sd tm tf cd x. scan (probe (fe_fullPath f) False) False = Inr sd \<and>
            resolve_numbers (book (acc_book acc)) (fe_filename f) sd = (tm, tf, cd) \<and>
            heap (acc_book acc') = heap (acc_book acc) @ [x] \<and>
            reset_flags x = file_object f sd tm tf cd \<and>
            audioFiles (acc_book acc') = audioFiles (acc_book acc) @ [length (heap (acc_book acc))] \<and>
            set (acc_tracks acc') \<subseteq> insert (length (heap (acc_book acc))) (set (acc_tracks acc)))"
proof (cases "scan (probe (fe_fullPath f) False) False")
  case (Inl e)
  then show ?thesis by (simp add: acc'_def scan_file_step_def scanned_def)
next
  case (Inr sd)
  obtain tm tf cd where res: "resolve_numbers (book (acc_book acc)) (fe_filename f) sd = (tm, tf, cd)"
    by (cases "resolve_numbers (book (acc_book acc)) (fe_filename f) sd") auto
  define x0 where "x0 = file_object f sd tm tf cd"
  define acc1 where "acc1 = acc\<lparr>acc_book := fst (addAudioFile (acc_book acc) x0)\<rparr>"
  define a where "a = length (heap (acc_book acc))"
  let ?Q = "\<lambda>r. \<exists>x. heap (acc_book r) = heap (acc_book acc) @ [x] \<and> reset_flags x = x0 \<and>
              audioFiles (acc_book r) = audioFiles (acc_book acc) @ [a] \<and>
              set (acc_tracks r) \<subseteq> insert a (set (acc_tracks acc))"
  have assign: "?Q (assign_index acc1 a k)" for k
    by (auto simp: assign_index_def update_file_def addAudioFile_def reset_flags_def x0_def
                   file_object_def acc1_def a_def)
  have inv: "?Q (acc1\<lparr>acc_book := update_file (acc_book acc1) a
                   (\<lambda>x. x\<lparr>invalid := True, af_error := Some ''Failed to get track number''\<rparr>),
                 numInvalidTracks := m\<rparr>)" for m
    by (auto simp: update_file_def addAudioFile_def reset_flags_def x0_def file_object_def acc1_def a_def)
  have "?Q acc'"
  proof (cases "1 < n")
    case True
    then show ?thesis
      using assign inv
      by (cases "candidate_index tm tf")
         (simp_all add: acc'_def scan_file_step_def Inr res Let_def case_prod_beta heap_addAudioFile(2)
                        acc1_def a_def x0_def)
  next
    case False
    then show ?thesis
      using assign
      by (simp add: acc'_def scan_file_step_def Inr res Let_def case_prod_beta heap_addAudioFile(2)
                    acc1_def a_def x0_def)
  qed
  then show ?thesis
    using Inr res by (auto simp: a_def x0_def)
qed

text \<open>Settledness reads only the probed path, the name, the metadata and the numbers.\<close>

lemma updateMetadata_changed:
  "snd (updateMetadata x p) \<longleftrightarrow>
     af_meta x \<noteq> mp_meta p \<or> trackNumFromMeta x \<noteq> mp_trackNumFromMeta p \<or>
     trackNumFromFilename x \<noteq> mp_trackNumFromFilename p \<or> cdNumFromFilename x \<noteq> mp_cdNumFromFilename p"
  by (cases x) (auto simp: updateMetadata_def Let_def)

lemma rescan_settled_iff:
  "rescan_settled probe b x \<longleftrightarrow>
     (case scan (probe (af_fullPath x) False) False of
        Inl _ \<Rightarrow> True
      | Inr sd \<Rightarrow> resolve_numbers b (af_filename x) sd =
                   (trackNumFromMeta x, trackNumFromFilename x, cdNumFromFilename x) \<and> af_meta x = sd)"
  by (auto simp: rescan_settled_def rescan_update_def updateMetadata_changed rescan_patch_def
                 case_prod_beta prod_eq_iff split: sum.split)

lemma rescan_settled_reset_flags [simp]:
  "rescan_settled probe b (reset_flags x) = rescan_settled probe b x"
  by (simp add: rescan_settled_iff reset_flags_def split: sum.split)

lemma rescan_settled_file_object:
  assumes "scan (probe (fe_fullPath f) False) False = Inr sd"
    "resolve_numbers b (fe_filename f) sd = (tm, tf, cd)" "reset_flags x = file_object f sd tm tf cd"
  shows "rescan_settled probe b x"
proof -
  have "rescan_settled probe b (file_object f sd tm tf cd)"
    using assms(1,2) by (simp add: rescan_settled_iff file_object_def)
  with assms(3) show ?thesis by (metis rescan_settled_reset_flags)
qed

lemma scan_loop_shape:
  fixes probe :: prober and n :: nat and acc :: scan_acc and fs :: "file_entry list"
  shows "\<exists>new. heap (acc_book (foldl (scan_file_step probe n) acc fs)) = heap (acc_book acc) @ new \<and>
           map (\<lambda>x. (af_ino x, af_path x)) new = map (\<lambda>f. (fe_ino f, fe_path f)) (filter (scanned probe) fs) \<and>
           audioFiles (acc_book (foldl (scan_file_step probe n) acc fs)) =
             audioFiles (acc_book acc) @ [length (heap (acc_book acc)) ..< length (heap (acc_book acc)) + length new] \<and>
           set (acc_tracks (foldl (scan_file_step probe n) acc fs)) \<subseteq>
             set (acc_tracks acc) \<union> {length (heap (acc_book acc)) ..< length (heap (acc_book acc)) + length new} \<and>
           (\<forall>x\<in>set new. rescan_settled probe (book (acc_book acc)) x)"
proof (induction fs arbitrary: acc)
  case Nil
  then show ?case by simp
next
  case (Cons f fs)
  let ?s = "scan_file_step probe n acc f"
  from Cons.IH [of ?s] obtain new where
    hp': "heap (acc_book (foldl (scan_file_step probe n) ?s fs)) = heap (acc_book ?s) @ new"
    and id': "map (\<lambda>x. (af_ino x, af_path x)) new = map (\<lambda>f. (fe_ino f, fe_path f)) (filter (scanned probe) fs)"
    and af': "audioFiles (acc_book (foldl (scan_file_step probe n) ?s fs)) =
             audioFiles (acc_book ?s) @ [length (heap (acc_book ?s)) ..< length (heap (acc_book ?s)) + length new]"
    and ts': "set (acc_tracks (foldl (scan_file_step probe n) ?s fs)) \<subseteq>
             set (acc_tracks ?s) \<union> {length (heap (acc_book ?s)) ..< length (heap (acc_book ?s)) + length new}"
    and st': "\<forall>x\<in>set new. rescan_settled probe (book (acc_book acc)) x"
    by auto
  from scan_file_step_shape [where probe = probe and n = n and acc = acc and f = f]
  show ?case
  proof (elim disjE exE conjE)
    assume "\<not> scanned probe f" "heap (acc_book ?s) = heap (acc_book acc)"
      "audioFiles (acc_book ?s) = audioFiles (acc_book acc)" "acc_tracks ?s = acc_tracks acc"
    with hp' id' af' ts' st' show ?thesis by (intro exI [of _ new]) simp
  next
    fix sd tm tf cd x
    assume sc: "scan (probe (fe_fullPath f) False) False = Inr sd"
      and res: "resolve_numbers (book (acc_book acc)) (fe_filename f) sd = (tm, tf, cd)"
      and hp: "heap (acc_book ?s) = heap (acc_book acc) @ [x]"
      and x: "reset_flags x = file_object f sd tm tf cd"
      and af: "audioFiles (acc_book ?s) = audioFiles (acc_book acc) @ [length (heap (acc_book acc))]"
      and ts: "set (acc_tracks ?s) \<subseteq> insert (length (heap (acc_book acc))) (set (acc_tracks acc))"
    have stx: "rescan_settled probe (book (acc_book acc)) x"
      by (rule rescan_settled_file_object [where probe = probe, OF sc res x])
    have idx: "af_ino x = fe_ino f" "af_path x = fe_path f"
      using arg_cong [OF x, of af_ino] arg_cong [OF x, of af_path]
      by (simp_all add: reset_flags_def file_object_def)
    have up: "[length (heap (acc_book acc))] @ [Suc (length (heap (acc_book acc))) ..< Suc (length (heap (acc_book acc)) + length new)] =
              [length (heap (acc_book acc)) ..< Suc (length (heap (acc_book acc)) + length new)]"
      by (simp add: upt_conv_Cons del: upt_Suc)
    have tr: "set (acc_tracks (foldl (scan_file_step probe n) ?s fs)) \<subseteq>
                set (acc_tracks acc) \<union> {length (heap (acc_book acc)) ..< length (heap (acc_book acc)) + length (x # new)}"
    proof
      fix t assume "t \<in> set (acc_tracks (foldl (scan_file_step probe n) ?s fs))"
      with ts' hp have "t \<in> set (acc_tracks ?s) \<or> t \<in> {Suc (length (heap (acc_book acc))) ..< Suc (length (heap (acc_book acc)) + length new)}"
        by auto
      with ts show "t \<in> set (acc_tracks acc) \<union> {length (heap (acc_book acc)) ..< length (heap (acc_book acc)) + length (x # new)}"
        by auto
    qed
    from sc have "scanned probe f" by (simp add: scanned_def)
    with hp hp' id' af af' tr st' stx idx up show ?thesis
      by (intro exI [of _ "x # new"]) (auto simp del: upt_Suc)
  qed
qed

subsection \<open>After the loop only indices change\<close>

lemma rescan_settled_index [simp]:
  "rescan_settled probe b (x\<lparr>af_index := v\<rparr>) = rescan_settled probe b x"
  by (simp add: rescan_settled_iff split: sum.split)

lemma index_variant_keys:
  assumes "index_variant h' h"
  shows "map (\<lambda>x. (af_ino x, af_path x, invalid x)) h' = map (\<lambda>x. (af_ino x, af_path x, invalid x)) h"
proof (rule nth_equalityI)
  show "length (map (\<lambda>x. (af_ino x, af_path x, invalid x)) h') = length (map (\<lambda>x. (af_ino x, af_path x, invalid x)) h)"
    using assms by (simp add: index_variant_def)
  fix j assume "j < length (map (\<lambda>x. (af_ino x, af_path x, invalid x)) h')"
  with assms obtain v where "j < length h" "h' ! j = (h ! j)\<lparr>af_index := v\<rparr>"
    by (auto simp: index_variant_def)
  then show "map (\<lambda>x. (af_ino x, af_path x, invalid x)) h' ! j = map (\<lambda>x. (af_ino x, af_path x, invalid x)) h ! j"
    using assms by (simp add: index_variant_def)
qed

lemma index_variant_same: "\<exists>v. x = x\<lparr>af_index := v\<rparr>"
  by (intro exI [of _ "af_index x"]) simp

lemma index_variant_refl [simp]: "index_variant h h"
  by (simp add: index_variant_def index_variant_same)

lemma shift_zero_based_heap:
  assumes "distinct ts" "\<forall>t\<in>set ts. t < length (heap ab)"
  shows "index_variant (heap (shift_zero_based ab ts)) (heap ab)"
proof -
  let ?g = "\<lambda>x. x\<lparr>af_index := map_option tnum_succ (af_index x)\<rparr>"
  from heap_foldl_update [OF assms, of ?g]
  have len: "length (heap (foldl (\<lambda>b t. update_file b t ?g) ab ts)) = length (heap ab)"
    and at: "\<forall>i<length (heap ab). heap (foldl (\<lambda>b t. update_file b t ?g) ab ts) ! i =
               (if i \<in> set ts then ?g (heap ab ! i) else heap ab ! i)"
    by simp_all
  have "\<exists>v. heap (foldl (\<lambda>b t. update_file b t ?g) ab ts) ! j = (heap ab ! j)\<lparr>af_index := v\<rparr>"
    if j: "j < length (heap ab)" for j
  proof (cases "j \<in> set ts")
    case True
    with at j show ?thesis by (intro exI [of _ "map_option tnum_succ (af_index (heap ab ! j))"]) simp
  next
    case False
    with at j show ?thesis by (simp add: index_variant_same)
  qed
  with len have "index_variant (heap (foldl (\<lambda>b t. update_file b t ?g) ab ts)) (heap ab)"
    by (simp add: index_variant_def)
  then show ?thesis
    by (simp add: shift_zero_based_def split: list.split)
qed

lemma foldl_addTrack_book [simp]:
  "book (foldl (\<lambda>b t. addTrack b (heap b ! t)) ab ts) = book ab"
  by (induction ts arbitrary: ab) (simp_all add: addTrack_def)

lemma finish_import_shape:
  assumes "acc_inv acc"
  shows "index_variant (heap (fst (finish_import acc))) (heap (acc_book acc)) \<and>
         mset (audioFiles (fst (finish_import acc))) = mset (audioFiles (acc_book acc)) \<and>
         book (fst (finish_import acc)) = book (acc_book acc) \<and>
         set (tracks (fst (finish_import acc))) =
           set (tracks (acc_book acc)) \<union> (\<lambda>t. track_of_file (heap (fst (finish_import acc)) ! t)) ` set (acc_tracks acc)"
proof (cases "acc_tracks acc = []")
  case True
  then show ?thesis by (simp add: finish_import_def)
next
  case False
  let ?ab1 = "acc_book acc"
  let ?ts' = "sort_key (file_index ?ab1) (acc_tracks acc)"
  let ?ab2 = "?ab1\<lparr>audioFiles := sort_key (\<lambda>a. af_sort_key (heap ?ab1 ! a)) (audioFiles ?ab1)\<rparr>"
  let ?ab3 = "shift_zero_based ?ab2 ?ts'"
  have d: "distinct ?ts'" and lt: "\<forall>t\<in>set ?ts'. t < length (heap ?ab2)"
    using assms by (auto simp: acc_inv_def)
  have r: "fst (finish_import acc) = commit_tracks ?ab3 ?ts'"
    using False by (simp add: finish_import_def Let_def)
  have h: "heap (commit_tracks ?ab3 ?ts') = heap ?ab3"
    and a: "audioFiles (commit_tracks ?ab3 ?ts') = audioFiles ?ab2"
    and bk: "book (commit_tracks ?ab3 ?ts') = book ?ab1"
    by (simp_all add: commit_tracks_def Let_def)
  have t: "set (tracks (commit_tracks ?ab3 ?ts')) =
             set (tracks ?ab1) \<union> (\<lambda>t. track_of_file (heap ?ab3 ! t)) ` set (acc_tracks acc)"
    by (simp add: commit_tracks_def Let_def tracks_foldl_addTrack)
  from shift_zero_based_heap [OF d lt] h a bk t show ?thesis
    by (simp add: r)
qed

subsection \<open>The import keeps the invariant\<close>

lemma index_variant_map:
  assumes "\<And>x v. g (x\<lparr>af_index := v\<rparr>) = g x" "index_variant h' h"
  shows "map g h' = map g h"
proof (rule nth_equalityI)
  show "length (map g h') = length (map g h)" using assms(2) by (simp add: index_variant_def)
  fix j assume "j < length (map g h')"
  with assms(2) obtain v where "j < length h" "h' ! j = (h ! j)\<lparr>af_index := v\<rparr>"
    by (auto simp: index_variant_def)
  with assms show "map g h' ! j = map g h ! j" by (simp add: index_variant_def)
qed

lemma sort_upt_iff: "sort xs = [0..<n] \<longleftrightarrow> mset xs = mset [0..<n]"
  by (metis mset_sort properties_for_sort sorted_upt)

lemma distinct_append_map_filter:
  "distinct (xs @ map g ys) \<Longrightarrow> distinct (xs @ map g (filter P ys))"
  by (auto simp: distinct_map_filter)

lemma scanAudioFiles_shape:
  fixes probe :: prober and ab :: audiobook and fs :: "file_entry list"
  assumes "fs \<noteq> []"
  defines "ab' \<equiv> fst (scanAudioFiles probe ab fs)" and "ts \<equiv> acc_tracks (scan_loop probe ab fs)"
  obtains new where
    "index_variant (heap ab') (heap ab @ new)"
    "map (\<lambda>x. (af_ino x, af_path x)) new = map (\<lambda>f. (fe_ino f, fe_path f)) (filter (scanned probe) fs)"
    "mset (audioFiles ab') = mset (audioFiles ab @ [length (heap ab) ..< length (heap ab) + length new])"
    "book ab' = book ab"
    "\<forall>x\<in>set new. rescan_settled probe (book ab) x"
    "set (tracks ab') = set (tracks ab) \<union> (\<lambda>t. track_of_file (heap ab' ! t)) ` set ts"
    "\<forall>t\<in>set ts. t < length (heap ab) + length new \<and> \<not> invalid ((heap ab @ new) ! t)"
proof -
  let ?acc = "scan_loop probe ab fs"
  have acc: "?acc = foldl (scan_file_step probe (length fs)) (init_acc ab) fs"
    by (simp add: scan_loop_def)
  have inv: "acc_inv ?acc"
    using foldl_scan_file_step_plan [OF acc_inv_init [of ab], where probe = probe and n = "length fs" and fs = fs]
    by (simp add: acc)
  from scan_loop_shape [where probe = probe and n = "length fs" and acc = "init_acc ab" and fs = fs]
  obtain new where hp: "heap (acc_book ?acc) = heap ab @ new"
    and idn: "map (\<lambda>x. (af_ino x, af_path x)) new = map (\<lambda>f. (fe_ino f, fe_path f)) (filter (scanned probe) fs)"
    and af: "audioFiles (acc_book ?acc) = audioFiles ab @ [length (heap ab) ..< length (heap ab) + length new]"
    and st: "\<forall>x\<in>set new. rescan_settled probe (book ab) x"
    by (auto simp: acc init_acc_def)
  have bk: "book (acc_book ?acc) = book ab" "tracks (acc_book ?acc) = tracks ab"
    by (simp_all add: acc init_acc_def)
  have r: "ab' = fst (finish_import ?acc)"
    using assms(1) by (simp add: ab'_def scanAudioFiles_def)
  from finish_import_shape [OF inv] hp af inv
  show ?thesis
    by (intro that [of new]) (auto simp: r ts_def idn st acc_inv_def bk)
qed

lemma index_variant_nth:
  "index_variant h' h \<Longrightarrow> j < length h \<Longrightarrow> \<exists>v. h' ! j = (h ! j)\<lparr>af_index := v\<rparr>"
  by (simp add: index_variant_def)

lemma track_backed_new:
  assumes "index_variant (heap ab') h" "a < length h" "\<not> invalid (h ! a)"
  shows "track_backed ab' (track_of_file (heap ab' ! a))"
proof -
  from index_variant_nth [OF assms(1,2)] obtain v where v: "heap ab' ! a = (h ! a)\<lparr>af_index := v\<rparr>" ..
  have "a < length (heap ab')" using assms(1,2) by (simp add: index_variant_def)
  then have "(af_ino (heap ab' ! a), af_path (heap ab' ! a), invalid (heap ab' ! a)) \<in> set (file_keys ab')"
    by (auto simp: file_keys_def)
  with v assms(3) show ?thesis
    by (simp add: track_backed_def track_of_file_def file_keys_def)
qed

lemma upt_mset_append:
  "mset [0..<n] + mset [n..<n + m] = mset [0..<n + m]"
  by (simp add: upt_add_eq_append [of 0 n m])

lemma import_book_inv:
  assumes inv: "book_inv ab" and fr: "fresh_batch ab fs"
  shows "book_inv (fst (scanAudioFiles probe ab fs))"
proof (cases "fs = []")
  case True
  then show ?thesis using inv by (simp add: scanAudioFiles_def)
next
  case False
  let ?ab' = "fst (scanAudioFiles probe ab fs)"
  let ?ts = "acc_tracks (scan_loop probe ab fs)"
  obtain new where iv: "index_variant (heap ?ab') (heap ab @ new)"
    and idn: "map (\<lambda>x. (af_ino x, af_path x)) new = map (\<lambda>f. (fe_ino f, fe_path f)) (filter (scanned probe) fs)"
    and af: "mset (audioFiles ?ab') = mset (audioFiles ab @ [length (heap ab) ..< length (heap ab) + length new])"
    and tr: "set (tracks ?ab') = set (tracks ab) \<union> (\<lambda>t. track_of_file (heap ?ab' ! t)) ` set ?ts"
    and ok: "\<forall>t\<in>set ?ts. t < length (heap ab) + length new \<and> \<not> invalid ((heap ab @ new) ! t)"
    by (rule scanAudioFiles_shape [OF False, where probe = probe and ab = ab]) blast
  have len: "length (heap ?ab') = length (heap ab) + length new"
    using iv by (simp add: index_variant_def)
  have ino: "map af_ino (heap ?ab') = map af_ino (heap ab) @ map fe_ino (filter (scanned probe) fs)"
    using index_variant_map [of af_ino, OF _ iv] arg_cong [OF idn, of "map fst"] by (simp add: comp_def)
  have path: "map af_path (heap ?ab') = map af_path (heap ab) @ map fe_path (filter (scanned probe) fs)"
    using index_variant_map [of af_path, OF _ iv] arg_cong [OF idn, of "map snd"] by (simp add: comp_def)
  have keys: "file_keys ?ab' = file_keys ab @ map (\<lambda>x. (af_ino x, af_path x, invalid x)) new"
    using index_variant_map [of "\<lambda>x. (af_ino x, af_path x, invalid x)", OF _ iv] by (simp add: file_keys_def)
  have srt: "sort (audioFiles ?ab') = [0..<length (heap ?ab')]"
  proof -
    from inv have "mset (audioFiles ab) = mset [0..<length (heap ab)]"
      by (simp only: book_inv_def sort_upt_iff)
    with af len show ?thesis
      by (simp only: sort_upt_iff mset_append upt_mset_append)
  qed
  have d: "distinct (map af_ino (heap ?ab'))" "distinct (map af_path (heap ?ab'))"
    using fr by (simp_all only: ino path fresh_batch_def distinct_append_map_filter)
  have "track_backed ?ab' t" if "t \<in> set (tracks ?ab')" for t
  proof -
    from that tr consider "t \<in> set (tracks ab)" | a where "a \<in> set ?ts" "t = track_of_file (heap ?ab' ! a)"
      by auto
    then show ?thesis
    proof cases
      case 1
      with inv show ?thesis by (auto simp: book_inv_def list_all_iff track_backed_def keys)
    next
      case 2
      with ok have "a < length (heap ab @ new)" "\<not> invalid ((heap ab @ new) ! a)" by auto
      from track_backed_new [OF iv this] 2 show ?thesis by simp
    qed
  qed
  with srt d show ?thesis by (simp add: book_inv_def list_all_iff)
qed

subsection \<open>The rescan keeps the invariant\<close>

lemma updateMetadata_invalid [simp]: "invalid (fst (updateMetadata af p)) = invalid af"
  by (simp add: updateMetadata_def Let_def)

lemma map_update_same:
  "f y = f (xs ! i) \<Longrightarrow> map f (xs[i := y]) = map f xs"
  by (induction xs arbitrary: i) (auto split: nat.split)

lemma file_keys_rescan_file_step [simp]:
  "file_keys (rs_book (rescan_file_step probe acc a)) = file_keys (rs_book acc)"
  by (auto simp: heap_rescan_file_step file_keys_def Let_def map_update_same
           split: sum.split prod.split)

lemma sync_track_keys:
  assumes "t \<in> set (tracks (rs_book (sync_track acc af)))"
  shows "(\<exists>t0\<in>set (tracks (rs_book acc)). tr_ino t = tr_ino t0 \<and> tr_path t = tr_path t0) \<or>
         (tr_ino t = af_ino af \<and> tr_path t = af_path af \<and> (\<exists>t0\<in>set (tracks (rs_book acc)). tr_path t0 = af_path af))"
proof -
  let ?ts = "tracks (rs_book acc)"
  have upd: "t \<in> set ?ts \<or> t = u" if "t \<in> set (?ts[i := u])" for i u
    using that set_update_subset_insert [of ?ts i u] by auto
  have old: "t \<in> set ?ts \<Longrightarrow> ?thesis" by blast
  show ?thesis
  proof (cases "find_pos (\<lambda>t. tr_ino t = af_ino af) ?ts")
    case (Some i)
    with assms have "t \<in> set ?ts \<or> t = syncMetadata (?ts ! i) af"
      by (auto simp: sync_track_def Let_def dest: upd)
    moreover from Some have "?ts ! i \<in> set ?ts" by (auto dest: find_pos_SomeD)
    ultimately show ?thesis by (auto simp: syncMetadata_def)
  next
    case None
    show ?thesis
    proof (cases "\<not> exclude af \<and> find_pos (\<lambda>t. tr_path t = af_path af) ?ts \<noteq> None")
      case True
      then have ne: "\<not> exclude af" by simp
      from True obtain i where i: "find_pos (\<lambda>t. tr_path t = af_path af) ?ts = Some i"
        by (cases "find_pos (\<lambda>t. tr_path t = af_path af) ?ts") simp_all
      have "t \<in> set (?ts[i := syncMetadata ((?ts ! i)\<lparr>tr_ino := af_ino af\<rparr>) af])"
        using assms unfolding sync_track_def Let_def None i by (simp add: ne)
      then have "t \<in> set ?ts \<or> t = syncMetadata ((?ts ! i)\<lparr>tr_ino := af_ino af\<rparr>) af"
        by (rule upd)
      moreover from i have "tr_path (?ts ! i) = af_path af" "?ts ! i \<in> set ?ts" by (auto dest: find_pos_SomeD)
      ultimately show ?thesis by (auto simp: syncMetadata_def)
    next
      case False
      have "tracks (rs_book (sync_track acc af)) = ?ts"
      proof (cases "exclude af")
        case True
        then show ?thesis unfolding sync_track_def Let_def None by simp
      next
        case ex: False
        with False have p: "find_pos (\<lambda>t. tr_path t = af_path af) ?ts = None" by simp
        show ?thesis unfolding sync_track_def Let_def None p by simp
      qed
      with assms show ?thesis by (intro old) simp
    qed
  qed
qed

lemma rescan_step_tracks:
  assumes "t \<in> set (tracks (rs_book (rescan_file_step probe acc a)))"
  defines "af \<equiv> heap (rs_book acc) ! a"
  shows "(\<exists>t0\<in>set (tracks (rs_book acc)). tr_ino t = tr_ino t0 \<and> tr_path t = tr_path t0) \<or>
         (tr_ino t = af_ino af \<and> tr_path t = af_path af \<and> (\<exists>t0\<in>set (tracks (rs_book acc)). tr_path t0 = af_path af))"
proof (cases "rescan_update probe (book (rs_book acc)) af")
  case None
  then have "tracks (rs_book (rescan_file_step probe acc a)) = tracks (rs_book acc)"
    by (auto simp: af_def rescan_update_def rescan_file_step_def Let_def split: sum.splits prod.splits)
  with assms(1) show ?thesis by auto
next
  case (Some r)
  obtain af' changed where r: "r = (af', changed)" by (cases r)
  let ?acc1 = "acc\<lparr>rs_book := update_file (rs_book acc) a (\<lambda>_. af')\<rparr>"
  have st: "rescan_file_step probe acc a = (if changed then (sync_track ?acc1 af')\<lparr>updates := Suc (updates acc)\<rparr> else ?acc1)"
    using rescan_update_Some [of probe acc a af' changed] Some r by (simp add: af_def)
  have k: "af_ino af' = af_ino af" "af_path af' = af_path af"
    using rescan_update_ino [of probe "book (rs_book acc)" af af' changed] Some r by simp_all
  have tr1: "tracks (rs_book ?acc1) = tracks (rs_book acc)" by (simp add: update_file_def)
  show ?thesis
  proof (cases changed)
    case True
    with assms(1) st have "t \<in> set (tracks (rs_book (sync_track ?acc1 af')))" by simp
    from sync_track_keys [OF this] tr1 k show ?thesis by simp
  next
    case False
    with assms(1) st tr1 show ?thesis by auto
  qed
qed

lemma keys_fields:
  assumes "file_keys ab' = file_keys ab"
  shows "map af_ino (heap ab') = map af_ino (heap ab) \<and> map af_path (heap ab') = map af_path (heap ab)"
proof -
  have "map fst (file_keys ab') = map fst (file_keys ab)"
    "map (fst \<circ> snd) (file_keys ab') = map (fst \<circ> snd) (file_keys ab)"
    using assms by simp_all
  then show ?thesis by (simp add: file_keys_def comp_def)
qed

lemma distinct_map_nth_eq:
  "distinct (map f xs) \<Longrightarrow> i < length xs \<Longrightarrow> j < length xs \<Longrightarrow> f (xs ! i) = f (xs ! j) \<Longrightarrow> i = j"
  using nth_eq_iff_index_eq [of "map f xs" i j] by simp

lemma rescan_step_book_inv:
  assumes inv: "book_inv (rs_book acc)" and a: "a < length (heap (rs_book acc))"
  shows "book_inv (rs_book (rescan_file_step probe acc a))"
proof -
  let ?ab = "rs_book acc"
  let ?ab' = "rs_book (rescan_file_step probe acc a)"
  let ?af = "heap ?ab ! a"
  have keys: "file_keys ?ab' = file_keys ?ab" by simp
  have fr: "audioFiles ?ab' = audioFiles ?ab" "length (heap ?ab') = length (heap ?ab)" by simp_all
  have bk: "track_backed ?ab' = track_backed ?ab" by (simp add: track_backed_def fun_eq_iff)
  have dp: "distinct (map af_path (heap ?ab))" using inv by (simp add: book_inv_def)
  have "track_backed ?ab t" if "t \<in> set (tracks ?ab')" for t
  proof -
    from rescan_step_tracks [OF that]
    show ?thesis
    proof (elim disjE bexE conjE)
      fix t0 assume "t0 \<in> set (tracks ?ab)" "tr_ino t = tr_ino t0" "tr_path t = tr_path t0"
      with inv show ?thesis by (auto simp: book_inv_def list_all_iff track_backed_def)
    next
      fix t0 assume t: "tr_ino t = af_ino ?af" "tr_path t = af_path ?af"
        and t0: "t0 \<in> set (tracks ?ab)" "tr_path t0 = af_path ?af"
      from t0 inv have "(tr_ino t0, tr_path t0, False) \<in> set (file_keys ?ab)"
        by (auto simp: book_inv_def list_all_iff track_backed_def)
      then obtain j where j: "j < length (heap ?ab)" "af_path (heap ?ab ! j) = af_path ?af"
        "\<not> invalid (heap ?ab ! j)"
        using t0(2) by (auto simp: file_keys_def in_set_conv_nth)
      from distinct_map_nth_eq [OF dp j(1) a j(2)] j(3) have "\<not> invalid ?af" by simp
      with a have "(af_ino ?af, af_path ?af, False) \<in> set (file_keys ?ab)"
        by (force simp: file_keys_def)
      with t show ?thesis by (simp add: track_backed_def)
    qed
  qed
  with inv keys_fields [OF keys] fr bk show ?thesis
    by (simp add: book_inv_def list_all_iff)
qed

subsection \<open>Both reconcilers\<close>

lemma book_inv_wf: "book_inv ab \<Longrightarrow> wf_book ab"
proof -
  assume "book_inv ab"
  then have "sort (audioFiles ab) = [0..<length (heap ab)]" by (simp add: book_inv_def)
  then have "distinct (sort (audioFiles ab))" "set (sort (audioFiles ab)) = {..<length (heap ab)}"
    by (simp_all add: lessThan_atLeast0)
  then show "wf_book ab" by (simp add: wf_book_def)
qed

lemma foldl_rescan_book_inv:
  "book_inv (rs_book acc) \<Longrightarrow> \<forall>a\<in>set xs. a < length (heap (rs_book acc)) \<Longrightarrow>
   book_inv (rs_book (foldl (rescan_file_step probe) acc xs))"
proof (induction xs arbitrary: acc)
  case Nil
  then show ?case by simp
next
  case (Cons x xs)
  from Cons.prems have "book_inv (rs_book (rescan_file_step probe acc x))"
    by (simp add: rescan_step_book_inv)
  with Cons.prems show ?case by (simp add: Cons.IH)
qed

lemma rescan_book_inv: "book_inv ab \<Longrightarrow> book_inv (fst (rescanAudioFiles probe ab))"
  using foldl_rescan_book_inv [where acc = "rescan_start ab" and xs = "audioFiles ab" and probe = probe]
        book_inv_wf [of ab]
  by (simp add: rescanAudioFiles_foldl Let_def rescan_start_def wf_book_def)

lemma import_wf: "wf_book ab \<Longrightarrow> wf_book (fst (scanAudioFiles probe ab fs))"
proof (cases "fs = []")
  case True
  then show "wf_book ab \<Longrightarrow> ?thesis" by (simp add: scanAudioFiles_def)
next
  case False
  assume wf: "wf_book ab"
  let ?ab' = "fst (scanAudioFiles probe ab fs)"
  obtain new where iv: "index_variant (heap ?ab') (heap ab @ new)"
    and af: "mset (audioFiles ?ab') = mset (audioFiles ab @ [length (heap ab) ..< length (heap ab) + length new])"
    by (rule scanAudioFiles_shape [OF False, where probe = probe and ab = ab])
  have len: "length (heap ?ab') = length (heap ab) + length new"
    using iv by (simp add: index_variant_def)
  have "distinct (audioFiles ab @ [length (heap ab) ..< length (heap ab) + length new])"
    using wf by (auto simp: wf_book_def)
  moreover have "\<forall>a\<in>set (audioFiles ab @ [length (heap ab) ..< length (heap ab) + length new]).
                   a < length (heap ab) + length new"
    using wf by (auto simp: wf_book_def)
  ultimately show ?thesis
    using mset_eq_imp_distinct_iff [OF af] mset_eq_setD [OF af] len by (simp add: wf_book_def)
qed

lemma rescan_wf: "wf_book ab \<Longrightarrow> wf_book (fst (rescanAudioFiles probe ab))"
  using foldl_rescan_frame [where probe = probe and acc = "rescan_start ab" and xs = "audioFiles ab"]
  by (simp add: rescanAudioFiles_foldl Let_def rescan_start_def wf_book_def)

lemma import_settled:
  assumes wf: "wf_book ab" and st: "all_settled probe ab"
  shows "all_settled probe (fst (scanAudioFiles probe ab fs))"
proof (cases "fs = []")
  case True
  then show ?thesis using st by (simp add: scanAudioFiles_def)
next
  case False
  let ?ab' = "fst (scanAudioFiles probe ab fs)"
  obtain new where iv: "index_variant (heap ?ab') (heap ab @ new)"
    and af: "mset (audioFiles ?ab') = mset (audioFiles ab @ [length (heap ab) ..< length (heap ab) + length new])"
    and bk: "book ?ab' = book ab"
    and stn: "\<forall>x\<in>set new. rescan_settled probe (book ab) x"
    by (rule scanAudioFiles_shape [OF False, where probe = probe and ab = ab])
  have "rescan_settled probe (book ab) (heap ?ab' ! a)" if a: "a \<in> set (audioFiles ?ab')" for a
  proof -
    from a mset_eq_setD [OF af] have a': "a \<in> set (audioFiles ab) \<or> a \<in> {length (heap ab) ..< length (heap ab) + length new}"
      by auto
    then have lt: "a < length (heap ab @ new)" using wf by (auto simp: wf_book_def)
    from index_variant_nth [OF iv lt] obtain v where v: "heap ?ab' ! a = ((heap ab @ new) ! a)\<lparr>af_index := v\<rparr>" ..
    from a' have "rescan_settled probe (book ab) ((heap ab @ new) ! a)"
    proof
      assume "a \<in> set (audioFiles ab)"
      with wf st show ?thesis by (auto simp: wf_book_def all_settled_def list_all_iff nth_append)
    next
      assume "a \<in> {length (heap ab) ..< length (heap ab) + length new}"
      with stn show ?thesis by (auto simp: nth_append)
    qed
    with v show ?thesis by simp
  qed
  with bk show ?thesis by (simp add: all_settled_def list_all_iff)
qed

lemma lifecycle_book_inv: "lifecycle b ab \<Longrightarrow> book_inv ab"
proof (induction rule: lifecycle.induct)
  case created
  show ?case by (simp add: book_inv_def)
next
  case (imported ab fs probe)
  from imported.IH imported.hyps(2) show ?case by (rule import_book_inv)
next
  case (rescanned ab probe)
  from rescanned.IH show ?case by (rule rescan_book_inv)
qed

lemma distinct_key_filter:
  "distinct (map f xs) \<Longrightarrow> x \<in> set xs \<Longrightarrow> f x = k \<Longrightarrow> Q x \<Longrightarrow>
   length (filter (\<lambda>y. f y = k \<and> Q y) xs) = 1"
proof (induction xs)
  case Nil
  then show ?case by simp
next
  case (Cons y ys)
  show ?case
  proof (cases "y = x")
    case True
    have "f z \<noteq> k" if "z \<in> set ys" for z
    proof -
      from True Cons.prems(1) have "f x \<notin> f ` set ys" by simp
      with that Cons.prems(3) show ?thesis by (metis image_eqI)
    qed
    then have "filter (\<lambda>y. f y = k \<and> Q y) ys = []"
      by (auto simp: filter_empty_conv)
    with True Cons.prems show ?thesis by simp
  next
    case False
    with Cons.prems have "x \<in> set ys" "f y \<noteq> k" by auto
    with Cons.prems Cons.IH show ?thesis by simp
  qed
qed

subsection \<open>The example library\<close>

lemma lifecycle_example_imported: "lifecycle example_book example_imported"
proof -
  have c: "lifecycle example_book example_ab"
    unfolding example_ab_def by (rule lifecycle.created)
  have f: "fresh_batch example_ab (map example_file [''a'', ''b'', ''c''])" by code_simp
  show ?thesis
    unfolding example_imported_def by (rule lifecycle.imported [OF c f])
qed

subsection \<open>Properties of the scanner across calls\<close>

text \<open>
  C20: In every audiobook the scanner reaches, each track is backed by exactly one valid
  audio file object: exactly one object that is not \<open>invalid\<close> has the track's
  \<open>ino\<close>.
\<close>

theorem lifecycle_track_backed_once:
  assumes "lifecycle b ab" "t \<in> set (tracks ab)"
  shows "length (filter (\<lambda>x. af_ino x = tr_ino t \<and> \<not> invalid x) (heap ab)) = 1"
proof -
  from assms(1) have inv: "book_inv ab" by (rule lifecycle_book_inv)
  with assms(2) have "(tr_ino t, tr_path t, False) \<in> set (file_keys ab)"
    by (auto simp: book_inv_def list_all_iff track_backed_def)
  then obtain x where "x \<in> set (heap ab)" "af_ino x = tr_ino t" "\<not> invalid x"
    by (auto simp: file_keys_def)
  with inv show ?thesis
    by (intro distinct_key_filter [where f = af_ino]) (simp_all add: book_inv_def)
qed

theorem lifecycle_track_backed_once_witness:
  "lifecycle example_book example_imported \<and>
   hd (tracks example_imported) \<in> set (tracks example_imported) \<and>
   length (filter (\<lambda>x. af_ino x = tr_ino (hd (tracks example_imported)) \<and> \<not> invalid x)
                  (heap example_imported)) = 1"
proof -
  have l: "lifecycle example_book example_imported" by (rule lifecycle_example_imported)
  have t: "hd (tracks example_imported) \<in> set (tracks example_imported)" by code_simp
  from l t lifecycle_track_backed_once [OF l t] show ?thesis by simp
qed

text \<open>
  C21: A rescan right after an import, with the same prober, changes nothing and counts
  no update, when the audiobook's files were settled before the import: the import
  stores exactly what a rescan would compute.
\<close>

theorem rescan_after_import_quiet:
  assumes "wf_book ab" "all_settled probe ab"
  shows "fst (rescanAudioFiles probe (fst (scanAudioFiles probe ab fs))) = fst (scanAudioFiles probe ab fs) \<and>
         fst (snd (rescanAudioFiles probe (fst (scanAudioFiles probe ab fs)))) = 0"
proof -
  let ?ab = "fst (scanAudioFiles probe ab fs)"
  have wf: "wf_book ?ab" by (rule import_wf [OF assms(1)])
  have st: "all_settled probe ?ab" by (rule import_settled [OF assms])
  have "\<forall>a\<in>set (audioFiles ?ab). a < length (heap (rs_book (rescan_start ?ab))) \<and>
          rescan_settled probe (book (rs_book (rescan_start ?ab))) (heap (rs_book (rescan_start ?ab)) ! a)"
    using wf st by (simp add: wf_book_def all_settled_def list_all_iff rescan_start_def)
  from foldl_rescan_settled [OF this] show ?thesis
    by (simp add: rescanAudioFiles_foldl Let_def rescan_start_def)
qed

theorem rescan_after_import_quiet_witness:
  "wf_book example_ab \<and> all_settled example_prober example_ab \<and>
   fst (rescanAudioFiles example_prober example_imported) = example_imported \<and>
   fst (snd (rescanAudioFiles example_prober example_imported)) = 0"
proof -
  have w: "wf_book example_ab" by code_simp
  have s: "all_settled example_prober example_ab" by code_simp
  from w s rescan_after_import_quiet [OF w s, of "map example_file [''a'', ''b'', ''c'']"]
  show ?thesis by (simp add: example_imported_def)
qed

end
