(* ===== verification/Reconcilers.thy ===== *)
theory Reconcilers
  imports Lifecycle
begin

text \<open>
  Properties of the two reconcilers that the previous theories do not state: the order
  of the audiobook's \<open>audioFiles\<close> array after an import (lines 209--213) and
  the per-file treatment of probe failures in both loops (lines 140--143 and 240--245).
\<close>

text \<open>The paths a log reports as failed scans, in log order.\<close>

fun failed_path :: "log_msg \<Rightarrow> string list" where
  "failed_path (ScanFailed p) = [p]"
| "failed_path _ = []"

definition failed_paths :: "log_msg list \<Rightarrow> string list" where
  "failed_paths l = concat (map failed_path l)"

lemma failed_paths_append [simp]: "failed_paths (xs @ ys) = failed_paths xs @ failed_paths ys"
  and failed_paths_Nil [simp]: "failed_paths [] = []"
  by (simp_all add: failed_paths_def)

lemma failed_paths_ScanFailed: "failed_paths (map (\<lambda>x. ScanFailed (g x)) xs) = map g xs"
  by (induction xs) (simp_all add: failed_paths_def)

lemma failed_paths_single [simp]: "failed_paths [m] = failed_path m"
  by (simp add: failed_paths_def)

subsection \<open>The order of \<open>audioFiles\<close> after an import\<close>

lemma insort_key_cong:
  "(\<And>y. y \<in> insert x (set ys) \<Longrightarrow> f y = g y) \<Longrightarrow> insort_key f x ys = insort_key g x ys"
  by (induction ys) auto

lemma sort_key_cong:
  "(\<And>y. y \<in> set xs \<Longrightarrow> f y = g y) \<Longrightarrow> sort_key f xs = sort_key g xs"
proof (induction xs)
  case Nil
  then show ?case by simp
next
  case (Cons x xs)
  then have "sort_key f xs = sort_key g xs" by simp
  moreover have "insort_key f x (sort_key g xs) = insort_key g x (sort_key g xs)"
    using Cons.prems by (intro insort_key_cong) auto
  ultimately show ?case by simp
qed

lemma af_sort_key_index [simp]: "af_sort_key (x\<lparr>af_index := v\<rparr>) = af_sort_key x"
  by (simp add: af_sort_key_def)

lemma finish_import_audioFiles:
  "audioFiles (fst (finish_import acc)) =
     (if acc_tracks acc = [] then audioFiles (acc_book acc)
      else sort_key (\<lambda>a. af_sort_key (heap (acc_book acc) ! a)) (audioFiles (acc_book acc)))"
  by (simp add: finish_import_def Let_def commit_tracks_def)


subsection \<open>Probe failures are per-file soft failures\<close>

lemma acc_log_scan_file_step:
  "acc_log (scan_file_step probe n acc f) =
     acc_log acc @ (if scanned probe f then [] else [ScanFailed (fe_path f)])"
  by (auto simp: scan_file_step_def assign_index_def scanned_def Let_def
           split: sum.splits prod.splits option.splits)

lemma acc_log_foldl:
  "acc_log (foldl (scan_file_step probe n) acc fs) =
     acc_log acc @ map (\<lambda>f. ScanFailed (fe_path f)) (filter (\<lambda>f. \<not> scanned probe f) fs)"
  by (induction fs arbitrary: acc) (simp_all add: acc_log_scan_file_step)

lemma failed_paths_finish_import:
  "failed_paths (snd (finish_import acc)) = failed_paths (acc_log acc)"
  by (simp add: finish_import_def Let_def)

lemma failed_paths_sync_track [simp]:
  "failed_paths (rs_log (sync_track acc af)) = failed_paths (rs_log acc)"
  by (auto simp: sync_track_def Let_def split: option.splits)

lemma rescan_file_step_log:
  "failed_paths (rs_log (rescan_file_step probe acc a)) =
     failed_paths (rs_log acc) @
       (if isl (scan (probe (af_fullPath (heap (rs_book acc) ! a)) False) False)
        then [af_path (heap (rs_book acc) ! a)] else [])"
  by (auto simp: rescan_file_step_def Let_def case_prod_beta split: sum.splits)

lemma rescan_file_step_paths [simp]:
  "map af_fullPath (heap (rs_book (rescan_file_step probe acc a))) = map af_fullPath (heap (rs_book acc))"
  "map af_path (heap (rs_book (rescan_file_step probe acc a))) = map af_path (heap (rs_book acc))"
  by (auto simp: heap_rescan_file_step Let_def map_update_same split: sum.split prod.split)

lemma nth_map_eq:
  "map f xs = map f ys \<Longrightarrow> i < length ys \<Longrightarrow> f (xs ! i) = f (ys ! i)"
  by (metis length_map nth_map)

lemma rescan_foldl_log:
  assumes "\<forall>a\<in>set xs. a < length (heap (rs_book acc))"
  shows "failed_paths (rs_log (foldl (rescan_file_step probe) acc xs)) =
           failed_paths (rs_log acc) @
           map (\<lambda>a. af_path (heap (rs_book acc) ! a))
             (filter (\<lambda>a. isl (scan (probe (af_fullPath (heap (rs_book acc) ! a)) False) False)) xs)"
  using assms
proof (induction xs arbitrary: acc)
  case Nil
  then show ?case by simp
next
  case (Cons x xs)
  let ?s = "rescan_file_step probe acc x"
  have fp: "map af_fullPath (heap (rs_book ?s)) = map af_fullPath (heap (rs_book acc))"
    and pp: "map af_path (heap (rs_book ?s)) = map af_path (heap (rs_book acc))"
    and len: "length (heap (rs_book ?s)) = length (heap (rs_book acc))" by simp_all
  have same: "af_fullPath (heap (rs_book ?s) ! a) = af_fullPath (heap (rs_book acc) ! a)"
    "af_path (heap (rs_book ?s) ! a) = af_path (heap (rs_book acc) ! a)"
    if "a \<in> set xs" for a
    using that Cons.prems nth_map_eq [OF fp] nth_map_eq [OF pp] by auto
  from Cons.prems len have "\<forall>a\<in>set xs. a < length (heap (rs_book ?s))" by simp
  note IH = Cons.IH [OF this]
  have f: "filter (\<lambda>a. isl (scan (probe (af_fullPath (heap (rs_book ?s) ! a)) False) False)) xs =
           filter (\<lambda>a. isl (scan (probe (af_fullPath (heap (rs_book acc) ! a)) False) False)) xs"
    using same(1) by (intro filter_cong) simp_all
  have "map (\<lambda>a. af_path (heap (rs_book ?s) ! a))
          (filter (\<lambda>a. isl (scan (probe (af_fullPath (heap (rs_book ?s) ! a)) False) False)) xs) =
        map (\<lambda>a. af_path (heap (rs_book acc) ! a))
          (filter (\<lambda>a. isl (scan (probe (af_fullPath (heap (rs_book acc) ! a)) False) False)) xs)"
    unfolding f using same(2) by (intro map_cong) simp_all
  with IH show ?case by (simp add: rescan_file_step_log)
qed

text \<open>
  C23: A probe failure is a soft failure in both reconcilers. The import logs exactly the
  files whose probe fails, in batch order, stores none of them and stores every other
  file; the rescan logs exactly the audiobook's files whose probe fails, in
  \<open>audioFiles\<close> order, and goes on with the next file.
\<close>

theorem probe_failures_soft:
  assumes "wf_book ab" "fs \<noteq> []"
  shows "failed_paths (snd (scanAudioFiles probe ab fs)) = map fe_path (filter (\<lambda>f. \<not> scanned probe f) fs) \<and>
         length (heap (fst (scanAudioFiles probe ab fs))) = length (heap ab) + length (filter (scanned probe) fs) \<and>
         failed_paths (snd (snd (rescanAudioFiles probe ab))) =
           map (\<lambda>a. af_path (heap ab ! a))
             (filter (\<lambda>a. isl (scan (probe (af_fullPath (heap ab ! a)) False) False)) (audioFiles ab))"
proof (intro conjI)
  show "failed_paths (snd (scanAudioFiles probe ab fs)) = map fe_path (filter (\<lambda>f. \<not> scanned probe f) fs)"
  proof -
    have "failed_paths (snd (scanAudioFiles probe ab fs)) = failed_paths (acc_log (scan_loop probe ab fs))"
      using assms(2) by (simp add: scanAudioFiles_def failed_paths_finish_import)
    also have "\<dots> = map fe_path (filter (\<lambda>f. \<not> scanned probe f) fs)"
      by (simp add: scan_loop_def acc_log_foldl init_acc_def failed_paths_ScanFailed)
    finally show ?thesis .
  qed
  obtain new where iv: "index_variant (heap (fst (scanAudioFiles probe ab fs))) (heap ab @ new)"
    and idn: "map (\<lambda>x. (af_ino x, af_path x)) new = map (\<lambda>f. (fe_ino f, fe_path f)) (filter (scanned probe) fs)"
    by (rule scanAudioFiles_shape [OF assms(2), where probe = probe and ab = ab])
  from arg_cong [OF idn, of length] iv
  show "length (heap (fst (scanAudioFiles probe ab fs))) = length (heap ab) + length (filter (scanned probe) fs)"
    by (simp add: index_variant_def)
  show "failed_paths (snd (snd (rescanAudioFiles probe ab))) =
          map (\<lambda>a. af_path (heap ab ! a))
            (filter (\<lambda>a. isl (scan (probe (af_fullPath (heap ab ! a)) False) False)) (audioFiles ab))"
    using rescan_foldl_log [where acc = "rescan_start ab" and xs = "audioFiles ab" and probe = probe] assms(1)
    by (simp add: rescanAudioFiles_foldl Let_def rescan_start_def wf_book_def)
qed

theorem probe_failures_soft_witness:
  "wf_book example_imported \<and> map example_file [''a'', ''z''] \<noteq> [] \<and>
   failed_paths (snd (scanAudioFiles example_prober example_imported (map example_file [''a'', ''z'']))) =
     [''book/z.mp3''] \<and>
   length (heap (fst (scanAudioFiles example_prober example_imported (map example_file [''a'', ''z''])))) = 4 \<and>
   failed_paths (snd (snd (rescanAudioFiles (\<lambda>p v. if p = ''/book/b.mp3'' then None else example_prober p v)
                                             example_imported))) = [''book/b.mp3'']"
proof -
  let ?p = "\<lambda>p v. if p = ''/book/b.mp3'' then None else example_prober p v"
  let ?fs = "map example_file [''a'', ''z'']"
  have w: "wf_book example_imported" by code_simp
  have n: "?fs \<noteq> []" by simp
  have e1: "map fe_path (filter (\<lambda>f. \<not> scanned example_prober f) ?fs) = [''book/z.mp3'']" by code_simp
  have e2: "length (heap example_imported) + length (filter (scanned example_prober) ?fs) = 4" by code_simp
  have e3: "map (\<lambda>a. af_path (heap example_imported ! a))
              (filter (\<lambda>a. isl (scan (?p (af_fullPath (heap example_imported ! a)) False) False))
                (audioFiles example_imported)) = [''book/b.mp3'']" by code_simp
  from probe_failures_soft [OF w n, of example_prober] have A:
    "failed_paths (snd (scanAudioFiles example_prober example_imported ?fs)) = map fe_path (filter (\<lambda>f. \<not> scanned example_prober f) ?fs) \<and>
     length (heap (fst (scanAudioFiles example_prober example_imported ?fs))) = length (heap example_imported) + length (filter (scanned example_prober) ?fs)"
    by simp
  from probe_failures_soft [OF w n, of ?p] have B:
    "failed_paths (snd (snd (rescanAudioFiles ?p example_imported))) =
       map (\<lambda>a. af_path (heap example_imported ! a))
         (filter (\<lambda>a. isl (scan (?p (af_fullPath (heap example_imported ! a)) False) False)) (audioFiles example_imported))"
    by simp
  from w n A B e1 e2 e3 show ?thesis by simp
qed

text \<open>
  C22: After an import of a non-empty batch, the audiobook's \<open>audioFiles\<close> array holds
  its old addresses followed by one new address per scanned file. When the batch commits
  tracks, that list is stably sorted by the precedence key of lines 210--211 (metadata
  number, else filename number, else 0). When it commits none, the early return of line
  197 leaves it unsorted.
\<close>

theorem scanAudioFiles_audioFiles_order:
  assumes "wf_book ab" "fs \<noteq> []"
  shows "audioFiles (fst (scanAudioFiles probe ab fs)) =
           (if acc_tracks (scan_loop probe ab fs) = []
            then audioFiles ab @ [length (heap ab) ..< length (heap (fst (scanAudioFiles probe ab fs)))]
            else sort_key (\<lambda>a. af_sort_key (heap (fst (scanAudioFiles probe ab fs)) ! a))
                   (audioFiles ab @ [length (heap ab) ..< length (heap (fst (scanAudioFiles probe ab fs)))]))"
proof -
  let ?acc = "scan_loop probe ab fs"
  let ?ab' = "fst (scanAudioFiles probe ab fs)"
  have acc: "?acc = foldl (scan_file_step probe (length fs)) (init_acc ab) fs"
    by (simp add: scan_loop_def)
  have inv: "acc_inv ?acc"
    using foldl_scan_file_step_plan [OF acc_inv_init [of ab], where probe = probe and n = "length fs" and fs = fs]
    by (simp add: acc)
  from scan_loop_shape [where probe = probe and n = "length fs" and acc = "init_acc ab" and fs = fs]
  obtain new where hp: "heap (acc_book ?acc) = heap ab @ new"
    and af: "audioFiles (acc_book ?acc) = audioFiles ab @ [length (heap ab) ..< length (heap ab) + length new]"
    by (auto simp: acc init_acc_def)
  have r: "?ab' = fst (finish_import ?acc)"
    using assms(2) by (simp add: scanAudioFiles_def)
  have iv: "index_variant (heap ?ab') (heap (acc_book ?acc))"
    using finish_import_shape [OF inv] r by simp
  then have len: "length (heap ?ab') = length (heap ab) + length new"
    by (simp add: index_variant_def hp)
  have "af_sort_key (heap (acc_book ?acc) ! a) = af_sort_key (heap ?ab' ! a)"
    if a: "a \<in> set (audioFiles (acc_book ?acc))" for a
  proof -
    from a assms(1) have "a < length (heap (acc_book ?acc))"
      by (auto simp: af hp wf_book_def)
    from index_variant_nth [OF iv this] obtain v where
      "heap ?ab' ! a = (heap (acc_book ?acc) ! a)\<lparr>af_index := v\<rparr>" ..
    then show ?thesis by simp
  qed
  then have "sort_key (\<lambda>a. af_sort_key (heap (acc_book ?acc) ! a)) (audioFiles (acc_book ?acc)) =
             sort_key (\<lambda>a. af_sort_key (heap ?ab' ! a)) (audioFiles (acc_book ?acc))"
    by (rule sort_key_cong)
  with r af len show ?thesis
    by (simp add: finish_import_audioFiles)
qed

theorem scanAudioFiles_audioFiles_order_witness:
  "wf_book example_ab \<and> map example_file [''a'', ''b'', ''c''] \<noteq> [] \<and>
   audioFiles example_imported =
     sort_key (\<lambda>a. af_sort_key (heap example_imported ! a)) [0 ..< length (heap example_imported)] \<and>
   audioFiles example_imported = [1, 0, 2]"
proof -
  have w: "wf_book example_ab" by code_simp
  have n: "map example_file [''a'', ''b'', ''c''] \<noteq> []" by simp
  have c: "acc_tracks (scan_loop example_prober example_ab (map example_file [''a'', ''b'', ''c''])) \<noteq> []"
    by code_simp
  have v: "audioFiles example_imported = [1, 0, 2]" by code_simp
  from w n c v scanAudioFiles_audioFiles_order [OF w n, of example_prober]
  show ?thesis by (simp add: example_imported_def example_ab_def)
qed

end
