(* ===== verification/Spec2Isabelle.thy ===== *)
theory Spec2Isabelle
  imports ImportOrder Diagnostics Reconcilers
begin

text \<open>
  A verification library for \<open>src/server/utils/audioFileScanner.js\<close> of audiobookshelf,
  the scanner that turns probe results of audio files into an audiobook's ordered track
  list.

  \<^bold>\<open>The program.\<close> The file has five parts. The normaliser (\<open>scan\<close>,
  \<open>getDefaultAudioStream\<close>, lines 5--70) turns the prober's result into a canonical
  metadata record or an error. The resolver (\<open>isNumber\<close>, \<open>getTrackNumberFromMeta\<close>,
  \<open>getTrackNumberFromFilename\<close>, \<open>getCdNumberFromFilename\<close>, lines 74--123) reads a
  track number from the track tag and track and CD numbers from the file name. The batch
  import \<open>scanAudioFiles\<close> (lines 125--230) calls both for each new file, then assigns
  indices, rejects duplicates and commits the tracks to the audiobook. The rescan
  \<open>rescanAudioFiles\<close> (lines 234--292) probes the known files again and synchronises
  the changed ones with their tracks. The reporter \<open>scanTrackNumbers\<close> (lines 295--316)
  lists what the resolver reads for each track. The prober, the logger and the audiobook
  classes are collaborators outside \<open>src/\<close>.

  \<^bold>\<open>The theories.\<close>
  \<^item> \<open>Prelude\<close>: the lemma collections, the store's address type, and the JavaScript
    array primitives: \<open>find\<close> (\<open>find_pos\<close>), \<open>startsWith\<close>, and the stable
    \<open>Array.prototype.sort\<close>, shown to be the library's \<open>sort_key\<close>
    (\<open>stable_sorted_by_unique\<close>). This is why every \<open>sort\<close> call is modelled by
    \<open>sort_key\<close>.
  \<^item> \<open>JsNumber\<close>: JavaScript numbers as \<open>jsnum\<close> (exact rationals and the two
    infinities and \<open>NaN\<close>), \<open>Number()\<close> on strings (\<open>js_Number\<close>, ECMAScript's
    StringToNumber), \<open>Math.trunc\<close>, falsiness, and the track index type \<open>tnum\<close> with its
    linear order and the comparator \<open>a.index - b.index\<close>.
  \<^item> \<open>JsText\<close>: \<open>String.replace\<close> with a string pattern, the four regular expressions
    of lines 92, 95, 97 and 115 as leftmost backtracking matchers, and Node's
    \<open>path.basename\<close>/\<open>path.extname\<close>.
  \<^item> \<open>Normalizer\<close>: the probe result and the metadata record as \<open>record\<close>s, the
    errors as \<open>scan_error\<close>, and \<open>scan\<close> returning \<open>scan_error + audio_meta\<close>.
  \<^item> \<open>Resolver\<close>: the book context and the three number readers, the CD promotion
    \<open>promote_cd\<close> and \<open>resolve_numbers\<close>, which both reconcilers call.
  \<^item> \<open>Audiobook\<close>: the collaborator, modelled from the specification's interface.
    Audio file objects are shared between the audiobook's \<open>audioFiles\<close> and the import's
    local \<open>tracks\<close> array, so they live in an explicit store \<open>heap\<close> and both arrays
    hold addresses.
  \<^item> \<open>BatchImport\<close>: the loop of \<open>scanAudioFiles\<close> as a left fold of
    \<open>scan_file_step\<close> over the new files on a \<open>scan_acc\<close> record (audiobook, local
    \<open>tracks\<close>, both counters, log), then \<open>finish_import\<close>. Beside it, the pure plan
    \<open>plan_indices\<close>: one verdict per file, from its candidate index and the indices
    claimed before it. The invariant \<open>acc_inv\<close> and the step refinement are proved here.
  \<^item> \<open>ImportOrder\<close>: the import's contract, from the refinement: the committed
    indices, their order, the zero-based shift, order independence, and the duplicate,
    no-index and counting behaviour.
  \<^item> \<open>Rescan\<close>: the loop of \<open>rescanAudioFiles\<close> as the index recursion
    \<open>rescan_loop\<close>, which reads its bound \<open>audioFiles.length\<close> from the audiobook on
    every iteration as line 238 does, with the body \<open>rescan_file_step\<close> and the track
    lookup \<open>sync_track\<close>. The loop is shown to terminate and to equal a left fold over
    the addresses (\<open>rescan_loop_foldl\<close>). Each branch of the lookup is characterised.
    A second rescan is shown to change nothing.
  \<^item> \<open>Diagnostics\<close>: \<open>scanTrackNumbers\<close>, a map over the tracks.
  \<^item> \<open>Lifecycle\<close>: the audiobook across calls. The inductive predicate
    \<open>lifecycle\<close> holds for the states reached from an empty audiobook by imports of fresh
    files (\<open>fresh_batch\<close>, the caller's contract) and by rescans, each with any prober.
    The invariant \<open>book_inv\<close> says that \<open>audioFiles\<close> lists every stored object once,
    that identities and paths are unique, and that every track is backed by a valid object
    (\<open>track_backed\<close>). Both reconcilers are shown to keep it, and it holds in every
    reachable state by rule induction. The theory also shows that the import stores what
    a rescan would compute (\<open>all_settled\<close>).
  \<^item> \<open>Reconcilers\<close>: what spans both reconcilers. It covers the order of \<open>audioFiles\<close>
    after an import (the sort of lines 209--213 with the key built from \<open>isNumber\<close>),
    and probe failures as per-file soft failures in both loops (read from the log through
    \<open>failed_paths\<close>).

  \<^bold>\<open>What the lemmas show.\<close>
  \<^item> The import loop computes the pure plan (\<open>scan_loop_refines_plan\<close>).
  \<^item> For an audiobook without tracks, the committed indices are the distinct candidates,
    sorted and shifted when the smallest is 0. They are strictly increasing, do not
    depend on the input order, and contain no 0 when the candidates are non-negative.
    A single file is committed as track 1.
  \<^item> Existing tracks are merged in sorted order. Duplicates within a batch are marked
    invalid and counted.
  \<^item> A rescan never changes the track structure. A second rescan changes nothing. Each
    branch of the track lookup behaves as lines 267--286 say.
  \<^item> The rescan loop terminates although its bound is read from mutable state.
  \<^item> In every reachable audiobook each track is backed by exactly one valid audio file
    object, which is the specification's invariant of section 3.
  \<^item> A rescan right after an import, with the same prober, changes nothing.
  \<^item> After an import that commits tracks, \<open>audioFiles\<close> is stably sorted by the
    precedence key. After one that commits none, it stays in insertion order.
  \<^item> A failed probe is logged, in input order, and only skips that file, in both loops.
  \<^item> The normaliser meets its contract: its errors, the stream choice, cover art and
    the track tag, including a round trip of the tag through printing.
  \<^item> The filename reader equals a direct first-digit-run scan, and its numbers are
    bounded. The CD promotion is characterised in every case, falsy zeros included.

  The modelling revealed divergences, each stated as a general theorem:
  \<^item> the invalid-tracks log line prints the duplicate count
    (\<open>invalid_tracks_log_miscount\<close>);
  \<^item> the duplicate check ignores the audiobook's existing tracks, so a merged list can
    hold one index twice (\<open>scanAudioFiles_duplicate_with_existing\<close>);
  \<^item> a negative candidate defeats the zero-based correction
    (\<open>scanAudioFiles_negative_keeps_zero\<close>);
  \<^item> a CD number 0 is never promoted (\<open>resolve_numbers_promotion\<close>).
  Concrete evaluations with \<open>code_simp\<close> record three more: the CD pattern matches the
  disc marker of the specification's example, \<open>replace(publishYear)\<close> inserts the
  text \<open>undefined\<close>, and the reporter skips the CD promotion. The comparator lemma
  \<open>tnum_compare_consistent\<close> justifies modelling the index sorts by \<open>sort_key\<close>.

  \<^bold>\<open>Bounds and fuel.\<close> Every loop of the file runs over a finite array. The loops
  over arrays nobody changes are structural recursion (\<open>foldl\<close>, \<open>map\<close>). The
  rescan loop reads its bound from the audiobook; it is a \<open>function\<close> whose termination
  is proved with the measure \<open>length audioFiles - i\<close>, because no iteration changes
  \<open>audioFiles\<close>. Every definition is total and executable, and no fuel is needed.

  \<^bold>\<open>Not modelled.\<close>
  \<^item> The rounding of IEEE doubles: finite numbers are exact rationals, which only differ
    past \<open>2^53\<close> or for exponent overflow.
  \<^item> The prober, which is a parameter returning a result or nothing. A prober that
    throws is not modelled.
  \<^item> The logger: the warning and error lines are \<open>log_msg\<close> values.
  \<^item> File discovery.
  \<^item> The audiobook classes beyond the interface the specification gives.
  \<^item> Concurrent calls on one audiobook, which the specification excludes.
  \<^item> Changes of a file's \<open>ino\<close> on disk between calls, which the caller records
    outside this file. In the states \<open>lifecycle\<close> reaches, a track's \<open>ino\<close> is
    always its file's, so those states do not exercise the rescan's path fallback. That
    branch is characterised on its own in \<open>Rescan\<close>.
  \<^item> Liveness: every call returns after one pass over its arrays, which the
    termination and totality of the definitions express; the model has no other
    progress obligation.
\<close>

end
